theory Spec2Isabelle
  imports Complex_Main
begin

section \<open>Tuning curves from the Allen Brain Observatory notebook\<close>

text \<open>
  The notebook \<^verbatim>\<open>Session_2_Tuning_Curves.ipynb\<close> computes, for one neuron, a mean
  response per trial, a direction tuning curve, a direction by temporal-frequency tuning
  array and its z-score. The code cells are numbered by their position in the notebook
  (cell 37 holds the trial-response loop, cell 45 the hand-computed average for direction 270,
  cell 47 \<^verbatim>\<open>dirvals\<close>, cell 52 the tuning curve, cell 71 the tuning array, cell 80 the z-score).

  The cells are given twice: as functions on arrays as values, for what they compute, and
  as programs over a memory of shared arrays, for what they change in place. The second
  reading is proved to compute what the first computes.
\<close>

subsection \<open>Floating-point values\<close>

text \<open>
  A numpy float, of whatever precision, is a finite number, an infinity or NaN. Finite
  values are reals and the arithmetic on them is exact: rounding, overflow and the sign of
  zero are not part of the model.
\<close>

datatype npfloat = Fin real | PInf | NInf | NaN

fun isfinite :: "npfloat \<Rightarrow> bool" where
  "isfinite (Fin r) = True"
| "isfinite PInf = False"
| "isfinite NInf = False"
| "isfinite NaN = False"

text \<open>The comparison \<^verbatim>\<open>==\<close>: NaN is unequal to every value, itself included.\<close>

fun fl_eq :: "npfloat \<Rightarrow> npfloat \<Rightarrow> bool" where
  "fl_eq NaN y = False"
| "fl_eq x NaN = False"
| "fl_eq x y = (x = y)"

text \<open>The comparison \<^verbatim>\<open><\<close>: false whenever one side is NaN.\<close>

fun fl_less :: "npfloat \<Rightarrow> npfloat \<Rightarrow> bool" where
  "fl_less NaN y = False"
| "fl_less x NaN = False"
| "fl_less (Fin a) (Fin b) = (a < b)"
| "fl_less x NInf = False"
| "fl_less NInf y = True"
| "fl_less PInf y = False"
| "fl_less x PInf = True"

fun fl_neg :: "npfloat \<Rightarrow> npfloat" where
  "fl_neg (Fin r) = Fin (- r)"
| "fl_neg PInf = NInf"
| "fl_neg NInf = PInf"
| "fl_neg NaN = NaN"

fun fl_add :: "npfloat \<Rightarrow> npfloat \<Rightarrow> npfloat" where
  "fl_add NaN y = NaN"
| "fl_add x NaN = NaN"
| "fl_add (Fin a) (Fin b) = Fin (a + b)"
| "fl_add PInf NInf = NaN"
| "fl_add NInf PInf = NaN"
| "fl_add PInf y = PInf"
| "fl_add NInf y = NInf"
| "fl_add (Fin a) y = y"

definition fl_sub :: "npfloat \<Rightarrow> npfloat \<Rightarrow> npfloat" where
  "fl_sub x y = fl_add x (fl_neg y)"

text \<open>The sign of a value that is not NaN: \<open>-1\<close>, \<open>0\<close> or \<open>1\<close>.\<close>

fun fl_sgn :: "npfloat \<Rightarrow> real" where
  "fl_sgn (Fin r) = sgn r"
| "fl_sgn PInf = 1"
| "fl_sgn NInf = - 1"
| "fl_sgn NaN = 0"

definition inf_of_sign :: "real \<Rightarrow> npfloat" where
  "inf_of_sign s = (if s = 0 then NaN else if 0 < s then PInf else NInf)"

fun fl_mul :: "npfloat \<Rightarrow> npfloat \<Rightarrow> npfloat" where
  "fl_mul NaN y = NaN"
| "fl_mul x NaN = NaN"
| "fl_mul (Fin a) (Fin b) = Fin (a * b)"
| "fl_mul x y = inf_of_sign (fl_sgn x * fl_sgn y)"

text \<open>
  Division as numpy does it: a finite value over zero is an infinity of its sign,
  \<open>0 / 0\<close> and \<open>inf / inf\<close> are NaN, and nothing is raised.
\<close>

fun fl_div :: "npfloat \<Rightarrow> npfloat \<Rightarrow> npfloat" where
  "fl_div NaN y = NaN"
| "fl_div x NaN = NaN"
| "fl_div (Fin a) (Fin b) = (if b = 0 then inf_of_sign (sgn a) else Fin (a / b))"
| "fl_div (Fin a) y = Fin 0"
| "fl_div x (Fin b) = (if b = 0 then x else inf_of_sign (fl_sgn x * sgn b))"
| "fl_div x y = NaN"

fun fl_sqrt :: "npfloat \<Rightarrow> npfloat" where
  "fl_sqrt (Fin r) = (if r < 0 then NaN else Fin (sqrt r))"
| "fl_sqrt PInf = PInf"
| "fl_sqrt NInf = NaN"
| "fl_sqrt NaN = NaN"

subsection \<open>Array reductions\<close>

text \<open>\<^verbatim>\<open>a.sum()\<close>: the elements added up from \<open>0\<close>.\<close>

definition np_sum :: "npfloat list \<Rightarrow> npfloat" where
  "np_sum xs = foldl fl_add (Fin 0) xs"

text \<open>
  \<^verbatim>\<open>a.mean()\<close>: the sum over the number of elements. Of an empty array it is
  \<open>0 / 0\<close>, that is NaN (numpy warns and returns it).
\<close>

definition np_mean :: "npfloat list \<Rightarrow> npfloat" where
  "np_mean xs = fl_div (np_sum xs) (Fin (real (length xs)))"

text \<open>\<^verbatim>\<open>a.std()\<close>: the square root of the mean squared deviation from the mean.\<close>

definition np_std :: "npfloat list \<Rightarrow> npfloat" where
  "np_std xs =
     (let m = np_mean xs;
          x = map (\<lambda>v. fl_sub v m) xs
      in fl_sqrt (np_mean (map (\<lambda>v. fl_mul v v) x)))"

subsection \<open>Slicing\<close>

text \<open>
  \<^verbatim>\<open>a[lo:hi]\<close> on a one-dimensional array: a negative bound counts from the end, and
  both bounds are clipped to the array. Nothing is raised.
\<close>

definition slice_bound :: "nat \<Rightarrow> int \<Rightarrow> nat" where
  "slice_bound n k = (if k < 0 then nat (max 0 (int n + k)) else min n (nat k))"

definition py_slice :: "'a list \<Rightarrow> int \<Rightarrow> int \<Rightarrow> 'a list" where
  "py_slice xs lo hi =
     (let l = slice_bound (length xs) lo;
          h = slice_bound (length xs) hi
      in take (h - l) (drop l xs))"

subsection \<open>The stimulus table\<close>

text \<open>
  One row per trial, with the default index \<open>0, 1, 2, ...\<close> of the table the SDK returns,
  so that the label \<^verbatim>\<open>stim_table.start[i]\<close> is the position \<open>i\<close>. The column
  \<^verbatim>\<open>end\<close> is the field \<open>end_frame\<close>.
\<close>

record stim_row =
  start :: int
  end_frame :: int
  orientation :: npfloat
  temporal_frequency :: npfloat
  blank_sweep :: npfloat

subsection \<open>Errors and unbound names\<close>

text \<open>
  A cell either finishes or raises. A variable of the notebook that no cell has assigned
  yet is \<open>None\<close>, and reading it raises \<^verbatim>\<open>NameError\<close>.
\<close>

datatype py_error = NameError string | IndexError | ValueError | KeyError | TypeError

definition then_do :: "py_error + 'a \<Rightarrow> ('a \<Rightarrow> py_error + 'b) \<Rightarrow> py_error + 'b" where
  "then_do m f = (case m of Inl e \<Rightarrow> Inl e | Inr x \<Rightarrow> f x)"

definition lookup :: "string \<Rightarrow> 'a option \<Rightarrow> py_error + 'a" where
  "lookup name v = (case v of None \<Rightarrow> Inl (NameError name) | Some x \<Rightarrow> Inr x)"

subsection \<open>Array operations of numpy\<close>

definition np_zeros :: "nat \<Rightarrow> npfloat list" where
  "np_zeros n = replicate n (Fin 0)"

text \<open>
  \<^verbatim>\<open>np.empty\<close> allocates without initialising: the array holds whatever the
  memory held, here the values \<open>g\<close> of the caller's choice.
\<close>

definition np_empty :: "(nat \<Rightarrow> npfloat) \<Rightarrow> nat \<Rightarrow> npfloat list" where
  "np_empty g n = map g [0..<n]"

definition np_empty2 :: "(nat \<Rightarrow> nat \<Rightarrow> npfloat) \<Rightarrow> nat \<Rightarrow> nat \<Rightarrow> npfloat list list" where
  "np_empty2 g rows cols = map (\<lambda>j. map (g j) [0..<cols]) [0..<rows]"

text \<open>Storing at an index that \<^verbatim>\<open>enumerate\<close> produced (never negative).\<close>

definition np_set :: "npfloat list \<Rightarrow> nat \<Rightarrow> npfloat \<Rightarrow> py_error + npfloat list" where
  "np_set a i v = (if i < length a then Inr (a[i := v]) else Inl IndexError)"

definition np_set2 :: "npfloat list list \<Rightarrow> nat \<Rightarrow> nat \<Rightarrow> npfloat \<Rightarrow> py_error + npfloat list list" where
  "np_set2 a j i v =
     (if j < length a \<and> i < length (a ! j) then Inr (a[j := (a ! j)[i := v]])
      else Inl IndexError)"

text \<open>\<^verbatim>\<open>a == d\<close> for an array and a scalar.\<close>

definition np_eq :: "npfloat list \<Rightarrow> npfloat \<Rightarrow> bool list" where
  "np_eq a d = map (\<lambda>x. fl_eq x d) a"

text \<open>
  \<^verbatim>\<open>m1 & m2\<close> on boolean arrays: elementwise on equal lengths, an array of length one is
  broadcast, any other pair of lengths raises.
\<close>

definition np_and :: "bool list \<Rightarrow> bool list \<Rightarrow> py_error + bool list" where
  "np_and m1 m2 =
     (if length m1 = length m2 then Inr (map (\<lambda>(x, y). x \<and> y) (zip m1 m2))
      else if length m1 = 1 then Inr (map (\<lambda>y. hd m1 \<and> y) m2)
      else if length m2 = 1 then Inr (map (\<lambda>x. x \<and> hd m2) m1)
      else Inl ValueError)"

text \<open>
  \<^verbatim>\<open>a[trials]\<close>: the elements where the boolean array is true, in order. The lengths
  must agree, except that numpy does not check an empty boolean array, which selects
  nothing.
\<close>

definition bool_index :: "'a list \<Rightarrow> bool list \<Rightarrow> py_error + 'a list" where
  "bool_index a trials =
     (if length trials = length a \<or> trials = []
      then Inr (map fst (filter snd (zip a trials)))
      else Inl IndexError)"

text \<open>
  \<^verbatim>\<open>np.unique\<close>: the distinct values in ascending order, \<open>-inf\<close> first, \<open>inf\<close> after
  the finite values and a single NaN last.
\<close>

definition finite_values :: "npfloat list \<Rightarrow> real list" where
  "finite_values a = concat (map (\<lambda>x. case x of Fin r \<Rightarrow> [r] | _ \<Rightarrow> []) a)"

definition np_unique :: "npfloat list \<Rightarrow> npfloat list" where
  "np_unique a =
     (if NInf \<in> set a then [NInf] else []) @
     map Fin (sort (remdups (finite_values a))) @
     (if PInf \<in> set a then [PInf] else []) @
     (if NaN \<in> set a then [NaN] else [])"

definition enumerate_list :: "'a list \<Rightarrow> (nat \<times> 'a) list" where
  "enumerate_list xs = zip [0..<length xs] xs"

subsection \<open>Cell 29: the padded window of the first trial\<close>

text \<open>
  \<^verbatim>\<open>dff_trace[stim_table.start[0]-30:stim_table.end[0]+30]\<close>; the label \<open>0\<close> is
  missing from an empty table. The entries of the columns \<^verbatim>\<open>start\<close> and \<^verbatim>\<open>end\<close> are
  64-bit signed integers, and so are the two bounds: the subtraction and the addition wrap
  around (numpy warns and goes on).
\<close>

definition int64 :: "int \<Rightarrow> int" where
  "int64 x = (x + 2 ^ 63) mod 2 ^ 64 - 2 ^ 63"

definition padded_window :: "npfloat list \<Rightarrow> stim_row list \<Rightarrow> py_error + npfloat list" where
  "padded_window dff_trace stim_table =
     (case stim_table of
        [] \<Rightarrow> Inl KeyError
      | r # _ \<Rightarrow> Inr (py_slice dff_trace (int64 (start r - 30)) (int64 (end_frame r + 30))))"

subsection \<open>Cell 37: the response of each trial\<close>

text \<open>
  \<^verbatim>\<open>
  direction = stim_table.orientation.values
  temporal_frequency = stim_table.temporal_frequency.values
  \<close>
  The two arrays are the columns of the table. The functions of this part take arrays as
  values; that the two names share their memory with the table is part of the notebook in
  memory, further down, where the stores of the cells are stores in place.
\<close>

definition direction_of :: "stim_row list \<Rightarrow> npfloat list" where
  "direction_of stim_table = map orientation stim_table"

definition temporal_frequency_of :: "stim_row list \<Rightarrow> npfloat list" where
  "temporal_frequency_of stim_table = map temporal_frequency stim_table"

text \<open>
  \<^verbatim>\<open>
  trial_response= np.zeros(len(stim_table))
  for i in range(len(stim_table)):
      trial_response[i] = dff_trace[stim_table.start[i]:stim_table.end[i]].mean()
  \<close>
  The loop runs over the indices left to visit and carries the array it fills. Its
  indices are within the array and within the table, and neither the slice nor the mean
  raises.
\<close>

fun trial_response_loop :: "npfloat list \<Rightarrow> stim_row list \<Rightarrow> nat list \<Rightarrow> npfloat list \<Rightarrow> npfloat list" where
  "trial_response_loop dff_trace stim_table [] trial_response = trial_response"
| "trial_response_loop dff_trace stim_table (i # is) trial_response =
     trial_response_loop dff_trace stim_table is
       (trial_response
          [i := np_mean (py_slice dff_trace (start (stim_table ! i)) (end_frame (stim_table ! i)))])"

definition trial_response_of :: "npfloat list \<Rightarrow> stim_row list \<Rightarrow> npfloat list" where
  "trial_response_of dff_trace stim_table =
     trial_response_loop dff_trace stim_table [0..<length stim_table]
       (np_zeros (length stim_table))"

text \<open>The number of times the loop body runs.\<close>

fun T_trial_response_loop :: "npfloat list \<Rightarrow> stim_row list \<Rightarrow> nat list \<Rightarrow> npfloat list \<Rightarrow> nat" where
  "T_trial_response_loop dff_trace stim_table [] trial_response = 0"
| "T_trial_response_loop dff_trace stim_table (i # is) trial_response =
     1 + T_trial_response_loop dff_trace stim_table is
       (trial_response
          [i := np_mean (py_slice dff_trace (start (stim_table ! i)) (end_frame (stim_table ! i)))])"

definition T_trial_response_of :: "npfloat list \<Rightarrow> stim_row list \<Rightarrow> nat" where
  "T_trial_response_of dff_trace stim_table =
     T_trial_response_loop dff_trace stim_table [0..<length stim_table]
       (np_zeros (length stim_table))"

subsection \<open>Cell 45: the average for one direction, by hand\<close>

text \<open>
  \<^verbatim>\<open>
  trials = direction==270
  trial_response[trials].mean()
  \<close>
  The cell is the instance \<open>d = 270\<close> of the average for a direction \<open>d\<close>.
\<close>

definition direction_average :: "npfloat list option \<Rightarrow> npfloat list option \<Rightarrow> npfloat \<Rightarrow> py_error + npfloat" where
  "direction_average direction trial_response d =
     then_do (lookup ''direction'' direction) (\<lambda>dir.
     let trials = np_eq dir d in
     then_do (lookup ''trial_response'' trial_response) (\<lambda>resp.
     then_do (bool_index resp trials) (\<lambda>sel.
       Inr (np_mean sel))))"

subsection \<open>Cell 47: the direction values\<close>

text \<open>
  \<^verbatim>\<open>
  all_dir = np.unique(direction)
  dirvals = all_dir[np.isfinite(all_dir)]
  \<close>
\<close>

definition dirvals_of :: "npfloat list \<Rightarrow> npfloat list" where
  "dirvals_of direction = (let all_dir = np_unique direction in filter isfinite all_dir)"

text \<open>
  Modelled from the spec: \<^verbatim>\<open>tfvals\<close>, which the later cells read and no cell of the
  notebook assigns. The notebook's text and the claims describe it as the finite unique
  temporal frequencies, the counterpart of \<^verbatim>\<open>dirvals\<close>. The functions of cell 71 take
  \<^verbatim>\<open>tfvals\<close> as a parameter; this definition only supplies a value for it in examples.
\<close>

definition tfvals_of :: "npfloat list \<Rightarrow> npfloat list" where
  "tfvals_of temporal_freq = (let all_tf = np_unique temporal_freq in filter isfinite all_tf)"

subsection \<open>Cell 52: the direction tuning curve\<close>

text \<open>
  \<^verbatim>\<open>
  tuning = np.empty((8))
  for i, d in enumerate(dirvals):
      trials = direction==d
      tuning[i] = trial_response[trials].mean()
  \<close>
  The names are read in the order of the source, inside the loop body.
\<close>

definition tuning_body ::
  "npfloat list option \<Rightarrow> npfloat list option \<Rightarrow> nat \<Rightarrow> npfloat \<Rightarrow> npfloat list \<Rightarrow> py_error + npfloat list" where
  "tuning_body direction trial_response i d tuning =
     then_do (lookup ''direction'' direction) (\<lambda>dir.
     let trials = np_eq dir d in
     then_do (lookup ''trial_response'' trial_response) (\<lambda>resp.
     then_do (bool_index resp trials) (\<lambda>sel.
       np_set tuning i (np_mean sel))))"

fun tuning_loop ::
  "npfloat list option \<Rightarrow> npfloat list option \<Rightarrow> (nat \<times> npfloat) list \<Rightarrow> npfloat list \<Rightarrow> py_error + npfloat list" where
  "tuning_loop direction trial_response [] tuning = Inr tuning"
| "tuning_loop direction trial_response ((i, d) # rest) tuning =
     (case tuning_body direction trial_response i d tuning of
        Inl e \<Rightarrow> Inl e
      | Inr tuning' \<Rightarrow> tuning_loop direction trial_response rest tuning')"

definition tuning_of ::
  "(nat \<Rightarrow> npfloat) \<Rightarrow> npfloat list option \<Rightarrow> npfloat list option \<Rightarrow> npfloat list option \<Rightarrow> py_error + npfloat list" where
  "tuning_of g dirvals direction trial_response =
     then_do (lookup ''dirvals'' dirvals) (\<lambda>dv.
       tuning_loop direction trial_response (enumerate_list dv) (np_empty g 8))"

subsection \<open>Cell 71: the direction by temporal-frequency tuning array\<close>

text \<open>
  \<^verbatim>\<open>
  tuning_array = np.empty((8,5))
  for i,tf in enumerate(tfvals):
      for j,d in enumerate(dirvals):
          trials = (temporal_frequency==tf)&(direction==d)
          tuning_array[j,i] = trial_response[trials].mean()
  \<close>
  The array \<^verbatim>\<open>temporal_frequency\<close> is the parameter \<open>temporal_freq\<close>.
\<close>

definition tuning_array_body ::
  "npfloat list option \<Rightarrow> npfloat list option \<Rightarrow> npfloat list option \<Rightarrow>
   nat \<Rightarrow> npfloat \<Rightarrow> nat \<Rightarrow> npfloat \<Rightarrow> npfloat list list \<Rightarrow> py_error + npfloat list list" where
  "tuning_array_body temporal_freq direction trial_response i tf j d tuning_array =
     then_do (lookup ''temporal_frequency'' temporal_freq) (\<lambda>tfa.
     then_do (lookup ''direction'' direction) (\<lambda>dir.
     then_do (np_and (np_eq tfa tf) (np_eq dir d)) (\<lambda>trials.
     then_do (lookup ''trial_response'' trial_response) (\<lambda>resp.
     then_do (bool_index resp trials) (\<lambda>sel.
       np_set2 tuning_array j i (np_mean sel))))))"

fun tuning_array_inner ::
  "npfloat list option \<Rightarrow> npfloat list option \<Rightarrow> npfloat list option \<Rightarrow>
   nat \<Rightarrow> npfloat \<Rightarrow> (nat \<times> npfloat) list \<Rightarrow> npfloat list list \<Rightarrow> py_error + npfloat list list" where
  "tuning_array_inner temporal_freq direction trial_response i tf [] tuning_array =
     Inr tuning_array"
| "tuning_array_inner temporal_freq direction trial_response i tf ((j, d) # rest) tuning_array =
     (case tuning_array_body temporal_freq direction trial_response i tf j d tuning_array of
        Inl e \<Rightarrow> Inl e
      | Inr tuning_array' \<Rightarrow>
          tuning_array_inner temporal_freq direction trial_response i tf rest tuning_array')"

fun tuning_array_outer ::
  "npfloat list option \<Rightarrow> npfloat list option \<Rightarrow> npfloat list option \<Rightarrow> npfloat list option \<Rightarrow>
   (nat \<times> npfloat) list \<Rightarrow> npfloat list list \<Rightarrow> py_error + npfloat list list" where
  "tuning_array_outer dirvals temporal_freq direction trial_response [] tuning_array =
     Inr tuning_array"
| "tuning_array_outer dirvals temporal_freq direction trial_response ((i, tf) # rest) tuning_array =
     (case lookup ''dirvals'' dirvals of
        Inl e \<Rightarrow> Inl e
      | Inr dv \<Rightarrow>
          (case tuning_array_inner temporal_freq direction trial_response i tf
                  (enumerate_list dv) tuning_array of
             Inl e \<Rightarrow> Inl e
           | Inr tuning_array' \<Rightarrow>
               tuning_array_outer dirvals temporal_freq direction trial_response rest
                 tuning_array'))"

definition tuning_array_of ::
  "(nat \<Rightarrow> nat \<Rightarrow> npfloat) \<Rightarrow> npfloat list option \<Rightarrow> npfloat list option \<Rightarrow> npfloat list option \<Rightarrow>
   npfloat list option \<Rightarrow> npfloat list option \<Rightarrow> py_error + npfloat list list" where
  "tuning_array_of g tfvals dirvals temporal_freq direction trial_response =
     then_do (lookup ''tfvals'' tfvals) (\<lambda>tfv.
       tuning_array_outer dirvals temporal_freq direction trial_response
         (enumerate_list tfv) (np_empty2 g 8 5))"

text \<open>The number of times the body of the inner loop is entered.\<close>

fun T_tuning_array_inner ::
  "npfloat list option \<Rightarrow> npfloat list option \<Rightarrow> npfloat list option \<Rightarrow>
   nat \<Rightarrow> npfloat \<Rightarrow> (nat \<times> npfloat) list \<Rightarrow> npfloat list list \<Rightarrow> nat" where
  "T_tuning_array_inner temporal_freq direction trial_response i tf [] tuning_array = 0"
| "T_tuning_array_inner temporal_freq direction trial_response i tf ((j, d) # rest) tuning_array =
     1 + (case tuning_array_body temporal_freq direction trial_response i tf j d tuning_array of
            Inl e \<Rightarrow> 0
          | Inr tuning_array' \<Rightarrow>
              T_tuning_array_inner temporal_freq direction trial_response i tf rest tuning_array')"

fun T_tuning_array_outer ::
  "npfloat list option \<Rightarrow> npfloat list option \<Rightarrow> npfloat list option \<Rightarrow> npfloat list option \<Rightarrow>
   (nat \<times> npfloat) list \<Rightarrow> npfloat list list \<Rightarrow> nat" where
  "T_tuning_array_outer dirvals temporal_freq direction trial_response [] tuning_array = 0"
| "T_tuning_array_outer dirvals temporal_freq direction trial_response ((i, tf) # rest) tuning_array =
     (case lookup ''dirvals'' dirvals of
        Inl e \<Rightarrow> 0
      | Inr dv \<Rightarrow>
          T_tuning_array_inner temporal_freq direction trial_response i tf
            (enumerate_list dv) tuning_array +
          (case tuning_array_inner temporal_freq direction trial_response i tf
                  (enumerate_list dv) tuning_array of
             Inl e \<Rightarrow> 0
           | Inr tuning_array' \<Rightarrow>
               T_tuning_array_outer dirvals temporal_freq direction trial_response rest
                 tuning_array'))"

definition T_tuning_array_of ::
  "(nat \<Rightarrow> nat \<Rightarrow> npfloat) \<Rightarrow> npfloat list option \<Rightarrow> npfloat list option \<Rightarrow> npfloat list option \<Rightarrow>
   npfloat list option \<Rightarrow> npfloat list option \<Rightarrow> nat" where
  "T_tuning_array_of g tfvals dirvals temporal_freq direction trial_response =
     (case lookup ''tfvals'' tfvals of
        Inl e \<Rightarrow> 0
      | Inr tfv \<Rightarrow>
          T_tuning_array_outer dirvals temporal_freq direction trial_response
            (enumerate_list tfv) (np_empty2 g 8 5))"

subsection \<open>Cell 80: the z-score\<close>

text \<open>
  \<^verbatim>\<open>tuning_array_z = (tuning_array - tuning_array.mean())/tuning_array.std()\<close>:
  mean and standard deviation of a two-dimensional array run over all its entries.
\<close>

definition tuning_array_z_of :: "npfloat list list \<Rightarrow> npfloat list list" where
  "tuning_array_z_of tuning_array =
     (let m = np_mean (concat tuning_array);
          s = np_std (concat tuning_array)
      in map (map (\<lambda>x. fl_div (fl_sub x m) s)) tuning_array)"

subsection \<open>The notebook as a run of cells\<close>

text \<open>
  The variables of the notebook after the data were loaded: the trace and the stimulus
  table are bound, every other variable is bound once a cell has assigned it. A cell that
  raises ends the run. The loop variables and the boolean array \<^verbatim>\<open>trials\<close>, which the
  cells overwrite before they read them, are local to the functions of the cells.
\<close>

record nb_state =
  g_dff_trace :: "npfloat list"
  g_stim_table :: "stim_row list"
  g_direction :: "npfloat list option"
  g_temporal_frequency :: "npfloat list option"
  g_trial_response :: "npfloat list option"
  g_all_dir :: "npfloat list option"
  g_dirvals :: "npfloat list option"
  g_tfvals :: "npfloat list option"
  g_tuning :: "npfloat list option"
  g_tuning_array :: "npfloat list list option"
  g_tuning_array_z :: "npfloat list list option"

definition init_state :: "npfloat list \<Rightarrow> stim_row list \<Rightarrow> nb_state" where
  "init_state dff_trace stim_table =
     \<lparr>g_dff_trace = dff_trace, g_stim_table = stim_table, g_direction = None,
      g_temporal_frequency = None, g_trial_response = None, g_all_dir = None,
      g_dirvals = None, g_tfvals = None, g_tuning = None, g_tuning_array = None,
      g_tuning_array_z = None\<rparr>"

definition cell_37 :: "nb_state \<Rightarrow> py_error + nb_state" where
  "cell_37 s =
     Inr (s\<lparr>g_direction := Some (direction_of (g_stim_table s)),
            g_temporal_frequency := Some (temporal_frequency_of (g_stim_table s)),
            g_trial_response := Some (trial_response_of (g_dff_trace s) (g_stim_table s))\<rparr>)"

definition cell_45 :: "nb_state \<Rightarrow> py_error + nb_state" where
  "cell_45 s =
     then_do (direction_average (g_direction s) (g_trial_response s) (Fin 270)) (\<lambda>v. Inr s)"

definition cell_47 :: "nb_state \<Rightarrow> py_error + nb_state" where
  "cell_47 s =
     then_do (lookup ''direction'' (g_direction s)) (\<lambda>dir.
       Inr (s\<lparr>g_all_dir := Some (np_unique dir), g_dirvals := Some (dirvals_of dir)\<rparr>))"

definition cell_52 :: "(nat \<Rightarrow> npfloat) \<Rightarrow> nb_state \<Rightarrow> py_error + nb_state" where
  "cell_52 g s =
     then_do (tuning_of g (g_dirvals s) (g_direction s) (g_trial_response s)) (\<lambda>t.
       Inr (s\<lparr>g_tuning := Some t\<rparr>))"

definition cell_71 :: "(nat \<Rightarrow> nat \<Rightarrow> npfloat) \<Rightarrow> nb_state \<Rightarrow> py_error + nb_state" where
  "cell_71 g s =
     then_do (tuning_array_of g (g_tfvals s) (g_dirvals s) (g_temporal_frequency s)
                (g_direction s) (g_trial_response s)) (\<lambda>a.
       Inr (s\<lparr>g_tuning_array := Some a\<rparr>))"

definition cell_80 :: "nb_state \<Rightarrow> py_error + nb_state" where
  "cell_80 s =
     then_do (lookup ''tuning_array'' (g_tuning_array s)) (\<lambda>a.
       Inr (s\<lparr>g_tuning_array_z := Some (tuning_array_z_of a)\<rparr>))"

fun run_cells :: "(nb_state \<Rightarrow> py_error + nb_state) list \<Rightarrow> nb_state \<Rightarrow> py_error + nb_state" where
  "run_cells [] s = Inr s"
| "run_cells (c # cs) s = (case c s of Inl e \<Rightarrow> Inl e | Inr s' \<Rightarrow> run_cells cs s')"

text \<open>The cells that compute, in the order of the notebook.\<close>

definition aggregation_cells ::
  "(nat \<Rightarrow> npfloat) \<Rightarrow> (nat \<Rightarrow> nat \<Rightarrow> npfloat) \<Rightarrow> (nb_state \<Rightarrow> py_error + nb_state) list" where
  "aggregation_cells g g2 = [cell_37, cell_45, cell_47, cell_52 g, cell_71 g2, cell_80]"

subsection \<open>The notebook in memory\<close>

text \<open>
  The arrays of the notebook are objects in memory, and a variable holds a reference to
  one: two names can stand for the same array, and a store through one of them is seen
  through the other. Here the memory is a map from addresses to arrays, a new array
  takes the next free address, and the names of the notebook are bound to addresses.
  The trace and the five columns of the stimulus table are at addresses of their own,
  which no cell rebinds.
\<close>

type_synonym addr = nat

datatype array = Floats "npfloat list" | Ints "int list" | Bools "bool list"
  | Floats2 "npfloat list list"

record notebook =
  heap :: "addr \<Rightarrow> array option"
  next_addr :: addr
  globals :: "string \<Rightarrow> addr option"
  a_dff_trace :: addr
  a_start :: addr
  a_end :: addr
  a_orientation :: addr
  a_temporal_frequency :: addr
  a_blank_sweep :: addr

text \<open>
  A statement \<^verbatim>\<open>name = <new array>\<close> puts the array at the next free address and binds
  the name to it. A statement \<^verbatim>\<open>name = <column>.values\<close> allocates nothing: the name is
  bound to the address of the column, whose memory it shares.
\<close>

definition assign_new :: "string \<Rightarrow> array \<Rightarrow> notebook \<Rightarrow> notebook" where
  "assign_new name x s =
     s\<lparr>heap := (heap s)(next_addr s \<mapsto> x),
       next_addr := Suc (next_addr s),
       globals := (globals s)(name \<mapsto> next_addr s)\<rparr>"

definition assign_view :: "string \<Rightarrow> addr \<Rightarrow> notebook \<Rightarrow> notebook" where
  "assign_view name p s = s\<lparr>globals := (globals s)(name \<mapsto> p)\<rparr>"

text \<open>
  Reading the array at an address. Each name of the notebook holds arrays of one kind;
  an array of another kind at the address raises.
\<close>

definition read_floats :: "notebook \<Rightarrow> addr \<Rightarrow> py_error + npfloat list" where
  "read_floats s p = (case heap s p of Some (Floats xs) \<Rightarrow> Inr xs | _ \<Rightarrow> Inl TypeError)"

definition read_ints :: "notebook \<Rightarrow> addr \<Rightarrow> py_error + int list" where
  "read_ints s p = (case heap s p of Some (Ints xs) \<Rightarrow> Inr xs | _ \<Rightarrow> Inl TypeError)"

definition read_bools :: "notebook \<Rightarrow> addr \<Rightarrow> py_error + bool list" where
  "read_bools s p = (case heap s p of Some (Bools xs) \<Rightarrow> Inr xs | _ \<Rightarrow> Inl TypeError)"

definition read_floats2 :: "notebook \<Rightarrow> addr \<Rightarrow> py_error + npfloat list list" where
  "read_floats2 s p = (case heap s p of Some (Floats2 xs) \<Rightarrow> Inr xs | _ \<Rightarrow> Inl TypeError)"

definition var_addr :: "notebook \<Rightarrow> string \<Rightarrow> py_error + addr" where
  "var_addr s name = lookup name (globals s name)"

text \<open>
  \<^verbatim>\<open>name[i] = v\<close> and \<^verbatim>\<open>name[j,i] = v\<close>: the store goes to the array the name is bound to,
  in place.
\<close>

definition store_float :: "string \<Rightarrow> nat \<Rightarrow> npfloat \<Rightarrow> notebook \<Rightarrow> py_error + notebook" where
  "store_float name i v s =
     then_do (var_addr s name) (\<lambda>p.
     then_do (read_floats s p) (\<lambda>a.
     then_do (np_set a i v) (\<lambda>a'.
       Inr (s\<lparr>heap := (heap s)(p \<mapsto> Floats a')\<rparr>))))"

definition store_float2 :: "string \<Rightarrow> nat \<Rightarrow> nat \<Rightarrow> npfloat \<Rightarrow> notebook \<Rightarrow> py_error + notebook" where
  "store_float2 name j i v s =
     then_do (var_addr s name) (\<lambda>p.
     then_do (read_floats2 s p) (\<lambda>a.
     then_do (np_set2 a j i v) (\<lambda>a'.
       Inr (s\<lparr>heap := (heap s)(p \<mapsto> Floats2 a')\<rparr>))))"

text \<open>
  Cell 37. The names \<^verbatim>\<open>direction\<close> and \<^verbatim>\<open>temporal_frequency\<close> are bound to the columns
  themselves. The body of the loop reads the trace and the columns from memory each time
  round and stores through the name \<^verbatim>\<open>trial_response\<close>; a slice of the trace is a view
  that is only read.
\<close>

definition trial_response_body_mem :: "nat \<Rightarrow> notebook \<Rightarrow> py_error + notebook" where
  "trial_response_body_mem i s =
     then_do (read_floats s (a_dff_trace s)) (\<lambda>dff_trace.
     then_do (read_ints s (a_start s)) (\<lambda>starts.
     then_do (read_ints s (a_end s)) (\<lambda>ends.
       if i < length starts \<and> i < length ends
       then store_float ''trial_response'' i
              (np_mean (py_slice dff_trace (starts ! i) (ends ! i))) s
       else Inl KeyError)))"

fun trial_response_loop_mem :: "nat list \<Rightarrow> notebook \<Rightarrow> py_error + notebook" where
  "trial_response_loop_mem [] s = Inr s"
| "trial_response_loop_mem (i # is) s =
     (case trial_response_body_mem i s of
        Inl e \<Rightarrow> Inl e
      | Inr s' \<Rightarrow> trial_response_loop_mem is s')"

definition cell_37_mem :: "notebook \<Rightarrow> py_error + notebook" where
  "cell_37_mem s =
     (let s1 = assign_view ''direction'' (a_orientation s) s;
          s2 = assign_view ''temporal_frequency'' (a_temporal_frequency s1) s1
      in then_do (read_ints s2 (a_start s2)) (\<lambda>starts.
           trial_response_loop_mem [0..<length starts]
             (assign_new ''trial_response'' (Floats (np_zeros (length starts))) s2)))"

text \<open>
  \<^verbatim>\<open>trials = <boolean array>\<close> followed by \<^verbatim>\<open>trial_response[trials].mean()\<close>, the two steps
  that cells 45, 52 and 71 share: the boolean array is a new array bound to \<^verbatim>\<open>trials\<close>, the
  selection is a copy that is averaged and dropped.
\<close>

definition select_trials_mem :: "bool list \<Rightarrow> notebook \<Rightarrow> py_error + npfloat \<times> notebook" where
  "select_trials_mem m s =
     (let s1 = assign_new ''trials'' (Bools m) s in
      then_do (var_addr s1 ''trial_response'') (\<lambda>rp.
      then_do (read_floats s1 rp) (\<lambda>resp.
      then_do (var_addr s1 ''trials'') (\<lambda>tp.
      then_do (read_bools s1 tp) (\<lambda>trials.
      then_do (bool_index resp trials) (\<lambda>sel.
        Inr (np_mean sel, s1)))))))"

definition direction_average_mem :: "npfloat \<Rightarrow> notebook \<Rightarrow> py_error + npfloat \<times> notebook" where
  "direction_average_mem d s =
     then_do (var_addr s ''direction'') (\<lambda>dp.
     then_do (read_floats s dp) (\<lambda>dir.
       select_trials_mem (np_eq dir d) s))"

definition cell_45_mem :: "notebook \<Rightarrow> py_error + notebook" where
  "cell_45_mem s = then_do (direction_average_mem (Fin 270) s) (\<lambda>r. Inr (snd r))"

definition cell_47_mem :: "notebook \<Rightarrow> py_error + notebook" where
  "cell_47_mem s =
     then_do (var_addr s ''direction'') (\<lambda>dp.
     then_do (read_floats s dp) (\<lambda>dir.
     let s1 = assign_new ''all_dir'' (Floats (np_unique dir)) s in
     then_do (var_addr s1 ''all_dir'') (\<lambda>ap.
     then_do (read_floats s1 ap) (\<lambda>all_dir.
       Inr (assign_new ''dirvals'' (Floats (filter isfinite all_dir)) s1)))))"

text \<open>
  Cell 52. \<^verbatim>\<open>enumerate(dirvals)\<close> evaluates the name once and then asks the array at that
  address for one element after the other, until the index is past its end.
\<close>

definition tuning_body_mem :: "nat \<Rightarrow> npfloat \<Rightarrow> notebook \<Rightarrow> py_error + notebook" where
  "tuning_body_mem i d s =
     then_do (direction_average_mem d s) (\<lambda>r. store_float ''tuning'' i (fst r) (snd r))"

fun tuning_loop_mem :: "addr \<Rightarrow> nat list \<Rightarrow> notebook \<Rightarrow> py_error + notebook" where
  "tuning_loop_mem it [] s = Inr s"
| "tuning_loop_mem it (i # is) s =
     (case read_floats s it of
        Inl e \<Rightarrow> Inl e
      | Inr dv \<Rightarrow>
          if i < length dv
          then (case tuning_body_mem i (dv ! i) s of
                  Inl e \<Rightarrow> Inl e
                | Inr s' \<Rightarrow> tuning_loop_mem it is s')
          else Inr s)"

definition cell_52_mem :: "(nat \<Rightarrow> npfloat) \<Rightarrow> notebook \<Rightarrow> py_error + notebook" where
  "cell_52_mem g s =
     (let s1 = assign_new ''tuning'' (Floats (np_empty g 8)) s in
      then_do (var_addr s1 ''dirvals'') (\<lambda>it.
      then_do (read_floats s1 it) (\<lambda>dv.
        tuning_loop_mem it [0..<length dv] s1)))"

text \<open>
  Cell 71. The inner \<^verbatim>\<open>enumerate(dirvals)\<close> evaluates the name anew in each pass of the
  outer loop.
\<close>

definition tuning_array_body_mem ::
  "nat \<Rightarrow> npfloat \<Rightarrow> nat \<Rightarrow> npfloat \<Rightarrow> notebook \<Rightarrow> py_error + notebook" where
  "tuning_array_body_mem i tf j d s =
     then_do (var_addr s ''temporal_frequency'') (\<lambda>tp.
     then_do (read_floats s tp) (\<lambda>tfa.
     then_do (var_addr s ''direction'') (\<lambda>dp.
     then_do (read_floats s dp) (\<lambda>dir.
     then_do (np_and (np_eq tfa tf) (np_eq dir d)) (\<lambda>m.
     then_do (select_trials_mem m s) (\<lambda>r.
       store_float2 ''tuning_array'' j i (fst r) (snd r)))))))"

fun tuning_array_inner_mem ::
  "nat \<Rightarrow> npfloat \<Rightarrow> addr \<Rightarrow> nat list \<Rightarrow> notebook \<Rightarrow> py_error + notebook" where
  "tuning_array_inner_mem i tf it [] s = Inr s"
| "tuning_array_inner_mem i tf it (j # js) s =
     (case read_floats s it of
        Inl e \<Rightarrow> Inl e
      | Inr dv \<Rightarrow>
          if j < length dv
          then (case tuning_array_body_mem i tf j (dv ! j) s of
                  Inl e \<Rightarrow> Inl e
                | Inr s' \<Rightarrow> tuning_array_inner_mem i tf it js s')
          else Inr s)"

definition tuning_array_inner_start :: "nat \<Rightarrow> npfloat \<Rightarrow> notebook \<Rightarrow> py_error + notebook" where
  "tuning_array_inner_start i tf s =
     then_do (var_addr s ''dirvals'') (\<lambda>it.
     then_do (read_floats s it) (\<lambda>dv.
       tuning_array_inner_mem i tf it [0..<length dv] s))"

fun tuning_array_outer_mem :: "addr \<Rightarrow> nat list \<Rightarrow> notebook \<Rightarrow> py_error + notebook" where
  "tuning_array_outer_mem it [] s = Inr s"
| "tuning_array_outer_mem it (i # is) s =
     (case read_floats s it of
        Inl e \<Rightarrow> Inl e
      | Inr tfv \<Rightarrow>
          if i < length tfv
          then (case tuning_array_inner_start i (tfv ! i) s of
                  Inl e \<Rightarrow> Inl e
                | Inr s' \<Rightarrow> tuning_array_outer_mem it is s')
          else Inr s)"

definition cell_71_mem :: "(nat \<Rightarrow> nat \<Rightarrow> npfloat) \<Rightarrow> notebook \<Rightarrow> py_error + notebook" where
  "cell_71_mem g s =
     (let s1 = assign_new ''tuning_array'' (Floats2 (np_empty2 g 8 5)) s in
      then_do (var_addr s1 ''tfvals'') (\<lambda>it.
      then_do (read_floats s1 it) (\<lambda>tfv.
        tuning_array_outer_mem it [0..<length tfv] s1)))"

definition cell_80_mem :: "notebook \<Rightarrow> py_error + notebook" where
  "cell_80_mem s =
     then_do (var_addr s ''tuning_array'') (\<lambda>p.
     then_do (read_floats2 s p) (\<lambda>a.
       Inr (assign_new ''tuning_array_z'' (Floats2 (tuning_array_z_of a)) s)))"

fun run_cells_mem :: "(notebook \<Rightarrow> py_error + notebook) list \<Rightarrow> notebook \<Rightarrow> py_error + notebook" where
  "run_cells_mem [] s = Inr s"
| "run_cells_mem (c # cs) s = (case c s of Inl e \<Rightarrow> Inl e | Inr s' \<Rightarrow> run_cells_mem cs s')"

definition aggregation_cells_mem ::
  "(nat \<Rightarrow> npfloat) \<Rightarrow> (nat \<Rightarrow> nat \<Rightarrow> npfloat) \<Rightarrow> (notebook \<Rightarrow> py_error + notebook) list" where
  "aggregation_cells_mem g g2 =
     [cell_37_mem, cell_45_mem, cell_47_mem, cell_52_mem g, cell_71_mem g2, cell_80_mem]"

text \<open>
  The addresses of the inputs, and what a run may do to memory for the frame property:
  \<open>unchanged_below b s s'\<close> says that from \<open>s\<close> to \<open>s'\<close> no array at an address below \<open>b\<close>
  has changed, that the next free address has not gone down and that the inputs are
  where they were. A name is a fresh variable for \<open>b\<close> if it is bound to an address from
  \<open>b\<close> on.
\<close>

definition inputs_of :: "notebook \<Rightarrow> addr list" where
  "inputs_of s =
     [a_dff_trace s, a_start s, a_end s, a_orientation s, a_temporal_frequency s,
      a_blank_sweep s]"

definition unchanged_below :: "addr \<Rightarrow> notebook \<Rightarrow> notebook \<Rightarrow> bool" where
  "unchanged_below b s s' \<longleftrightarrow>
     (\<forall>p<b. heap s' p = heap s p) \<and> next_addr s \<le> next_addr s' \<and> inputs_of s' = inputs_of s"

definition fresh_var :: "addr \<Rightarrow> string \<Rightarrow> notebook \<Rightarrow> bool" where
  "fresh_var b name s \<longleftrightarrow>
     (case globals s name of None \<Rightarrow> False | Some p \<Rightarrow> b \<le> p) \<and> b \<le> next_addr s"

text \<open>
  The memory after the data were loaded: the trace at address 0, the columns \<^verbatim>\<open>start\<close>,
  \<^verbatim>\<open>end\<close>, \<^verbatim>\<open>orientation\<close>, \<^verbatim>\<open>temporal_frequency\<close> and \<^verbatim>\<open>blank_sweep\<close> at the addresses 1
  to 5, and no other name bound.
\<close>

definition load_notebook :: "npfloat list \<Rightarrow> stim_row list \<Rightarrow> notebook" where
  "load_notebook dff_trace stim_table =
     \<lparr>heap = [0 \<mapsto> Floats dff_trace,
              1 \<mapsto> Ints (map start stim_table),
              2 \<mapsto> Ints (map end_frame stim_table),
              3 \<mapsto> Floats (map orientation stim_table),
              4 \<mapsto> Floats (map temporal_frequency stim_table),
              5 \<mapsto> Floats (map blank_sweep stim_table)],
      next_addr = 6,
      globals = Map.empty,
      a_dff_trace = 0, a_start = 1, a_end = 2, a_orientation = 3,
      a_temporal_frequency = 4, a_blank_sweep = 5\<rparr>"

subsection \<open>The functions as a view of the memory\<close>

text \<open>
  The state of the functional reading that a state of the memory stands for: each name
  with the array at its address, the table put together from its columns.
\<close>

definition floats_of :: "notebook \<Rightarrow> string \<Rightarrow> npfloat list option" where
  "floats_of s name =
     (case globals s name of
        None \<Rightarrow> None
      | Some p \<Rightarrow> (case heap s p of Some (Floats xs) \<Rightarrow> Some xs | _ \<Rightarrow> None))"

definition floats2_of :: "notebook \<Rightarrow> string \<Rightarrow> npfloat list list option" where
  "floats2_of s name =
     (case globals s name of
        None \<Rightarrow> None
      | Some p \<Rightarrow> (case heap s p of Some (Floats2 xs) \<Rightarrow> Some xs | _ \<Rightarrow> None))"

definition column_floats :: "notebook \<Rightarrow> addr \<Rightarrow> npfloat list" where
  "column_floats s p = (case heap s p of Some (Floats xs) \<Rightarrow> xs | _ \<Rightarrow> [])"

definition column_ints :: "notebook \<Rightarrow> addr \<Rightarrow> int list" where
  "column_ints s p = (case heap s p of Some (Ints xs) \<Rightarrow> xs | _ \<Rightarrow> [])"

definition stim_table_of :: "notebook \<Rightarrow> stim_row list" where
  "stim_table_of s =
     map (\<lambda>k. \<lparr>start = column_ints s (a_start s) ! k,
               end_frame = column_ints s (a_end s) ! k,
               orientation = column_floats s (a_orientation s) ! k,
               temporal_frequency = column_floats s (a_temporal_frequency s) ! k,
               blank_sweep = column_floats s (a_blank_sweep s) ! k\<rparr>)
       [0..<length (column_ints s (a_start s))]"

definition nb_state_of :: "notebook \<Rightarrow> nb_state" where
  "nb_state_of s =
     \<lparr>g_dff_trace = column_floats s (a_dff_trace s),
      g_stim_table = stim_table_of s,
      g_direction = floats_of s ''direction'',
      g_temporal_frequency = floats_of s ''temporal_frequency'',
      g_trial_response = floats_of s ''trial_response'',
      g_all_dir = floats_of s ''all_dir'',
      g_dirvals = floats_of s ''dirvals'',
      g_tfvals = floats_of s ''tfvals'',
      g_tuning = floats_of s ''tuning'',
      g_tuning_array = floats2_of s ''tuning_array'',
      g_tuning_array_z = floats2_of s ''tuning_array_z''\<rparr>"

text \<open>
  The states of the memory that the notebook can be in: the inputs are arrays of their
  kinds at allocated addresses, the columns as long as each other, and every name that is
  bound is bound to an allocated array of the kind its cell assigns.
\<close>

definition is_floats :: "notebook \<Rightarrow> addr \<Rightarrow> bool" where
  "is_floats s p = (case heap s p of Some (Floats xs) \<Rightarrow> True | _ \<Rightarrow> False)"

definition is_floats2 :: "notebook \<Rightarrow> addr \<Rightarrow> bool" where
  "is_floats2 s p = (case heap s p of Some (Floats2 xs) \<Rightarrow> True | _ \<Rightarrow> False)"

definition is_ints :: "notebook \<Rightarrow> addr \<Rightarrow> bool" where
  "is_ints s p = (case heap s p of Some (Ints xs) \<Rightarrow> True | _ \<Rightarrow> False)"

definition floats_var :: "addr \<Rightarrow> notebook \<Rightarrow> string \<Rightarrow> bool" where
  "floats_var b s name =
     (case globals s name of None \<Rightarrow> True | Some p \<Rightarrow> p < b \<and> is_floats s p)"

definition floats2_var :: "addr \<Rightarrow> notebook \<Rightarrow> string \<Rightarrow> bool" where
  "floats2_var b s name =
     (case globals s name of None \<Rightarrow> True | Some p \<Rightarrow> p < b \<and> is_floats2 s p)"

definition float_names :: "string list" where
  "float_names =
     [''direction'', ''temporal_frequency'', ''trial_response'', ''all_dir'', ''dirvals'',
      ''tfvals'', ''tuning'']"

definition float2_names :: "string list" where
  "float2_names = [''tuning_array'', ''tuning_array_z'']"

definition inputs_ok :: "addr \<Rightarrow> notebook \<Rightarrow> bool" where
  "inputs_ok b s \<longleftrightarrow>
     (\<forall>p\<in>set (inputs_of s). p < b) \<and>
     is_floats s (a_dff_trace s) \<and> is_ints s (a_start s) \<and> is_ints s (a_end s) \<and>
     is_floats s (a_orientation s) \<and> is_floats s (a_temporal_frequency s) \<and>
     is_floats s (a_blank_sweep s) \<and>
     length (column_ints s (a_end s)) = length (column_ints s (a_start s)) \<and>
     length (column_floats s (a_orientation s)) = length (column_ints s (a_start s)) \<and>
     length (column_floats s (a_temporal_frequency s)) = length (column_ints s (a_start s)) \<and>
     length (column_floats s (a_blank_sweep s)) = length (column_ints s (a_start s))"

definition vars_ok :: "addr \<Rightarrow> notebook \<Rightarrow> bool" where
  "vars_ok b s \<longleftrightarrow>
     (\<forall>name\<in>set float_names. floats_var b s name) \<and>
     (\<forall>name\<in>set float2_names. floats2_var b s name)"

definition well_formed :: "notebook \<Rightarrow> bool" where
  "well_formed s \<longleftrightarrow> inputs_ok (next_addr s) s \<and> vars_ok (next_addr s) s"

text \<open>
  A cell in memory simulates a function on states if, from a state of the memory, it
  raises what the function raises on the state this stands for, or ends in a state that
  stands for the state the function returns.
\<close>

definition simulates ::
  "(notebook \<Rightarrow> py_error + notebook) \<Rightarrow> (nb_state \<Rightarrow> py_error + nb_state) \<Rightarrow> notebook \<Rightarrow> bool" where
  "simulates c_mem c s \<longleftrightarrow>
     (case c_mem s of
        Inl e \<Rightarrow> c (nb_state_of s) = Inl e
      | Inr s' \<Rightarrow> c (nb_state_of s) = Inr (nb_state_of s') \<and> well_formed s')"

text \<open>The cells in memory, each with the function it simulates.\<close>

definition cell_pairs ::
  "(nat \<Rightarrow> npfloat) \<Rightarrow> (nat \<Rightarrow> nat \<Rightarrow> npfloat) \<Rightarrow>
   ((notebook \<Rightarrow> py_error + notebook) \<times> (nb_state \<Rightarrow> py_error + nb_state)) list" where
  "cell_pairs g g2 = zip (aggregation_cells_mem g g2) (aggregation_cells g g2)"

text \<open>
  The state after the body of a loop of cell 52 or 71: a new boolean array bound to
  \<^verbatim>\<open>trials\<close> and the array at \<open>tp\<close> replaced by \<open>x\<close>.
\<close>

definition after_store :: "bool list \<Rightarrow> addr \<Rightarrow> array \<Rightarrow> notebook \<Rightarrow> notebook" where
  "after_store m tp x s =
     (assign_new ''trials'' (Bools m) s)
       \<lparr>heap := (heap (assign_new ''trials'' (Bools m) s))(tp \<mapsto> x)\<rparr>"

subsection \<open>The trials of a condition\<close>

text \<open>
  The positions of the trials whose direction compares equal to \<open>d\<close>, and of those whose
  temporal frequency and direction compare equal to \<open>tf\<close> and \<open>d\<close>, in the order of the
  table; and the mean response over them.
\<close>

definition trials_of_direction :: "npfloat list \<Rightarrow> npfloat \<Rightarrow> nat list" where
  "trials_of_direction direction d =
     filter (\<lambda>k. fl_eq (direction ! k) d) [0..<length direction]"

definition trials_of_condition :: "npfloat list \<Rightarrow> npfloat list \<Rightarrow> npfloat \<Rightarrow> npfloat \<Rightarrow> nat list" where
  "trials_of_condition temporal_freq direction tf d =
     filter (\<lambda>k. fl_eq (temporal_freq ! k) tf \<and> fl_eq (direction ! k) d)
       [0..<length direction]"

definition direction_mean :: "npfloat list \<Rightarrow> npfloat list \<Rightarrow> npfloat \<Rightarrow> npfloat" where
  "direction_mean direction trial_response d =
     np_mean (map (\<lambda>k. trial_response ! k) (trials_of_direction direction d))"

definition condition_mean :: "npfloat list \<Rightarrow> npfloat list \<Rightarrow> npfloat list \<Rightarrow> npfloat \<Rightarrow> npfloat \<Rightarrow> npfloat" where
  "condition_mean temporal_freq direction trial_response tf d =
     np_mean (map (\<lambda>k. trial_response ! k) (trials_of_condition temporal_freq direction tf d))"

text \<open>The mean squared deviation of real numbers from their mean.\<close>

definition variance :: "real list \<Rightarrow> real" where
  "variance rs =
     sum_list (map (\<lambda>r. (r - sum_list rs / real (length rs)) * (r - sum_list rs / real (length rs))) rs)
       / real (length rs)"

text \<open>
  A two-dimensional array with some entries replaced: entry \<open>(j, i)\<close> becomes \<open>v\<close> where
  \<open>f j i = Some v\<close> and stays where \<open>f j i = None\<close>.
\<close>

definition overwrite :: "npfloat list list \<Rightarrow> (nat \<Rightarrow> nat \<Rightarrow> npfloat option) \<Rightarrow> npfloat list list" where
  "overwrite a f =
     map (\<lambda>j. map (\<lambda>i. case f j i of None \<Rightarrow> a ! j ! i | Some v \<Rightarrow> v) [0..<length (a ! j)])
       [0..<length a]"

subsection \<open>Example data\<close>

text \<open>
  A trace of five samples and a table of four trials: two at direction 0, one at
  direction 270 and a blank sweep, whose direction and temporal frequency are NaN.
\<close>

definition ex_trace :: "npfloat list" where
  "ex_trace = [Fin 1, Fin 2, Fin 4, Fin 8, Fin 16]"

definition ex_row :: "int \<Rightarrow> int \<Rightarrow> npfloat \<Rightarrow> npfloat \<Rightarrow> npfloat \<Rightarrow> stim_row" where
  "ex_row s e d tf b =
     \<lparr>start = s, end_frame = e, orientation = d, temporal_frequency = tf, blank_sweep = b\<rparr>"

definition ex_table :: "stim_row list" where
  "ex_table =
     [ex_row 1 3 (Fin 0) (Fin 1) (Fin 0),
      ex_row 3 5 NaN NaN (Fin 1),
      ex_row 0 2 (Fin 270) (Fin 1) (Fin 0),
      ex_row 2 4 (Fin 0) (Fin 1) (Fin 0)]"

text \<open>
  The state after loading the example data, with \<^verbatim>\<open>tfvals\<close> bound as if a cell had
  assigned the finite unique temporal frequencies.
\<close>

definition ex_state :: nb_state where
  "ex_state = (init_state ex_trace ex_table)\<lparr>g_tfvals := Some [Fin 1]\<rparr>"

text \<open>Uninitialised memory that happens to hold NaN everywhere.\<close>

definition nan_memory :: "nat \<Rightarrow> npfloat" where
  "nan_memory i = NaN"

definition nan_memory2 :: "nat \<Rightarrow> nat \<Rightarrow> npfloat" where
  "nan_memory2 j i = NaN"

text \<open>Uninitialised memory that happens to hold 1000 everywhere.\<close>

definition stale_memory2 :: "nat \<Rightarrow> nat \<Rightarrow> npfloat" where
  "stale_memory2 j i = Fin 1000"

text \<open>
  A table of nine trials with nine directions, \<open>0, 45, ..., 360\<close>, at the temporal
  frequencies 1 and 2 in turn.
\<close>

definition nine_table :: "stim_row list" where
  "nine_table =
     [ex_row 0 1 (Fin 0) (Fin 1) (Fin 0),
      ex_row 1 2 (Fin 45) (Fin 2) (Fin 0),
      ex_row 2 3 (Fin 90) (Fin 1) (Fin 0),
      ex_row 3 4 (Fin 135) (Fin 2) (Fin 0),
      ex_row 4 5 (Fin 180) (Fin 1) (Fin 0),
      ex_row 0 1 (Fin 225) (Fin 2) (Fin 0),
      ex_row 1 2 (Fin 270) (Fin 1) (Fin 0),
      ex_row 2 3 (Fin 315) (Fin 2) (Fin 0),
      ex_row 3 4 (Fin 360) (Fin 1) (Fin 0)]"

text \<open>
  The example data in memory, with \<^verbatim>\<open>tfvals\<close> bound to a new array, at address 6, as if a
  cell had assigned it.
\<close>

definition ex_notebook :: notebook where
  "ex_notebook = assign_new ''tfvals'' (Floats [Fin 1]) (load_notebook ex_trace ex_table)"

section \<open>Properties\<close>

subsection \<open>Means and slices\<close>

lemma np_mean_Nil: "np_mean [] = NaN"
  by (simp add: np_mean_def np_sum_def inf_of_sign_def)

lemma np_mean_2: "np_mean [Fin a, Fin b] = Fin ((a + b) / 2)"
  by (simp add: np_mean_def np_sum_def)

lemma take_drop_nth_upt:
  "l \<le> length xs \<Longrightarrow> h \<le> length xs \<Longrightarrow> take (h - l) (drop l xs) = map (\<lambda>k. xs ! k) [l..<h]"
proof (rule nth_equalityI)
  assume "l \<le> length xs" "h \<le> length xs"
  then show "length (take (h - l) (drop l xs)) = length (map (\<lambda>k. xs ! k) [l..<h])"
    by simp
next
  fix i
  assume "l \<le> length xs" "h \<le> length xs" and "i < length (take (h - l) (drop l xs))"
  then have "i < h - l" by simp
  then show "take (h - l) (drop l xs) ! i = map (\<lambda>k. xs ! k) [l..<h] ! i"
    using \<open>l \<le> length xs\<close> by simp
qed

lemma py_slice_nonneg:
  assumes "0 \<le> lo" and "0 \<le> hi"
  shows "py_slice xs lo hi = map (\<lambda>k. xs ! k) [nat lo..<min (nat hi) (length xs)]"
proof -
  let ?n = "length xs"
  have l: "slice_bound ?n lo = min ?n (nat lo)"
    using assms by (simp add: slice_bound_def)
  have h: "slice_bound ?n hi = min ?n (nat hi)"
    using assms by (simp add: slice_bound_def)
  have "py_slice xs lo hi = map (\<lambda>k. xs ! k) [min ?n (nat lo)..<min ?n (nat hi)]"
    unfolding py_slice_def Let_def l h by (rule take_drop_nth_upt) simp_all
  also have "[min ?n (nat lo)..<min ?n (nat hi)] = [nat lo..<min (nat hi) ?n]"
  proof (cases "nat lo \<le> ?n")
    case True
    then show ?thesis by (simp add: min.commute min_absorb2)
  next
    case False
    then show ?thesis by simp
  qed
  finally show ?thesis .
qed

subsection \<open>The trial-response loop\<close>

lemma length_trial_response_loop:
  "length (trial_response_loop dff_trace stim_table is tr) = length tr"
  by (induction "is" arbitrary: tr) simp_all

lemma nth_trial_response_loop:
  "i < length tr \<Longrightarrow>
   trial_response_loop dff_trace stim_table is tr ! i =
     (if i \<in> set is
      then np_mean (py_slice dff_trace (start (stim_table ! i)) (end_frame (stim_table ! i)))
      else tr ! i)"
proof (induction "is" arbitrary: tr)
  case Nil
  then show ?case by simp
next
  case (Cons j js)
  then show ?case by (simp add: nth_list_update)
qed

lemma length_trial_response_of:
  "length (trial_response_of dff_trace stim_table) = length stim_table"
  by (simp add: trial_response_of_def length_trial_response_loop np_zeros_def)

lemma nth_trial_response_of:
  "i < length stim_table \<Longrightarrow>
   trial_response_of dff_trace stim_table ! i =
     np_mean (py_slice dff_trace (start (stim_table ! i)) (end_frame (stim_table ! i)))"
  by (simp add: trial_response_of_def nth_trial_response_loop np_zeros_def)

text \<open>
  C1. The loop fills every entry of \<^verbatim>\<open>trial_response\<close>, one per row of the stimulus
  table, and entry \<open>i\<close> is the mean of the slice of the trace from \<open>start[i]\<close> to
  \<open>end[i]\<close>. For frame numbers, which are not negative, that slice holds the samples at the
  indices \<open>start[i], ..., end[i] - 1\<close> that the trace has: the sample at \<open>end[i]\<close> is left
  out.
\<close>

theorem trial_response_mean:
  "length (trial_response_of dff_trace stim_table) = length stim_table \<and>
   (\<forall>i<length stim_table.
      trial_response_of dff_trace stim_table ! i =
        np_mean (py_slice dff_trace (start (stim_table ! i)) (end_frame (stim_table ! i)))) \<and>
   (\<forall>i<length stim_table.
      0 \<le> start (stim_table ! i) \<and> 0 \<le> end_frame (stim_table ! i) \<longrightarrow>
      py_slice dff_trace (start (stim_table ! i)) (end_frame (stim_table ! i)) =
        map (\<lambda>k. dff_trace ! k)
          [nat (start (stim_table ! i))..<min (nat (end_frame (stim_table ! i))) (length dff_trace)])"
  by (simp add: length_trial_response_of nth_trial_response_of py_slice_nonneg del: upt.simps)

theorem trial_response_mean_witness:
  "length (trial_response_of ex_trace ex_table) = 4 \<and>
   trial_response_of ex_trace ex_table ! 0 = Fin 3 \<and>
   py_slice ex_trace 1 3 = [ex_trace ! 1, ex_trace ! 2]"
proof -
  have r0: "ex_table ! 0 = ex_row 1 3 (Fin 0) (Fin 1) (Fin 0)" and len: "length ex_table = 4"
    by (simp_all add: ex_table_def)
  note C1 = trial_response_mean [of ex_trace ex_table]
  have "length (trial_response_of ex_trace ex_table) = 4"
    using C1 [THEN conjunct1] len by simp
  moreover have "trial_response_of ex_trace ex_table ! 0 = np_mean (py_slice ex_trace 1 3)"
    using C1 [THEN conjunct2, THEN conjunct1, rule_format, of 0] len r0
    by (simp add: ex_row_def)
  moreover have "py_slice ex_trace 1 3 =
      map (\<lambda>k. ex_trace ! k) [nat 1..<min (nat 3) (length ex_trace)]"
    using C1 [THEN conjunct2, THEN conjunct2, rule_format, of 0] len r0
    by (simp add: ex_row_def del: upt.simps)
  moreover have "[nat 1..<min (nat 3) (length ex_trace)] = [1, 2]"
    by (simp add: ex_trace_def upt_rec)
  moreover have "np_mean [ex_trace ! 1, ex_trace ! 2] = Fin 3"
    by (simp add: ex_trace_def np_mean_2)
  ultimately show ?thesis by simp
qed

subsection \<open>Errors, lookups and boolean indexing\<close>

lemma then_do_Inr [simp]: "then_do (Inr x) f = f x"
  by (simp add: then_do_def)

lemma then_do_Inl [simp]: "then_do (Inl e) f = Inl e"
  by (simp add: then_do_def)

lemma lookup_Some [simp]: "lookup name (Some x) = Inr x"
  by (simp add: lookup_def)

lemma lookup_None [simp]: "lookup name None = Inl (NameError name)"
  by (simp add: lookup_def)

lemma zip_as_map_nth:
  "length xs = length bs \<Longrightarrow> zip xs bs = map (\<lambda>k. (xs ! k, bs ! k)) [0..<length xs]"
  by (rule nth_equalityI) simp_all

lemma bool_index_nth:
  assumes "length bs = length xs"
  shows "bool_index xs bs = Inr (map (\<lambda>k. xs ! k) (filter (\<lambda>k. bs ! k) [0..<length xs]))"
proof -
  have "map fst (filter snd (zip xs bs)) = map (\<lambda>k. xs ! k) (filter (\<lambda>k. bs ! k) [0..<length xs])"
    using assms by (simp add: zip_as_map_nth filter_map comp_def)
  then show ?thesis using assms by (simp add: bool_index_def)
qed

subsection \<open>The tuning-curve loop\<close>

lemma direction_average_Some:
  assumes "length direction = length trial_response"
  shows "direction_average (Some direction) (Some trial_response) d =
         Inr (direction_mean direction trial_response d)"
proof -
  have "filter (\<lambda>k. np_eq direction d ! k) [0..<length trial_response] =
        trials_of_direction direction d"
    unfolding trials_of_direction_def using assms
    by (auto simp: np_eq_def intro: filter_cong)
  then show ?thesis
    using assms
    by (simp add: direction_average_def bool_index_nth np_eq_def direction_mean_def Let_def)
qed

lemma tuning_body_Some:
  assumes "length direction = length trial_response"
  shows "tuning_body (Some direction) (Some trial_response) i d tuning =
         np_set tuning i (direction_mean direction trial_response d)"
proof -
  have "filter (\<lambda>k. np_eq direction d ! k) [0..<length trial_response] =
        trials_of_direction direction d"
    unfolding trials_of_direction_def using assms
    by (auto simp: np_eq_def intro: filter_cong)
  then show ?thesis
    using assms
    by (simp add: tuning_body_def bool_index_nth np_eq_def direction_mean_def Let_def)
qed

lemma tuning_loop_from:
  assumes "length direction = length trial_response" and "k \<le> length tuning"
  shows "tuning_loop (Some direction) (Some trial_response) (zip [k..<k + length ds] ds) tuning =
     (if k + length ds \<le> length tuning
      then Inr (take k tuning @
                map (\<lambda>d. direction_mean direction trial_response d) ds @
                drop (k + length ds) tuning)
      else Inl IndexError)"
  using assms(2)
proof (induction ds arbitrary: k tuning)
  case Nil
  then show ?case by simp
next
  case (Cons d ds)
  let ?v = "direction_mean direction trial_response d"
  have "[k..<k + length (d # ds)] = k # [Suc k..<Suc k + length ds]"
    by (subst upt_rec) simp
  then have z: "zip [k..<k + length (d # ds)] (d # ds) = (k, d) # zip [Suc k..<Suc k + length ds] ds"
    by simp
  show ?case
  proof (cases "k < length tuning")
    case True
    have body: "tuning_body (Some direction) (Some trial_response) k d tuning = Inr (tuning[k := ?v])"
      using True assms(1) by (simp add: tuning_body_Some np_set_def)
    have "Suc k \<le> length (tuning[k := ?v])" using True by simp
    from Cons.IH [OF this]
    show ?thesis
      unfolding z using True
      by (simp add: body take_Suc_conv_app_nth)
  next
    case False
    have body: "tuning_body (Some direction) (Some trial_response) k d tuning = Inl IndexError"
      using False assms(1) by (simp add: tuning_body_Some np_set_def)
    show ?thesis unfolding z using False by (simp add: body)
  qed
qed

lemma length_np_empty [simp]: "length (np_empty g n) = n"
  by (simp add: np_empty_def)

lemma tuning_of_Some:
  assumes "length direction = length trial_response"
  shows "tuning_of g (Some dirvals) (Some direction) (Some trial_response) =
     (if length dirvals \<le> 8
      then Inr (map (\<lambda>d. direction_mean direction trial_response d) dirvals @
                drop (length dirvals) (np_empty g 8))
      else Inl IndexError)"
  using tuning_loop_from [OF assms, of 0 "np_empty g 8" dirvals]
  by (simp add: tuning_of_def enumerate_list_def del: upt.simps)

subsection \<open>The tuning-array loops\<close>

lemma length_overwrite [simp]: "length (overwrite a f) = length a"
  by (simp add: overwrite_def)

lemma length_nth_overwrite [simp]:
  "j < length a \<Longrightarrow> length (overwrite a f ! j) = length (a ! j)"
  by (simp add: overwrite_def)

lemma nth_overwrite:
  "j < length a \<Longrightarrow> i < length (a ! j) \<Longrightarrow>
   overwrite a f ! j ! i = (case f j i of None \<Rightarrow> a ! j ! i | Some v \<Rightarrow> v)"
  by (simp add: overwrite_def split: option.split)

lemma overwrite_nothing: "overwrite a (\<lambda>j i. None) = a"
proof -
  have "\<And>j. map (\<lambda>i. a ! j ! i) [0..<length (a ! j)] = a ! j"
    by (rule map_nth)
  then show ?thesis
    by (simp add: overwrite_def map_nth)
qed

lemma overwrite_overwrite:
  "overwrite (overwrite a f) h =
   overwrite a (\<lambda>j i. case h j i of None \<Rightarrow> f j i | Some v \<Rightarrow> Some v)"
  unfolding overwrite_def
  by (auto simp: split: option.splits)

lemma np_set2_overwrite:
  assumes "j < length a" and "i < length (a ! j)"
  shows "np_set2 a j i v = Inr (overwrite a (\<lambda>j' i'. if j' = j \<and> i' = i then Some v else None))"
proof -
  have "a[j := (a ! j)[i := v]] = overwrite a (\<lambda>j' i'. if j' = j \<and> i' = i then Some v else None)"
  proof (rule nth_equalityI)
    show "length (a[j := (a ! j)[i := v]]) =
          length (overwrite a (\<lambda>j' i'. if j' = j \<and> i' = i then Some v else None))"
      by simp
  next
    fix j'
    assume "j' < length (a[j := (a ! j)[i := v]])"
    then have j': "j' < length a" by simp
    show "a[j := (a ! j)[i := v]] ! j' =
          overwrite a (\<lambda>j' i'. if j' = j \<and> i' = i then Some v else None) ! j'"
    proof (rule nth_equalityI)
      show "length (a[j := (a ! j)[i := v]] ! j') =
            length (overwrite a (\<lambda>j' i'. if j' = j \<and> i' = i then Some v else None) ! j')"
        using j' by (cases "j' = j") simp_all
    next
      fix i'
      assume "i' < length (a[j := (a ! j)[i := v]] ! j')"
      then have "i' < length (a ! j')" using j' by (cases "j' = j") simp_all
      then show "a[j := (a ! j)[i := v]] ! j' ! i' =
            overwrite a (\<lambda>j' i'. if j' = j \<and> i' = i then Some v else None) ! j' ! i'"
        using j' by (cases "j' = j"; cases "i' = i") (simp_all add: nth_overwrite)
    qed
  qed
  then show ?thesis using assms by (simp add: np_set2_def)
qed

lemma np_set2_out_of_range:
  "\<not> (j < length a \<and> i < length (a ! j)) \<Longrightarrow> np_set2 a j i v = Inl IndexError"
  by (simp add: np_set2_def)

lemma tuning_array_body_Some:
  assumes "length temporal_freq = length trial_response"
      and "length direction = length trial_response"
  shows "tuning_array_body (Some temporal_freq) (Some direction) (Some trial_response) i tf j d a =
         np_set2 a j i (condition_mean temporal_freq direction trial_response tf d)"
proof -
  let ?trials = "map (\<lambda>(x, y). x \<and> y) (zip (np_eq temporal_freq tf) (np_eq direction d))"
  have a: "np_and (np_eq temporal_freq tf) (np_eq direction d) = Inr ?trials"
    using assms by (simp add: np_and_def np_eq_def)
  have l: "length ?trials = length trial_response"
    using assms by (simp add: np_eq_def)
  have "filter (\<lambda>k. ?trials ! k) [0..<length trial_response] =
        trials_of_condition temporal_freq direction tf d"
    unfolding trials_of_condition_def using assms
    by (auto simp: np_eq_def intro: filter_cong)
  then show ?thesis
    unfolding tuning_array_body_def
    by (simp add: a bool_index_nth [OF l] condition_mean_def)
qed

lemma upt_add_Cons: "[k..<k + length (d # ds)] = k # [Suc k..<Suc k + length ds]"
  by (subst upt_rec) simp

lemma tuning_array_inner_from:
  assumes lens: "length temporal_freq = length trial_response"
                "length direction = length trial_response"
      and shape: "length a = R" "\<forall>j<R. length (a ! j) = C"
  shows "tuning_array_inner (Some temporal_freq) (Some direction) (Some trial_response) i tf
           (zip [j0..<j0 + length ds] ds) a =
     (if ds = [] \<or> (i < C \<and> j0 + length ds \<le> R)
      then Inr (overwrite a (\<lambda>j' i'.
             if i' = i \<and> j0 \<le> j' \<and> j' < j0 + length ds
             then Some (condition_mean temporal_freq direction trial_response tf (ds ! (j' - j0)))
             else None))
      else Inl IndexError)"
  using shape
proof (induction ds arbitrary: j0 a)
  case Nil
  have "(\<lambda>j' i'. if i' = i \<and> j0 \<le> j' \<and> j' < j0 + length ([] :: npfloat list)
                   then Some (condition_mean temporal_freq direction trial_response tf
                                ([] ! (j' - j0)))
                   else None) = (\<lambda>j' i'. None)"
    by (auto simp: fun_eq_iff)
  then show ?case by (simp add: overwrite_nothing)
next
  case (Cons d ds)
  let ?e = "condition_mean temporal_freq direction trial_response tf"
  have z: "zip [j0..<j0 + length (d # ds)] (d # ds) = (j0, d) # zip [Suc j0..<Suc j0 + length ds] ds"
    by (simp only: upt_add_Cons zip_Cons_Cons)
  show ?case
  proof (cases "j0 < R \<and> i < C")
    case True
    let ?a1 = "overwrite a (\<lambda>j' i'. if j' = j0 \<and> i' = i then Some (?e d) else None)"
    have body: "tuning_array_body (Some temporal_freq) (Some direction) (Some trial_response)
                  i tf j0 d a = Inr ?a1"
      using True Cons.prems by (simp add: tuning_array_body_Some [OF lens] np_set2_overwrite)
    have s1: "length ?a1 = R" "\<forall>j<R. length (?a1 ! j) = C"
      using Cons.prems by simp_all
    let ?f' = "\<lambda>j' i'. if i' = i \<and> Suc j0 \<le> j' \<and> j' < Suc j0 + length ds
                       then Some (?e (ds ! (j' - Suc j0))) else None"
    let ?F = "\<lambda>j' i'. if i' = i \<and> j0 \<le> j' \<and> j' < j0 + length (d # ds)
                      then Some (?e ((d # ds) ! (j' - j0))) else None"
    have comb: "(\<lambda>j' i'. case ?f' j' i' of
                    None \<Rightarrow> (if j' = j0 \<and> i' = i then Some (?e d) else None)
                  | Some v \<Rightarrow> Some v) = ?F"
      by (auto simp: fun_eq_iff nth_Cons' Suc_diff_Suc)
    have res: "overwrite ?a1 ?f' = overwrite a ?F"
      by (simp only: overwrite_overwrite comb)
    have step: "tuning_array_inner (Some temporal_freq) (Some direction) (Some trial_response) i tf
                 (zip [j0..<j0 + length (d # ds)] (d # ds)) a =
               tuning_array_inner (Some temporal_freq) (Some direction) (Some trial_response) i tf
                 (zip [Suc j0..<Suc j0 + length ds] ds) ?a1"
      unfolding z by (simp add: body del: upt.simps)
    have cond: "(d # ds = [] \<or> (i < C \<and> j0 + length (d # ds) \<le> R)) =
                (ds = [] \<or> (i < C \<and> Suc j0 + length ds \<le> R))"
      using True by auto
    show ?thesis
      by (simp only: step Cons.IH [OF s1, of "Suc j0"] cond res)
  next
    case False
    have body: "tuning_array_body (Some temporal_freq) (Some direction) (Some trial_response)
                  i tf j0 d a = Inl IndexError"
      using False Cons.prems
      by (auto simp: tuning_array_body_Some [OF lens] np_set2_def)
    show ?thesis unfolding z using False by (auto simp: body)
  qed
qed

lemma tuning_array_outer_from:
  assumes lens: "length temporal_freq = length trial_response"
                "length direction = length trial_response"
      and shape: "length a = R" "\<forall>j<R. length (a ! j) = C"
  shows "tuning_array_outer (Some dv) (Some temporal_freq) (Some direction) (Some trial_response)
           (zip [i0..<i0 + length tfs] tfs) a =
     (if tfs = [] \<or> dv = [] \<or> (i0 + length tfs \<le> C \<and> length dv \<le> R)
      then Inr (overwrite a (\<lambda>j' i'.
             if i0 \<le> i' \<and> i' < i0 + length tfs \<and> j' < length dv
             then Some (condition_mean temporal_freq direction trial_response
                          (tfs ! (i' - i0)) (dv ! j'))
             else None))
      else Inl IndexError)"
  using shape
proof (induction tfs arbitrary: i0 a)
  case Nil
  have "(\<lambda>j' i'. if i0 \<le> i' \<and> i' < i0 + length ([] :: npfloat list) \<and> j' < length dv
                   then Some (condition_mean temporal_freq direction trial_response
                                ([] ! (i' - i0)) (dv ! j'))
                   else None) = (\<lambda>j' i'. None)"
    by (auto simp: fun_eq_iff)
  then show ?case by (simp add: overwrite_nothing)
next
  case (Cons tf tfs)
  let ?e = "condition_mean temporal_freq direction trial_response"
  let ?fin = "\<lambda>j' i'. if i' = i0 \<and> 0 \<le> j' \<and> j' < 0 + length dv
                       then Some (?e tf (dv ! (j' - 0))) else None"
  let ?a1 = "overwrite a ?fin"
  have z: "zip [i0..<i0 + length (tf # tfs)] (tf # tfs) =
           (i0, tf) # zip [Suc i0..<Suc i0 + length tfs] tfs"
    by (simp only: upt_add_Cons zip_Cons_Cons)
  have inner: "tuning_array_inner (Some temporal_freq) (Some direction) (Some trial_response)
                 i0 tf (enumerate_list dv) a =
               (if dv = [] \<or> (i0 < C \<and> 0 + length dv \<le> R) then Inr ?a1 else Inl IndexError)"
    using tuning_array_inner_from [OF lens Cons.prems, of i0 tf 0 dv]
    by (simp only: enumerate_list_def add_0)
  show ?case
  proof (cases "dv = [] \<or> (i0 < C \<and> length dv \<le> R)")
    case True
    have s1: "length ?a1 = R" "\<forall>j<R. length (?a1 ! j) = C"
      using Cons.prems by simp_all
    let ?f' = "\<lambda>j' i'. if Suc i0 \<le> i' \<and> i' < Suc i0 + length tfs \<and> j' < length dv
                       then Some (?e (tfs ! (i' - Suc i0)) (dv ! j')) else None"
    let ?F = "\<lambda>j' i'. if i0 \<le> i' \<and> i' < i0 + length (tf # tfs) \<and> j' < length dv
                      then Some (?e ((tf # tfs) ! (i' - i0)) (dv ! j')) else None"
    have comb: "(\<lambda>j' i'. case ?f' j' i' of None \<Rightarrow> ?fin j' i' | Some v \<Rightarrow> Some v) = ?F"
      by (auto simp: fun_eq_iff nth_Cons' Suc_diff_Suc)
    have res: "overwrite ?a1 ?f' = overwrite a ?F"
      by (simp only: overwrite_overwrite comb)
    have step: "tuning_array_outer (Some dv) (Some temporal_freq) (Some direction)
                  (Some trial_response) (zip [i0..<i0 + length (tf # tfs)] (tf # tfs)) a =
                tuning_array_outer (Some dv) (Some temporal_freq) (Some direction)
                  (Some trial_response) (zip [Suc i0..<Suc i0 + length tfs] tfs) ?a1"
      unfolding z using True by (simp add: inner del: upt.simps)
    have cond: "(tf # tfs = [] \<or> dv = [] \<or> (i0 + length (tf # tfs) \<le> C \<and> length dv \<le> R)) =
                (tfs = [] \<or> dv = [] \<or> (Suc i0 + length tfs \<le> C \<and> length dv \<le> R))"
      using True by auto
    show ?thesis
      by (simp only: step Cons.IH [OF s1, of "Suc i0"] cond res)
  next
    case False
    have "tuning_array_inner (Some temporal_freq) (Some direction) (Some trial_response)
            i0 tf (enumerate_list dv) a = Inl IndexError"
      using False by (auto simp: inner)
    then have "tuning_array_outer (Some dv) (Some temporal_freq) (Some direction)
            (Some trial_response) (zip [i0..<i0 + length (tf # tfs)] (tf # tfs)) a = Inl IndexError"
      unfolding z by (simp del: upt.simps)
    moreover have "\<not> (tf # tfs = [] \<or> dv = [] \<or> (i0 + length (tf # tfs) \<le> C \<and> length dv \<le> R))"
      using False by auto
    ultimately show ?thesis by (simp only: if_False)
  qed
qed

lemma length_np_empty2 [simp]: "length (np_empty2 g rows cols) = rows"
  by (simp add: np_empty2_def)

lemma length_nth_np_empty2 [simp]: "j < rows \<Longrightarrow> length (np_empty2 g rows cols ! j) = cols"
  by (simp add: np_empty2_def)

lemma nth_np_empty2 [simp]: "j < rows \<Longrightarrow> i < cols \<Longrightarrow> np_empty2 g rows cols ! j ! i = g j i"
  by (simp add: np_empty2_def)

lemma tuning_array_of_Some:
  assumes "length temporal_freq = length trial_response"
      and "length direction = length trial_response"
  shows "tuning_array_of g (Some tfvals) (Some dirvals) (Some temporal_freq) (Some direction)
           (Some trial_response) =
     (if tfvals = [] \<or> dirvals = [] \<or> (length tfvals \<le> 5 \<and> length dirvals \<le> 8)
      then Inr (overwrite (np_empty2 g 8 5) (\<lambda>j i.
             if i < length tfvals \<and> j < length dirvals
             then Some (condition_mean temporal_freq direction trial_response
                          (tfvals ! i) (dirvals ! j))
             else None))
      else Inl IndexError)"
proof -
  have "\<forall>j<8. length (np_empty2 g 8 5 ! j) = 5" by simp
  from tuning_array_outer_from [OF assms length_np_empty2 this, of dirvals 0 tfvals]
  show ?thesis
    by (simp add: tuning_array_of_def enumerate_list_def cong: if_cong del: upt.simps)
qed

subsection \<open>Iteration counts of the tuning-array loops\<close>

lemma T_tuning_array_inner_le:
  "T_tuning_array_inner temporal_freq direction trial_response i tf ps a \<le> length ps"
  by (induction ps arbitrary: a) (auto split: sum.splits)

lemma T_tuning_array_inner_from:
  assumes lens: "length temporal_freq = length trial_response"
                "length direction = length trial_response"
      and shape: "length a = R" "\<forall>j<R. length (a ! j) = C" and "j0 \<le> R"
  shows "T_tuning_array_inner (Some temporal_freq) (Some direction) (Some trial_response) i tf
           (zip [j0..<j0 + length ds] ds) a =
     (if i < C then min (length ds) (Suc R - j0) else min (length ds) 1)"
  using shape \<open>j0 \<le> R\<close>
proof (induction ds arbitrary: j0 a)
  case Nil
  then show ?case by simp
next
  case (Cons d ds)
  let ?e = "condition_mean temporal_freq direction trial_response tf"
  have z: "zip [j0..<j0 + length (d # ds)] (d # ds) = (j0, d) # zip [Suc j0..<Suc j0 + length ds] ds"
    by (simp only: upt_add_Cons zip_Cons_Cons)
  show ?case
  proof (cases "j0 < R \<and> i < C")
    case True
    let ?a1 = "overwrite a (\<lambda>j' i'. if j' = j0 \<and> i' = i then Some (?e d) else None)"
    have body: "tuning_array_body (Some temporal_freq) (Some direction) (Some trial_response)
                  i tf j0 d a = Inr ?a1"
      using True Cons.prems by (simp add: tuning_array_body_Some [OF lens] np_set2_overwrite)
    have s1: "length ?a1 = R" "\<forall>j<R. length (?a1 ! j) = C" "Suc j0 \<le> R"
      using Cons.prems True by simp_all
    have "T_tuning_array_inner (Some temporal_freq) (Some direction) (Some trial_response) i tf
            (zip [j0..<j0 + length (d # ds)] (d # ds)) a =
          1 + T_tuning_array_inner (Some temporal_freq) (Some direction) (Some trial_response) i tf
            (zip [Suc j0..<Suc j0 + length ds] ds) ?a1"
      unfolding z by (simp add: body del: upt.simps)
    also have "\<dots> = 1 + min (length ds) (Suc R - Suc j0)"
      using True by (simp only: Cons.IH [OF s1] if_True)
    finally show ?thesis using True by auto
  next
    case False
    have body: "tuning_array_body (Some temporal_freq) (Some direction) (Some trial_response)
                  i tf j0 d a = Inl IndexError"
      using False Cons.prems
      by (auto simp: tuning_array_body_Some [OF lens] np_set2_def)
    have "T_tuning_array_inner (Some temporal_freq) (Some direction) (Some trial_response) i tf
            (zip [j0..<j0 + length (d # ds)] (d # ds)) a = 1"
      unfolding z by (simp add: body del: upt.simps)
    then show ?thesis using False Cons.prems by auto
  qed
qed

lemma T_tuning_array_outer_le:
  "T_tuning_array_outer (Some dv) temporal_freq direction trial_response ps a
     \<le> length ps * length dv"
proof (induction ps arbitrary: a)
  case Nil
  then show ?case by simp
next
  case (Cons p ps)
  obtain i tf where p: "p = (i, tf)" by (cases p)
  have "T_tuning_array_inner temporal_freq direction trial_response i tf (enumerate_list dv) a
          \<le> length dv"
    using T_tuning_array_inner_le [of temporal_freq direction trial_response i tf "enumerate_list dv" a]
    by (simp add: enumerate_list_def)
  then show ?case
    using Cons.IH by (auto simp: p split: sum.splits intro: add_le_mono)
qed

lemma T_tuning_array_outer_fits:
  assumes lens: "length temporal_freq = length trial_response"
                "length direction = length trial_response"
      and shape: "length a = R" "\<forall>j<R. length (a ! j) = C"
      and fits: "i0 + length tfs \<le> C" "length dv \<le> R"
  shows "T_tuning_array_outer (Some dv) (Some temporal_freq) (Some direction) (Some trial_response)
           (zip [i0..<i0 + length tfs] tfs) a = length tfs * length dv"
  using shape fits(1)
proof (induction tfs arbitrary: i0 a)
  case Nil
  then show ?case by simp
next
  case (Cons tf tfs)
  let ?e = "condition_mean temporal_freq direction trial_response"
  let ?fin = "\<lambda>j' i'. if i' = i0 \<and> 0 \<le> j' \<and> j' < 0 + length dv
                       then Some (?e tf (dv ! (j' - 0))) else None"
  let ?a1 = "overwrite a ?fin"
  have i0: "i0 < C" "Suc i0 + length tfs \<le> C" using Cons.prems by simp_all
  have z: "zip [i0..<i0 + length (tf # tfs)] (tf # tfs) =
           (i0, tf) # zip [Suc i0..<Suc i0 + length tfs] tfs"
    by (simp only: upt_add_Cons zip_Cons_Cons)
  have inner: "tuning_array_inner (Some temporal_freq) (Some direction) (Some trial_response)
                 i0 tf (enumerate_list dv) a = Inr ?a1"
    using tuning_array_inner_from [OF lens Cons.prems(1,2), of i0 tf 0 dv] i0 fits(2)
    by (simp add: enumerate_list_def del: upt.simps)
  have Tin: "T_tuning_array_inner (Some temporal_freq) (Some direction) (Some trial_response)
                 i0 tf (enumerate_list dv) a = length dv"
    using T_tuning_array_inner_from [OF lens Cons.prems(1,2), of 0 i0 tf dv] i0 fits(2)
    by (simp add: enumerate_list_def del: upt.simps)
  have s1: "length ?a1 = R" "\<forall>j<R. length (?a1 ! j) = C"
    using Cons.prems by simp_all
  have "T_tuning_array_outer (Some dv) (Some temporal_freq) (Some direction) (Some trial_response)
          (zip [i0..<i0 + length (tf # tfs)] (tf # tfs)) a =
        length dv +
        T_tuning_array_outer (Some dv) (Some temporal_freq) (Some direction) (Some trial_response)
          (zip [Suc i0..<Suc i0 + length tfs] tfs) ?a1"
    unfolding z by (simp add: inner Tin del: upt.simps)
  also have "\<dots> = length dv + length tfs * length dv"
    by (simp only: Cons.IH [OF s1 i0(2)])
  finally show ?case by simp
qed

lemma T_tuning_array_of_fits:
  assumes "length temporal_freq = length trial_response"
      and "length direction = length trial_response"
      and "length tfvals \<le> 5" and "length dirvals \<le> 8"
  shows "T_tuning_array_of g (Some tfvals) (Some dirvals) (Some temporal_freq) (Some direction)
           (Some trial_response) = length tfvals * length dirvals"
proof -
  have "\<forall>j<8. length (np_empty2 g 8 5 ! j) = 5" by simp
  from T_tuning_array_outer_fits [OF assms(1,2) length_np_empty2 this, of 0 tfvals dirvals] assms(3,4)
  show ?thesis
    by (simp add: T_tuning_array_of_def enumerate_list_def del: upt.simps)
qed

subsection \<open>The example data, evaluated\<close>

lemma length_direction_of [simp]: "length (direction_of stim_table) = length stim_table"
  by (simp add: direction_of_def)

lemma length_temporal_frequency_of [simp]:
  "length (temporal_frequency_of stim_table) = length stim_table"
  by (simp add: temporal_frequency_of_def)

lemma ex_direction: "direction_of ex_table = [Fin 0, NaN, Fin 270, Fin 0]"
  by (simp add: direction_of_def ex_table_def ex_row_def)

lemma ex_temporal_frequency: "temporal_frequency_of ex_table = [Fin 1, NaN, Fin 1, Fin 1]"
  by (simp add: temporal_frequency_of_def ex_table_def ex_row_def)

lemma ex_trial_response: "trial_response_of ex_trace ex_table = [Fin 3, Fin 12, Fin (3 / 2), Fin 6]"
  by (simp add: trial_response_of_def np_zeros_def ex_table_def ex_row_def ex_trace_def
      py_slice_def slice_bound_def np_mean_2 upt_rec)

lemma ex_dirvals: "dirvals_of [Fin 0, NaN, Fin 270, Fin 0] = [Fin 0, Fin 270]"
  by (simp add: dirvals_of_def np_unique_def finite_values_def)

lemma ex_tfvals: "tfvals_of [Fin 1, NaN, Fin 1, Fin 1] = [Fin 1]"
  by (simp add: tfvals_of_def np_unique_def finite_values_def)

lemma ex_tuning:
  "tuning_of nan_memory (Some [Fin 0, Fin 270]) (Some [Fin 0, NaN, Fin 270, Fin 0])
     (Some [Fin 3, Fin 12, Fin (3 / 2), Fin 6]) =
   Inr [Fin (9 / 2), Fin (3 / 2), NaN, NaN, NaN, NaN, NaN, NaN]"
  by (simp add: tuning_of_Some direction_mean_def trials_of_direction_def upt_rec np_mean_2
      np_mean_def np_sum_def np_empty_def nan_memory_def)

lemma nine_dirvals: "length (dirvals_of (direction_of nine_table)) = 9"
  by (simp add: dirvals_of_def np_unique_def finite_values_def direction_of_def nine_table_def
      ex_row_def)




lemma nine_tfvals: "tfvals_of (temporal_frequency_of nine_table) = [Fin 1, Fin 2]"
  by (simp add: tfvals_of_def np_unique_def finite_values_def temporal_frequency_of_def
      nine_table_def ex_row_def)

subsection \<open>The direction tuning curve\<close>

text \<open>
  C3, as amended. \<^verbatim>\<open>tuning\<close> is an array of eight entries, whatever the number of
  directions. When the table has at most eight finite unique direction values, cell 52
  finishes, entry \<open>i\<close> is, for every index \<open>i\<close> of \<^verbatim>\<open>dirvals\<close>, the mean of
  \<^verbatim>\<open>trial_response\<close> over all trials whose direction equals \<^verbatim>\<open>dirvals[i]\<close>, of every
  temporal frequency, and the entries beyond \<^verbatim>\<open>dirvals\<close> keep what the uninitialised
  array held.
\<close>

theorem tuning_direction_mean:
  assumes "length (dirvals_of (direction_of stim_table)) \<le> 8"
  shows "let direction = direction_of stim_table;
             trial_response = trial_response_of dff_trace stim_table;
             dirvals = dirvals_of direction
         in \<exists>tuning.
              tuning_of g (Some dirvals) (Some direction) (Some trial_response) = Inr tuning \<and>
              length tuning = 8 \<and>
              (\<forall>i<length dirvals.
                 tuning ! i =
                   np_mean (map (\<lambda>k. trial_response ! k)
                              (trials_of_direction direction (dirvals ! i)))) \<and>
              (\<forall>i<8. length dirvals \<le> i \<longrightarrow> tuning ! i = g i)"
proof -
  let ?dir = "direction_of stim_table"
  let ?resp = "trial_response_of dff_trace stim_table"
  let ?dv = "dirvals_of ?dir"
  let ?t = "map (\<lambda>d. direction_mean ?dir ?resp d) ?dv @ drop (length ?dv) (np_empty g 8)"
  have lens: "length ?dir = length ?resp"
    by (simp add: length_trial_response_of)
  have "tuning_of g (Some ?dv) (Some ?dir) (Some ?resp) = Inr ?t"
    using assms by (simp add: tuning_of_Some [OF lens])
  moreover have "length ?t = 8" using assms by simp
  moreover have "\<forall>i<length ?dv. ?t ! i =
      np_mean (map (\<lambda>k. ?resp ! k) (trials_of_direction ?dir (?dv ! i)))"
    by (simp add: nth_append direction_mean_def)
  moreover have "\<forall>i<8. length ?dv \<le> i \<longrightarrow> ?t ! i = g i"
    using assms by (simp add: nth_append np_empty_def del: upt.simps)
  ultimately show ?thesis unfolding Let_def by blast
qed

theorem tuning_direction_mean_witness:
  "tuning_of nan_memory (Some (dirvals_of (direction_of ex_table))) (Some (direction_of ex_table))
     (Some (trial_response_of ex_trace ex_table)) =
   Inr [Fin (9 / 2), Fin (3 / 2), NaN, NaN, NaN, NaN, NaN, NaN]"
proof -
  let ?dir = "[Fin 0, NaN, Fin 270, Fin 0]"
  let ?resp = "[Fin 3, Fin 12, Fin (3 / 2), Fin 6]"
  let ?dv = "[Fin 0, Fin 270]"
  have f: "length (dirvals_of (direction_of ex_table)) \<le> 8"
    by (simp add: ex_direction ex_dirvals)
  from tuning_direction_mean [OF f, where g = nan_memory and dff_trace = ex_trace]
  obtain t where t: "tuning_of nan_memory (Some ?dv) (Some ?dir) (Some ?resp) = Inr t"
    and len: "length t = 8"
    and m: "\<forall>i<length ?dv. t ! i =
              np_mean (map (\<lambda>k. ?resp ! k) (trials_of_direction ?dir (?dv ! i)))"
    and j: "\<forall>i<8. length ?dv \<le> i \<longrightarrow> t ! i = nan_memory i"
    unfolding Let_def ex_direction ex_trial_response ex_dirvals by blast
  have "t ! 0 = Fin (9 / 2)"
    using m [rule_format, of 0] by (simp add: trials_of_direction_def upt_rec np_mean_2)
  moreover have "t ! 1 = Fin (3 / 2)"
    using m [rule_format, of 1]
    by (simp add: trials_of_direction_def upt_rec np_mean_def np_sum_def)
  moreover have "t ! 2 = NaN" "t ! 3 = NaN" "t ! 4 = NaN" "t ! 5 = NaN" "t ! 6 = NaN" "t ! 7 = NaN"
    using j [rule_format, of 2] j [rule_format, of 3] j [rule_format, of 4]
      j [rule_format, of 5] j [rule_format, of 6] j [rule_format, of 7]
    by (simp_all add: nan_memory_def)
  ultimately have "t = [Fin (9 / 2), Fin (3 / 2), NaN, NaN, NaN, NaN, NaN, NaN]"
    using len by (intro nth_equalityI) (auto simp: less_Suc_eq numeral_eq_Suc)
  then show ?thesis
    using t by (simp add: ex_direction ex_trial_response ex_dirvals)
qed

text \<open>
  C3 as stated fails: the example table has two finite unique directions, 0 and 270, and
  \<^verbatim>\<open>tuning\<close> has eight entries, not one per direction value.
\<close>

theorem tuning_length_counterexample:
  "tuning_of nan_memory (Some (dirvals_of (direction_of ex_table))) (Some (direction_of ex_table))
     (Some (trial_response_of ex_trace ex_table)) =
   Inr [Fin (9 / 2), Fin (3 / 2), NaN, NaN, NaN, NaN, NaN, NaN] \<and>
   length [Fin (9 / 2), Fin (3 / 2), NaN, NaN, NaN, NaN, NaN, NaN :: npfloat] \<noteq>
   length (dirvals_of (direction_of ex_table))"
  by (simp add: ex_direction ex_trial_response ex_dirvals ex_tuning)

subsection \<open>The hand-computed average and the tuning curve\<close>




subsection \<open>Iteration counts\<close>

lemma T_trial_response_loop_length:
  "T_trial_response_loop dff_trace stim_table is tr = length is"
  by (induction "is" arbitrary: tr) simp_all

text \<open>
  C7, as amended. The trial-response loop runs its body exactly \<^verbatim>\<open>len(stim_table)\<close>
  times, with one slice of the trace in each. For every table, the loops of cell 71 enter the
  body at most (number of temporal-frequency values) times (number of direction values)
  times, and exactly that often when there are at most five temporal-frequency values and at
  most eight direction values, the shape of the array they fill.
\<close>

theorem aggregation_iteration_counts:
  "let temporal_freq = temporal_frequency_of stim_table;
       direction = direction_of stim_table;
       trial_response = trial_response_of dff_trace stim_table
   in T_trial_response_of dff_trace stim_table = length stim_table \<and>
      T_tuning_array_of g (Some tfvals) (Some dirvals) (Some temporal_freq) (Some direction)
          (Some trial_response)
        \<le> length tfvals * length dirvals \<and>
      (length tfvals \<le> 5 \<and> length dirvals \<le> 8 \<longrightarrow>
       T_tuning_array_of g (Some tfvals) (Some dirvals) (Some temporal_freq) (Some direction)
          (Some trial_response)
        = length tfvals * length dirvals)"
proof -
  let ?tfa = "temporal_frequency_of stim_table"
  let ?dir = "direction_of stim_table"
  let ?resp = "trial_response_of dff_trace stim_table"
  have lens: "length ?tfa = length ?resp" "length ?dir = length ?resp"
    by (simp_all add: length_trial_response_of)
  have "T_trial_response_of dff_trace stim_table = length stim_table"
    by (simp add: T_trial_response_of_def T_trial_response_loop_length)
  moreover have "T_tuning_array_of g (Some tfvals) (Some dirvals) (Some ?tfa) (Some ?dir)
       (Some ?resp) \<le> length tfvals * length dirvals"
    using T_tuning_array_outer_le [of dirvals "Some ?tfa" "Some ?dir" "Some ?resp"
        "enumerate_list tfvals" "np_empty2 g 8 5"]
    by (simp add: T_tuning_array_of_def enumerate_list_def)
  moreover have "length tfvals \<le> 5 \<and> length dirvals \<le> 8 \<longrightarrow>
    T_tuning_array_of g (Some tfvals) (Some dirvals) (Some ?tfa) (Some ?dir) (Some ?resp)
     = length tfvals * length dirvals"
    by (simp add: T_tuning_array_of_fits [OF lens])
  ultimately show ?thesis unfolding Let_def by blast
qed

theorem aggregation_iteration_counts_witness:
  "T_trial_response_of ex_trace ex_table = 4 \<and>
   T_tuning_array_of nan_memory2 (Some (tfvals_of (temporal_frequency_of ex_table)))
       (Some (dirvals_of (direction_of ex_table)))
       (Some (temporal_frequency_of ex_table))
       (Some (direction_of ex_table)) (Some (trial_response_of ex_trace ex_table)) = 2"
proof -
  have "length ex_table = 4" by (simp add: ex_table_def)
  then show ?thesis
    using aggregation_iteration_counts [of ex_table ex_trace nan_memory2
        "tfvals_of (temporal_frequency_of ex_table)" "dirvals_of (direction_of ex_table)"]
    by (simp add: Let_def ex_direction ex_dirvals ex_temporal_frequency ex_tfvals)
qed

text \<open>
  C7 as stated fails: with nine direction values and two temporal-frequency values the
  store into row 8 of the eight-row array raises in the ninth pass of the inner loop, and
  the body has been entered nine times, not eighteen.
\<close>

theorem aggregation_iteration_counts_counterexample:
  "T_tuning_array_of nan_memory2 (Some (tfvals_of (temporal_frequency_of nine_table)))
       (Some (dirvals_of (direction_of nine_table))) (Some (temporal_frequency_of nine_table))
       (Some (direction_of nine_table)) (Some (trial_response_of ex_trace nine_table)) = 9 \<and>
   length (tfvals_of (temporal_frequency_of nine_table)) *
     length (dirvals_of (direction_of nine_table)) = 18 \<and>
   tuning_array_of nan_memory2 (Some (tfvals_of (temporal_frequency_of nine_table)))
       (Some (dirvals_of (direction_of nine_table))) (Some (temporal_frequency_of nine_table))
       (Some (direction_of nine_table)) (Some (trial_response_of ex_trace nine_table)) =
     Inl IndexError"
proof -
  let ?dv = "dirvals_of (direction_of nine_table)"
  let ?tfa = "temporal_frequency_of nine_table"
  let ?dir = "direction_of nine_table"
  let ?resp = "trial_response_of ex_trace nine_table"
  let ?a = "np_empty2 nan_memory2 8 5"
  have lens: "length ?tfa = length ?resp" "length ?dir = length ?resp"
    by (simp_all add: length_trial_response_of)
  have shape: "length ?a = 8" "\<forall>j<8. length (?a ! j) = 5" by simp_all
  have n: "length ?dv = 9" by (rule nine_dirvals)
  then have ne: "?dv \<noteq> []" by auto
  have inner: "tuning_array_inner (Some ?tfa) (Some ?dir) (Some ?resp) 0 (Fin 1)
                 (enumerate_list ?dv) ?a = Inl IndexError"
    using tuning_array_inner_from [OF lens shape, of 0 "Fin 1" 0 ?dv] n ne
    by (simp add: enumerate_list_def del: upt.simps)
  have Tin: "T_tuning_array_inner (Some ?tfa) (Some ?dir) (Some ?resp) 0 (Fin 1)
                 (enumerate_list ?dv) ?a = 9"
    using T_tuning_array_inner_from [OF lens shape, of 0 0 "Fin 1" ?dv] n
    by (simp add: enumerate_list_def del: upt.simps)
  have e: "enumerate_list [Fin 1, Fin 2 :: npfloat] = [(0, Fin 1), (1, Fin 2)]"
    by (simp add: enumerate_list_def upt_rec)
  have "T_tuning_array_of nan_memory2 (Some [Fin 1, Fin 2]) (Some ?dv) (Some ?tfa)
               (Some ?dir) (Some ?resp) = 9"
    by (simp add: T_tuning_array_of_def e inner Tin)
  moreover have "tuning_array_of nan_memory2 (Some [Fin 1, Fin 2]) (Some ?dv) (Some ?tfa)
               (Some ?dir) (Some ?resp) = Inl IndexError"
    by (simp add: tuning_array_of_def e inner)
  ultimately show ?thesis using n by (simp add: nine_tfvals)
qed

subsection \<open>Empty conditions\<close>

lemma trials_of_condition_empty_iff:
  "trials_of_condition temporal_freq direction tf d = [] \<longleftrightarrow>
   \<not> (\<exists>k<length direction. fl_eq (temporal_freq ! k) tf \<and> fl_eq (direction ! k) d)"
  by (auto simp: trials_of_condition_def filter_empty_conv)

text \<open>
  C9, as amended. Cell 71 finishes with at most five temporal-frequency values and at most
  eight direction values. When it finishes, the array has 8 rows of 5 entries, whatever the
  numbers of values: the entry of each pair of a direction value and a temporal-frequency
  value is the mean of \<^verbatim>\<open>trial_response\<close> over the trials of that pair, and every other
  entry is what \<^verbatim>\<open>np.empty\<close> left there, the mean of no trial set. If every pair occurs in at
  least one trial, the trials of each pair are a non-empty set, so that no mean of an empty
  selection is taken; if some pair occurs in no trial, the entry of such a pair is the mean
  of an empty selection, NaN.
\<close>

theorem tuning_array_entries_nonempty:
  "let temporal_freq = temporal_frequency_of stim_table;
       direction = direction_of stim_table;
       trial_response = trial_response_of dff_trace stim_table;
       every_pair_occurs =
         (\<forall>d\<in>set dirvals. \<forall>tf\<in>set tfvals. \<exists>k<length stim_table.
            fl_eq (temporal_frequency (stim_table ! k)) tf \<and>
            fl_eq (orientation (stim_table ! k)) d);
       result = tuning_array_of g (Some tfvals) (Some dirvals) (Some temporal_freq)
                  (Some direction) (Some trial_response)
   in (length tfvals \<le> 5 \<and> length dirvals \<le> 8 \<longrightarrow> (\<exists>tuning_array. result = Inr tuning_array)) \<and>
      (\<forall>tuning_array. result = Inr tuning_array \<longrightarrow>
         length tuning_array = 8 \<and>
         (\<forall>j<8. length (tuning_array ! j) = 5) \<and>
         (\<forall>j<8. \<forall>i<5.
            tuning_array ! j ! i =
              (if j < length dirvals \<and> i < length tfvals
               then np_mean (map (\<lambda>k. trial_response ! k)
                      (trials_of_condition temporal_freq direction (tfvals ! i) (dirvals ! j)))
               else g j i))) \<and>
      (every_pair_occurs \<longrightarrow>
         (\<forall>j<length dirvals. \<forall>i<length tfvals.
            trials_of_condition temporal_freq direction (tfvals ! i) (dirvals ! j) \<noteq> [])) \<and>
      (\<not> every_pair_occurs \<longrightarrow>
         (\<exists>j<length dirvals. \<exists>i<length tfvals.
            trials_of_condition temporal_freq direction (tfvals ! i) (dirvals ! j) = [] \<and>
            (\<forall>tuning_array. result = Inr tuning_array \<longrightarrow> tuning_array ! j ! i = NaN)))"
proof -
  let ?tfa = "temporal_frequency_of stim_table"
  let ?dir = "direction_of stim_table"
  let ?resp = "trial_response_of dff_trace stim_table"
  let ?F = "\<lambda>j i. if i < length tfvals \<and> j < length dirvals
                    then Some (condition_mean ?tfa ?dir ?resp (tfvals ! i) (dirvals ! j))
                    else None"
  let ?a = "overwrite (np_empty2 g 8 5) ?F"
  let ?res = "tuning_array_of g (Some tfvals) (Some dirvals) (Some ?tfa) (Some ?dir) (Some ?resp)"
  let ?P = "\<forall>d\<in>set dirvals. \<forall>tf\<in>set tfvals. \<exists>k<length stim_table.
          fl_eq (temporal_frequency (stim_table ! k)) tf \<and> fl_eq (orientation (stim_table ! k)) d"
  have lens: "length ?tfa = length ?resp" "length ?dir = length ?resp"
    by (simp_all add: length_trial_response_of)
  note run = tuning_array_of_Some [OF lens, of g tfvals dirvals]
  have c1: "length tfvals \<le> 5 \<and> length dirvals \<le> 8 \<longrightarrow> (\<exists>a. ?res = Inr a)"
    by (simp add: run)
  have is_a: "a = ?a" if "?res = Inr a" for a
    using that by (simp add: run split: if_splits)
  have shape: "length a = 8 \<and> (\<forall>j<8. length (a ! j) = 5)" if "?res = Inr a" for a
    by (simp add: is_a [OF that])
  have cell: "a ! j ! i =
        (if j < length dirvals \<and> i < length tfvals
         then condition_mean ?tfa ?dir ?resp (tfvals ! i) (dirvals ! j) else g j i)"
    if "?res = Inr a" "j < 8" "i < 5" for a j i
    using that(2,3) by (simp add: is_a [OF that(1)] nth_overwrite)
  have entry: "a ! j ! i = condition_mean ?tfa ?dir ?resp (tfvals ! i) (dirvals ! j)"
    if "?res = Inr a" "j < length dirvals" "i < length tfvals" for a j i
  proof -
    have ne: "tfvals \<noteq> []" "dirvals \<noteq> []" using that(2,3) by auto
    have fits: "length tfvals \<le> 5 \<and> length dirvals \<le> 8"
      using that(1) ne by (simp add: run split: if_splits)
    then show ?thesis using that(2,3) cell [OF that(1), of j i] by simp
  qed
  have empty: "trials_of_condition ?tfa ?dir tf d = [] \<longleftrightarrow>
        \<not> (\<exists>k<length stim_table. fl_eq (temporal_frequency (stim_table ! k)) tf \<and>
              fl_eq (orientation (stim_table ! k)) d)" for tf d
    using trials_of_condition_empty_iff [of ?tfa ?dir tf d]
    by (simp add: temporal_frequency_of_def direction_of_def cong: conj_cong)
  have c2: "\<forall>a. ?res = Inr a \<longrightarrow>
          length a = 8 \<and> (\<forall>j<8. length (a ! j) = 5) \<and>
          (\<forall>j<8. \<forall>i<5. a ! j ! i =
            (if j < length dirvals \<and> i < length tfvals
             then np_mean (map (\<lambda>k. ?resp ! k)
                    (trials_of_condition ?tfa ?dir (tfvals ! i) (dirvals ! j)))
             else g j i))"
  proof (intro allI impI)
    fix a
    assume a: "?res = Inr a"
    have "\<forall>j<8. \<forall>i<5. a ! j ! i =
            (if j < length dirvals \<and> i < length tfvals
             then np_mean (map (\<lambda>k. ?resp ! k)
                    (trials_of_condition ?tfa ?dir (tfvals ! i) (dirvals ! j)))
             else g j i)"
      using cell [OF a] by (simp add: condition_mean_def)
    with shape [OF a] show "length a = 8 \<and> (\<forall>j<8. length (a ! j) = 5) \<and>
          (\<forall>j<8. \<forall>i<5. a ! j ! i =
            (if j < length dirvals \<and> i < length tfvals
             then np_mean (map (\<lambda>k. ?resp ! k)
                    (trials_of_condition ?tfa ?dir (tfvals ! i) (dirvals ! j)))
             else g j i))"
      by blast
  qed
  have c3: "?P \<longrightarrow> (\<forall>j<length dirvals. \<forall>i<length tfvals.
             trials_of_condition ?tfa ?dir (tfvals ! i) (dirvals ! j) \<noteq> [])"
    by (auto simp: empty)
  have c4: "\<not> ?P \<longrightarrow> (\<exists>j<length dirvals. \<exists>i<length tfvals.
             trials_of_condition ?tfa ?dir (tfvals ! i) (dirvals ! j) = [] \<and>
             (\<forall>a. ?res = Inr a \<longrightarrow> a ! j ! i = NaN))"
  proof
    assume "\<not> ?P"
    then obtain d tf where d: "d \<in> set dirvals" and tf: "tf \<in> set tfvals"
      and none: "\<not> (\<exists>k<length stim_table. fl_eq (temporal_frequency (stim_table ! k)) tf \<and>
              fl_eq (orientation (stim_table ! k)) d)"
      by blast
    from d obtain j where j: "j < length dirvals" "dirvals ! j = d"
      by (auto simp: in_set_conv_nth)
    from tf obtain i where i: "i < length tfvals" "tfvals ! i = tf"
      by (auto simp: in_set_conv_nth)
    have e: "trials_of_condition ?tfa ?dir (tfvals ! i) (dirvals ! j) = []"
      using none by (simp add: empty i j)
    then have "\<forall>a. ?res = Inr a \<longrightarrow> a ! j ! i = NaN"
      using entry [OF _ j(1) i(1)] by (simp add: condition_mean_def np_mean_Nil)
    with e i j show "\<exists>j<length dirvals. \<exists>i<length tfvals.
             trials_of_condition ?tfa ?dir (tfvals ! i) (dirvals ! j) = [] \<and>
             (\<forall>a. ?res = Inr a \<longrightarrow> a ! j ! i = NaN)"
      by blast
  qed
  from c1 c2 c3 c4 show ?thesis unfolding Let_def by blast
qed

text \<open>
  The example table has both pairs of a direction value and a temporal-frequency value: the
  entry of direction 270 at temporal frequency 1 is the response of trial 2, and the entry
  of the third row, which no direction value has, is what the memory held.
\<close>

theorem tuning_array_entries_nonempty_witness:
  "(\<exists>a. tuning_array_of nan_memory2 (Some (tfvals_of (temporal_frequency_of ex_table)))
          (Some (dirvals_of (direction_of ex_table))) (Some (temporal_frequency_of ex_table))
          (Some (direction_of ex_table)) (Some (trial_response_of ex_trace ex_table)) = Inr a \<and>
        a ! 1 ! 0 = Fin (3 / 2) \<and> a ! 2 ! 0 = nan_memory2 2 0) \<and>
   trials_of_condition (temporal_frequency_of ex_table) (direction_of ex_table) (Fin 1) (Fin 270)
     \<noteq> [] \<and>
   trials_of_condition (temporal_frequency_of ex_table) (direction_of ex_table) (Fin 1) (Fin 270)
     = [2]"
proof -
  let ?tfa = "[Fin 1, NaN, Fin 1, Fin 1]"
  let ?dir = "[Fin 0, NaN, Fin 270, Fin 0]"
  let ?resp = "[Fin 3, Fin 12, Fin (3 / 2), Fin 6]"
  let ?res = "tuning_array_of nan_memory2 (Some [Fin 1]) (Some [Fin 0, Fin 270])
        (Some ?tfa) (Some ?dir) (Some ?resp)"
  have k0: "\<exists>k<length ex_table. fl_eq (temporal_frequency (ex_table ! k)) (Fin 1) \<and>
              fl_eq (orientation (ex_table ! k)) (Fin 0)"
    by (rule exI [of _ 0]) (simp add: ex_table_def ex_row_def)
  have k2: "\<exists>k<length ex_table. fl_eq (temporal_frequency (ex_table ! k)) (Fin 1) \<and>
              fl_eq (orientation (ex_table ! k)) (Fin 270)"
    by (rule exI [of _ 2]) (simp add: ex_table_def ex_row_def)
  have P: "\<forall>d\<in>set [Fin 0, Fin 270]. \<forall>tf\<in>set [Fin 1]. \<exists>k<length ex_table.
             fl_eq (temporal_frequency (ex_table ! k)) tf \<and> fl_eq (orientation (ex_table ! k)) d"
    using k0 k2 by simp
  note C9 = tuning_array_entries_nonempty [where g = nan_memory2 and stim_table = ex_table
      and dff_trace = ex_trace and tfvals = "[Fin 1]" and dirvals = "[Fin 0, Fin 270]",
      unfolded Let_def ex_direction ex_trial_response ex_temporal_frequency]
  from C9 [THEN conjunct1] obtain a where a: "?res = Inr a" by auto
  note cells = C9 [THEN conjunct2, THEN conjunct1, rule_format, OF a, THEN conjunct2,
      THEN conjunct2, rule_format]
  have e: "a ! 1 ! 0 = np_mean (map (\<lambda>k. ?resp ! k)
            (trials_of_condition ?tfa ?dir ([Fin 1] ! 0) ([Fin 0, Fin 270] ! 1)))"
    using cells [of 1 0] by simp
  have u: "a ! 2 ! 0 = nan_memory2 2 0"
    using cells [of 2 0] by simp
  have ne: "trials_of_condition ?tfa ?dir ([Fin 1] ! 0) ([Fin 0, Fin 270] ! 1) \<noteq> []"
    using C9 [THEN conjunct2, THEN conjunct2, THEN conjunct1, THEN mp, OF P, rule_format, of 1 0]
    by simp
  have t: "trials_of_condition ?tfa ?dir (Fin 1) (Fin 270) = [2]"
    by (simp add: trials_of_condition_def upt_rec)
  have "a ! 1 ! 0 = Fin (3 / 2)"
    using e by (simp add: t np_mean_def np_sum_def)
  then show ?thesis
    using a t ne u
    by (simp add: ex_direction ex_trial_response ex_temporal_frequency ex_dirvals ex_tfvals)
qed

text \<open>
  C9 as stated fails: in the example table each of the two pairs of a direction value and a
  temporal-frequency value occurs in a trial, and cell 71 finishes, but only two of the
  forty entries are means of trial sets. The others hold what the memory held, 1000 in one
  run and NaN in another run on the same table and trace.
\<close>

theorem tuning_array_entries_counterexample:
  "dirvals_of (direction_of ex_table) = [Fin 0, Fin 270] \<and>
   tfvals_of (temporal_frequency_of ex_table) = [Fin 1] \<and>
   trials_of_condition (temporal_frequency_of ex_table) (direction_of ex_table) (Fin 1) (Fin 0)
     = [0, 3] \<and>
   trials_of_condition (temporal_frequency_of ex_table) (direction_of ex_table) (Fin 1) (Fin 270)
     = [2] \<and>
   tuning_array_of stale_memory2 (Some (tfvals_of (temporal_frequency_of ex_table)))
     (Some (dirvals_of (direction_of ex_table))) (Some (temporal_frequency_of ex_table))
     (Some (direction_of ex_table)) (Some (trial_response_of ex_trace ex_table)) =
     Inr ([Fin (9 / 2), Fin 1000, Fin 1000, Fin 1000, Fin 1000] #
          [Fin (3 / 2), Fin 1000, Fin 1000, Fin 1000, Fin 1000] #
          replicate 6 (replicate 5 (Fin 1000))) \<and>
   tuning_array_of nan_memory2 (Some (tfvals_of (temporal_frequency_of ex_table)))
     (Some (dirvals_of (direction_of ex_table))) (Some (temporal_frequency_of ex_table))
     (Some (direction_of ex_table)) (Some (trial_response_of ex_trace ex_table)) =
     Inr ([Fin (9 / 2), NaN, NaN, NaN, NaN] #
          [Fin (3 / 2), NaN, NaN, NaN, NaN] #
          replicate 6 (replicate 5 NaN))"
proof -
  let ?tfa = "[Fin 1, NaN, Fin 1, Fin 1]"
  let ?dir = "[Fin 0, NaN, Fin 270, Fin 0]"
  let ?resp = "[Fin 3, Fin 12, Fin (3 / 2), Fin 6]"
  have lens: "length ?tfa = length ?resp" "length ?dir = length ?resp"
    by simp_all
  have t0: "trials_of_condition ?tfa ?dir (Fin 1) (Fin 0) = [0, 3]"
    by (simp add: trials_of_condition_def upt_rec)
  have t2: "trials_of_condition ?tfa ?dir (Fin 1) (Fin 270) = [2]"
    by (simp add: trials_of_condition_def upt_rec)
  have m0: "condition_mean ?tfa ?dir ?resp (Fin 1) (Fin 0) = Fin (9 / 2)"
    by (simp only: condition_mean_def t0) (simp add: np_mean_def np_sum_def)
  have m2: "condition_mean ?tfa ?dir ?resp (Fin 1) (Fin 270) = Fin (3 / 2)"
    by (simp only: condition_mean_def t2) (simp add: np_mean_def np_sum_def)
  have a: "overwrite (np_empty2 (\<lambda>j i. c) 8 5) (\<lambda>j i.
             if i < length [Fin 1 :: npfloat] \<and> j < length [Fin 0, Fin 270 :: npfloat]
             then Some (condition_mean ?tfa ?dir ?resp ([Fin 1] ! i) ([Fin 0, Fin 270] ! j))
             else None) =
           [Fin (9 / 2), c, c, c, c] # [Fin (3 / 2), c, c, c, c] # replicate 6 (replicate 5 c)"
    for c
    by (simp add: overwrite_def np_empty2_def upt_rec m0 m2 eval_nat_numeral)
  have r: "tuning_array_of (\<lambda>j i. c) (Some [Fin 1]) (Some [Fin 0, Fin 270]) (Some ?tfa)
             (Some ?dir) (Some ?resp) =
           Inr ([Fin (9 / 2), c, c, c, c] # [Fin (3 / 2), c, c, c, c] #
                replicate 6 (replicate 5 c))" for c
    by (simp only: tuning_array_of_Some [OF lens] a) simp
  have g: "stale_memory2 = (\<lambda>j i. Fin 1000)" "nan_memory2 = (\<lambda>j i. NaN)"
    by (simp_all add: fun_eq_iff stale_memory2_def nan_memory2_def)
  show ?thesis
    by (simp only: ex_direction ex_temporal_frequency ex_trial_response ex_dirvals ex_tfvals
        t0 t2 r g simp_thms)
qed

subsection \<open>The run of the notebook\<close>

text \<open>
  C2. Run in the order of the notebook from the loaded data, the computing cells do not
  reach the tuning array: cell 71 reads \<^verbatim>\<open>tfvals\<close>, which no cell has assigned, and
  raises \<^verbatim>\<open>NameError\<close>; when the table has more than eight finite unique directions,
  cell 52 has raised \<^verbatim>\<open>IndexError\<close> before.
\<close>

theorem notebook_run_stops_at_tfvals:
  "run_cells (aggregation_cells g g2) (init_state dff_trace stim_table) =
     (if length (dirvals_of (direction_of stim_table)) \<le> 8
      then Inl (NameError ''tfvals'') else Inl IndexError)"
proof -
  let ?dir = "direction_of stim_table"
  let ?resp = "trial_response_of dff_trace stim_table"
  have lens: "length ?dir = length ?resp"
    by (simp add: length_trial_response_of)
  show ?thesis
    by (simp add: aggregation_cells_def init_state_def cell_37_def cell_45_def cell_47_def
        cell_52_def cell_71_def direction_average_Some [OF lens] tuning_of_Some [OF lens]
        tuning_array_of_def)
qed

text \<open>
  With \<^verbatim>\<open>tfvals\<close> bound, as if a cell had assigned it, the run on the example data
  finishes.
\<close>

lemma ex_run:
  "\<exists>s'. run_cells (aggregation_cells nan_memory nan_memory2) ex_state = Inr s'"
proof -
  have lens: "length (direction_of ex_table) = length (trial_response_of ex_trace ex_table)"
    "length (temporal_frequency_of ex_table) = length (trial_response_of ex_trace ex_table)"
    by (simp_all add: length_trial_response_of)
  have dv: "dirvals_of (direction_of ex_table) = [Fin 0, Fin 270]"
    by (simp add: ex_direction ex_dirvals)
  show ?thesis
    by (simp add: aggregation_cells_def ex_state_def init_state_def cell_37_def cell_45_def
        cell_47_def cell_52_def cell_71_def cell_80_def direction_average_Some [OF lens(1)]
        tuning_of_Some [OF lens(1)] tuning_array_of_Some [OF lens(2,1)] dv)
qed

subsection \<open>The padded window\<close>

lemma int64_id: "- (2 ^ 63) \<le> x \<Longrightarrow> x < 2 ^ 63 \<Longrightarrow> int64 x = x"
  by (simp add: int64_def)

text \<open>
  C10. For the first trial with 64-bit frame numbers \<open>start\<close> and \<open>end\<close>, \<open>end\<close> not
  negative and \<open>end + 30\<close> below \<open>2^63\<close>: when \<open>start \<ge> 30\<close> and \<open>end + 30\<close> is within
  the trace, the window is the samples at the indices \<open>start - 30, ..., end + 29\<close>; when
  \<open>0 \<le> start < 30\<close> the lower bound \<open>start - 30\<close> is negative, nothing is raised, whatever
  \<open>end\<close> is, and the window starts \<open>30 - start\<close> samples before the end of the trace (at
  index 0 when the trace is shorter than that).
\<close>

theorem padded_window_bounds:
  "let s0 = start r; e0 = end_frame r; n = length dff_trace
   in (30 \<le> s0 \<and> s0 < 2 ^ 63 \<and> 0 \<le> e0 \<and> e0 + 30 < 2 ^ 63 \<and> e0 + 30 \<le> int n \<longrightarrow>
         padded_window dff_trace (r # rest) =
           Inr (map (\<lambda>k. dff_trace ! k) [nat s0 - 30..<nat e0 + 30])) \<and>
      (0 \<le> s0 \<and> s0 < 30 \<longrightarrow>
         s0 - 30 < 0 \<and>
         padded_window dff_trace (r # rest) =
           Inr (py_slice dff_trace (s0 - 30) (int64 (e0 + 30))) \<and>
         slice_bound n (s0 - 30) = n - (30 - nat s0)) \<and>
      (0 \<le> s0 \<and> s0 < 30 \<and> 0 \<le> e0 \<and> e0 + 30 < 2 ^ 63 \<longrightarrow>
         padded_window dff_trace (r # rest) =
           Inr (map (\<lambda>k. dff_trace ! k) [n - (30 - nat s0)..<min (nat e0 + 30) n]))"
proof -
  let ?n = "length dff_trace"
  have a: "padded_window dff_trace (r # rest) =
        Inr (map (\<lambda>k. dff_trace ! k) [nat (start r) - 30..<nat (end_frame r) + 30])"
    if "30 \<le> start r" "start r < 2 ^ 63" "0 \<le> end_frame r" "end_frame r + 30 < 2 ^ 63"
       "end_frame r + 30 \<le> int ?n"
  proof -
    have w: "int64 (start r - 30) = start r - 30" "int64 (end_frame r + 30) = end_frame r + 30"
      using that by (simp_all add: int64_id)
    have "py_slice dff_trace (start r - 30) (end_frame r + 30) =
          map (\<lambda>k. dff_trace ! k) [nat (start r - 30)..<min (nat (end_frame r + 30)) ?n]"
      using that by (intro py_slice_nonneg) simp_all
    moreover have "nat (start r - 30) = nat (start r) - 30" by simp
    moreover have "min (nat (end_frame r + 30)) ?n = nat (end_frame r) + 30"
      using that by auto
    ultimately show ?thesis by (simp add: padded_window_def w del: upt.simps)
  qed
  have l: "slice_bound ?n (start r - 30) = ?n - (30 - nat (start r))"
    if "0 \<le> start r" "start r < 30"
    using that by (auto simp: slice_bound_def)
  have b: "padded_window dff_trace (r # rest) =
        Inr (py_slice dff_trace (start r - 30) (int64 (end_frame r + 30)))"
    if "0 \<le> start r" "start r < 30"
  proof -
    have "int64 (start r - 30) = start r - 30"
      using that by (simp add: int64_id)
    then show ?thesis by (simp add: padded_window_def)
  qed
  have c: "padded_window dff_trace (r # rest) =
        Inr (map (\<lambda>k. dff_trace ! k) [?n - (30 - nat (start r))..<min (nat (end_frame r) + 30) ?n])"
    if "0 \<le> start r" "start r < 30" "0 \<le> end_frame r" "end_frame r + 30 < 2 ^ 63"
  proof -
    let ?l = "?n - (30 - nat (start r))"
    let ?h = "min (nat (end_frame r) + 30) ?n"
    have w: "int64 (end_frame r + 30) = end_frame r + 30"
      using that by (simp add: int64_id)
    have h: "slice_bound ?n (end_frame r + 30) = ?h"
      using that by (auto simp: slice_bound_def)
    have "py_slice dff_trace (start r - 30) (end_frame r + 30) = take (?h - ?l) (drop ?l dff_trace)"
      by (simp only: py_slice_def Let_def l [OF that(1,2)] h)
    also have "\<dots> = map (\<lambda>k. dff_trace ! k) [?l..<?h]"
      by (rule take_drop_nth_upt) simp_all
    finally show ?thesis by (simp only: b [OF that(1,2)] w)
  qed
  show ?thesis unfolding Let_def using a b c l by auto
qed

theorem padded_window_bounds_witness:
  "padded_window (replicate 40 (Fin 1)) [ex_row 5 10 (Fin 0) (Fin 1) (Fin 0)] =
     Inr (map (\<lambda>k. replicate 40 (Fin 1) ! k) [15..<40]) \<and>
   padded_window (replicate 100 (Fin 1)) [ex_row 30 32 (Fin 0) (Fin 1) (Fin 0)] =
     Inr (map (\<lambda>k. replicate 100 (Fin 1) ! k) [0..<62])"
proof -
  note C10 = padded_window_bounds [unfolded Let_def]
  have "padded_window (replicate 40 (Fin 1)) [ex_row 5 10 (Fin 0) (Fin 1) (Fin 0)] =
     Inr (map (\<lambda>k. replicate 40 (Fin 1) ! k) [15..<40])"
    using C10 [of "ex_row 5 10 (Fin 0) (Fin 1) (Fin 0)" "replicate 40 (Fin 1)" "[]",
        THEN conjunct2, THEN conjunct2]
    by (simp add: ex_row_def del: upt.simps replicate.simps)
  moreover have "padded_window (replicate 100 (Fin 1)) [ex_row 30 32 (Fin 0) (Fin 1) (Fin 0)] =
     Inr (map (\<lambda>k. replicate 100 (Fin 1) ! k) [0..<62])"
    using C10 [of "ex_row 30 32 (Fin 0) (Fin 1) (Fin 0)" "replicate 100 (Fin 1)" "[]",
        THEN conjunct1]
    by (simp add: ex_row_def del: upt.simps replicate.simps)
  ultimately show ?thesis by blast
qed

subsection \<open>Blank sweeps\<close>

lemma set_finite_values: "set (finite_values a) = {r. Fin r \<in> set a}"
  by (induction a) (auto simp: finite_values_def split: npfloat.splits)

lemma dirvals_of_sorted_finite:
  "dirvals_of direction = map Fin (sort (remdups (finite_values direction)))"
  by (simp add: dirvals_of_def np_unique_def filter_map comp_def)

lemma set_dirvals_of: "set (dirvals_of direction) = {d \<in> set direction. isfinite d}"
proof -
  have "isfinite d \<longleftrightarrow> (\<exists>r. d = Fin r)" for d by (cases d) simp_all
  then show ?thesis
    by (auto simp: dirvals_of_sorted_finite set_finite_values)
qed

lemma sorted_dirvals_of: "sorted_wrt fl_less (dirvals_of direction)"
proof -
  have "sorted_wrt (<) (sort (remdups (finite_values direction)))"
    by (simp add: strict_sorted_iff)
  then show ?thesis
    by (simp add: dirvals_of_sorted_finite sorted_wrt_map)
qed

lemma fl_eq_NaN [simp]: "fl_eq x NaN = False"
  by (cases x) simp_all

lemma nan_not_in_trials_of_direction:
  "direction ! k = NaN \<Longrightarrow> k \<notin> set (trials_of_direction direction d)"
  by (simp add: trials_of_direction_def)

lemma nan_not_in_trials_of_condition:
  "direction ! k = NaN \<or> temporal_freq ! k = NaN \<Longrightarrow>
   k \<notin> set (trials_of_condition temporal_freq direction tf d)"
  by (auto simp: trials_of_condition_def)

lemma direction_mean_cong:
  assumes "\<forall>k<length direction. direction ! k \<noteq> NaN \<longrightarrow> resp ! k = resp' ! k"
  shows "direction_mean direction resp d = direction_mean direction resp' d"
proof -
  have "map (\<lambda>k. resp ! k) (trials_of_direction direction d) =
        map (\<lambda>k. resp' ! k) (trials_of_direction direction d)"
    using assms by (auto simp: trials_of_direction_def)
  then show ?thesis by (simp only: direction_mean_def)
qed

lemma condition_mean_cong:
  assumes "\<forall>k<length direction. direction ! k \<noteq> NaN \<longrightarrow> resp ! k = resp' ! k"
  shows "condition_mean temporal_freq direction resp tf d =
         condition_mean temporal_freq direction resp' tf d"
proof -
  have "map (\<lambda>k. resp ! k) (trials_of_condition temporal_freq direction tf d) =
        map (\<lambda>k. resp' ! k) (trials_of_condition temporal_freq direction tf d)"
    using assms by (auto simp: trials_of_condition_def)
  then show ?thesis by (simp only: condition_mean_def)
qed

text \<open>
  C8. \<^verbatim>\<open>dirvals\<close> holds exactly the finite direction values of the table, in strictly
  ascending order. A trial whose direction is NaN is false in the boolean array of every
  direction value and belongs to the trials of no direction and of no pair, as a trial
  whose temporal frequency is NaN belongs to the trials of no pair; and the tuning curve and
  the tuning array are the same for any two response arrays that agree on the trials whose
  direction is not NaN.
\<close>

theorem blank_sweeps_excluded:
  assumes "length trial_response = length stim_table"
      and "length trial_response' = length stim_table"
      and "\<forall>k<length stim_table.
             orientation (stim_table ! k) \<noteq> NaN \<longrightarrow> trial_response ! k = trial_response' ! k"
  shows "let direction = direction_of stim_table;
             temporal_freq = temporal_frequency_of stim_table;
             dirvals = dirvals_of direction
         in set dirvals = {d \<in> set direction. isfinite d} \<and>
            sorted_wrt fl_less dirvals \<and>
            (\<forall>k<length stim_table. direction ! k = NaN \<longrightarrow>
               (\<forall>d. \<not> np_eq direction d ! k) \<and>
               (\<forall>d. k \<notin> set (trials_of_direction direction d)) \<and>
               (\<forall>tf d. k \<notin> set (trials_of_condition temporal_freq direction tf d))) \<and>
            (\<forall>k<length stim_table. temporal_freq ! k = NaN \<longrightarrow>
               (\<forall>tf d. k \<notin> set (trials_of_condition temporal_freq direction tf d))) \<and>
            tuning_of g (Some dirvals) (Some direction) (Some trial_response) =
              tuning_of g (Some dirvals) (Some direction) (Some trial_response') \<and>
            tuning_array_of g2 (Some tfvals) (Some dirvals) (Some temporal_freq) (Some direction)
                (Some trial_response) =
              tuning_array_of g2 (Some tfvals) (Some dirvals) (Some temporal_freq) (Some direction)
                (Some trial_response')"
proof -
  let ?dir = "direction_of stim_table"
  let ?tfa = "temporal_frequency_of stim_table"
  let ?dv = "dirvals_of ?dir"
  have same: "\<forall>k<length ?dir. ?dir ! k \<noteq> NaN \<longrightarrow> trial_response ! k = trial_response' ! k"
    using assms(3) by (simp add: direction_of_def)
  have l: "length ?dir = length trial_response" "length ?dir = length trial_response'"
    "length ?tfa = length trial_response" "length ?tfa = length trial_response'"
    using assms(1,2) by simp_all
  have mask: "\<forall>k<length stim_table. ?dir ! k = NaN \<longrightarrow> (\<forall>d. \<not> np_eq ?dir d ! k)"
    by (simp add: np_eq_def)
  have t1: "tuning_of g (Some ?dv) (Some ?dir) (Some trial_response) =
            tuning_of g (Some ?dv) (Some ?dir) (Some trial_response')"
    by (simp add: tuning_of_Some [OF l(1)] tuning_of_Some [OF l(2)]
        direction_mean_cong [OF same] cong: map_cong)
  have cm: "condition_mean ?tfa ?dir trial_response tf d =
            condition_mean ?tfa ?dir trial_response' tf d" for tf d
    by (rule condition_mean_cong [OF same])
  have t2: "tuning_array_of g2 (Some tfvals) (Some ?dv) (Some ?tfa) (Some ?dir)
                (Some trial_response) =
              tuning_array_of g2 (Some tfvals) (Some ?dv) (Some ?tfa) (Some ?dir)
                (Some trial_response')"
    by (simp only: tuning_array_of_Some [OF l(3,1)] tuning_array_of_Some [OF l(4,2)] cm)
  show ?thesis
    unfolding Let_def
    using set_dirvals_of [of ?dir] sorted_dirvals_of [of ?dir] mask t1 t2
      nan_not_in_trials_of_direction [of ?dir] nan_not_in_trials_of_condition [of ?dir _ ?tfa]
    by (intro conjI) blast+
qed

theorem blank_sweeps_excluded_witness:
  "dirvals_of (direction_of ex_table) = [Fin 0, Fin 270] \<and>
   tuning_of nan_memory (Some (dirvals_of (direction_of ex_table))) (Some (direction_of ex_table))
     (Some [Fin 3, Fin 0, Fin (3 / 2), Fin 6]) =
   Inr [Fin (9 / 2), Fin (3 / 2), NaN, NaN, NaN, NaN, NaN, NaN]"
proof -
  let ?resp = "[Fin 3, Fin 12, Fin (3 / 2), Fin 6]"
  let ?resp' = "[Fin 3, Fin 0, Fin (3 / 2), Fin 6]"
  have l: "length ?resp = length ex_table" "length ?resp' = length ex_table"
    by (simp_all add: ex_table_def)
  have same: "\<forall>k<length ex_table. orientation (ex_table ! k) \<noteq> NaN \<longrightarrow> ?resp ! k = ?resp' ! k"
    by (simp add: ex_table_def ex_row_def less_Suc_eq numeral_eq_Suc)
  have "tuning_of nan_memory (Some (dirvals_of (direction_of ex_table)))
          (Some (direction_of ex_table)) (Some ?resp) =
        tuning_of nan_memory (Some (dirvals_of (direction_of ex_table)))
          (Some (direction_of ex_table)) (Some ?resp')"
    using blank_sweeps_excluded [OF l same, where g = nan_memory]
    unfolding Let_def by blast
  then show ?thesis
    using ex_tuning by (simp add: ex_direction ex_dirvals)
qed

subsection \<open>The z-score\<close>

lemma isfinite_iff: "isfinite x \<longleftrightarrow> (\<exists>r. x = Fin r)"
  by (cases x) simp_all

lemma isfinite_inf_of_sign [simp]: "\<not> isfinite (inf_of_sign s)"
  by (simp add: inf_of_sign_def)

lemma isfinite_fl_add [simp]: "isfinite (fl_add x y) \<longleftrightarrow> isfinite x \<and> isfinite y"
  by (cases x; cases y) simp_all

lemma isfinite_fl_neg [simp]: "isfinite (fl_neg x) \<longleftrightarrow> isfinite x"
  by (cases x) simp_all

lemma isfinite_fl_sub [simp]: "isfinite (fl_sub x y) \<longleftrightarrow> isfinite x \<and> isfinite y"
  by (simp add: fl_sub_def)

lemma isfinite_fl_mul [simp]: "isfinite (fl_mul x y) \<longleftrightarrow> isfinite x \<and> isfinite y"
  by (cases x; cases y) simp_all

lemma isfinite_fl_sqrt: "isfinite (fl_sqrt x) \<Longrightarrow> isfinite x"
  by (cases x) simp_all

lemma isfinite_foldl_add:
  "isfinite (foldl fl_add acc xs) \<longleftrightarrow> isfinite acc \<and> (\<forall>x\<in>set xs. isfinite x)"
  by (induction xs arbitrary: acc) auto

lemma isfinite_np_sum: "isfinite (np_sum xs) \<longleftrightarrow> (\<forall>x\<in>set xs. isfinite x)"
  by (simp add: np_sum_def isfinite_foldl_add)

lemma isfinite_np_mean: "isfinite (np_mean xs) \<longleftrightarrow> xs \<noteq> [] \<and> (\<forall>x\<in>set xs. isfinite x)"
proof (cases "isfinite (np_sum xs)")
  case True
  then obtain r where r: "np_sum xs = Fin r" by (auto simp: isfinite_iff)
  have everyone: "\<forall>x\<in>set xs. isfinite x" using True by (simp add: isfinite_np_sum)
  have "isfinite (np_mean xs) \<longleftrightarrow> xs \<noteq> []" by (simp add: np_mean_def r)
  then show ?thesis using everyone by simp
next
  case False
  then have "\<not> isfinite (np_mean xs)"
    by (cases "np_sum xs") (simp_all add: np_mean_def)
  then show ?thesis using False by (simp add: isfinite_np_sum)
qed

lemma all_finite_map_Fin: "(\<forall>x\<in>set xs. isfinite x) \<Longrightarrow> \<exists>rs. xs = map Fin rs"
proof (induction xs)
  case Nil
  then show ?case by simp
next
  case (Cons x xs)
  then obtain rs r where "xs = map Fin rs" "x = Fin r" by (auto simp: isfinite_iff)
  then have "x # xs = map Fin (r # rs)" by simp
  then show ?case by (rule exI)
qed

lemma foldl_add_Fin: "foldl fl_add (Fin a) (map Fin rs) = Fin (a + sum_list rs)"
  by (induction rs arbitrary: a) (simp_all add: add.assoc)

lemma np_sum_Fin: "np_sum (map Fin rs) = Fin (sum_list rs)"
  by (simp add: np_sum_def foldl_add_Fin)

lemma np_mean_Fin:
  "rs \<noteq> [] \<Longrightarrow> np_mean (map Fin rs) = Fin (sum_list rs / real (length rs))"
  by (simp add: np_mean_def np_sum_Fin)

lemma variance_nonneg: "0 \<le> variance rs"
proof -
  have "0 \<le> sum_list (map (\<lambda>r. (r - c) * (r - c)) rs)" for c
    by (rule sum_list_nonneg) auto
  then show ?thesis by (simp add: variance_def)
qed

lemma np_std_Fin:
  assumes "rs \<noteq> []"
  shows "np_std (map Fin rs) = Fin (sqrt (variance rs))"
proof -
  let ?m = "sum_list rs / real (length rs)"
  let ?g = "\<lambda>r. (r - ?m) * (r - ?m)"
  have sq: "map (\<lambda>v. fl_mul v v) (map (\<lambda>v. fl_sub v (Fin ?m)) (map Fin rs)) =
        map Fin (map ?g rs)"
    by (simp add: fl_sub_def)
  have "np_mean (map Fin (map ?g rs)) = Fin (sum_list (map ?g rs) / real (length (map ?g rs)))"
    using assms by (intro np_mean_Fin) simp
  then have "np_mean (map (\<lambda>v. fl_mul v v) (map (\<lambda>v. fl_sub v (Fin ?m)) (map Fin rs))) =
        Fin (variance rs)"
    by (simp only: sq variance_def length_map)
  then show ?thesis
    using assms variance_nonneg [of rs]
    by (simp add: np_std_def Let_def np_mean_Fin)
qed

lemma np_std_finite:
  assumes "isfinite (np_std xs)"
  shows "xs \<noteq> [] \<and> (\<forall>x\<in>set xs. isfinite x)"
proof -
  have "isfinite (np_mean (map (\<lambda>v. fl_mul v v) (map (\<lambda>v. fl_sub v (np_mean xs)) xs)))"
    using assms by (auto simp: np_std_def Let_def dest: isfinite_fl_sqrt)
  then show ?thesis by (auto simp: isfinite_np_mean)
qed

lemma sum_list_divide_const:
  "sum_list (map (\<lambda>r. f r / d) rs) = sum_list (map f rs) / (d :: real)"
  by (induction rs) (simp_all add: add_divide_distrib)

lemma sum_list_shift:
  "sum_list (map (\<lambda>r. r - c) rs) = sum_list rs - real (length rs) * c"
  by (induction rs) (simp_all add: algebra_simps)

lemma z_score_real:
  assumes "rs \<noteq> []" and "sqrt (variance rs) \<noteq> 0"
  defines "m \<equiv> sum_list rs / real (length rs)"
  defines "s \<equiv> sqrt (variance rs)"
  defines "zs \<equiv> map (\<lambda>r. (r - m) / s) rs"
  shows "sum_list zs / real (length zs) = 0" and "variance zs = 1"
proof -
  have n: "real (length rs) \<noteq> 0" using assms(1) by simp
  have s2: "s * s = variance rs"
    unfolding s_def using variance_nonneg [of rs] by simp
  have v0: "variance rs \<noteq> 0" using assms(2) by auto
  have "sum_list zs = sum_list (map (\<lambda>r. r - m) rs) / s"
    unfolding zs_def by (rule sum_list_divide_const)
  also have "\<dots> = (sum_list rs - real (length rs) * m) / s"
    by (simp only: sum_list_shift)
  also have "\<dots> = 0" using n by (simp add: m_def)
  finally have sz: "sum_list zs = 0" .
  then show "sum_list zs / real (length zs) = 0" by simp
  have e: "map (\<lambda>z. z * z) zs = map (\<lambda>r. ((r - m) * (r - m)) / (s * s)) rs"
    by (simp only: zs_def map_map comp_def times_divide_times_eq)
  have "variance zs = sum_list (map (\<lambda>z. z * z) zs) / real (length zs)"
    by (simp add: variance_def sz)
  also have "sum_list (map (\<lambda>z. z * z) zs) = sum_list (map (\<lambda>r. (r - m) * (r - m)) rs) / (s * s)"
    by (simp only: e sum_list_divide_const)
  also have "\<dots> / real (length zs) = variance rs / (s * s)"
    by (simp add: variance_def zs_def m_def)
  also have "\<dots> = 1" using s2 v0 by simp
  finally show "variance zs = 1" .
qed

lemma concat_tuning_array_z_of:
  "concat (tuning_array_z_of a) =
   map (\<lambda>x. fl_div (fl_sub x (np_mean (concat a))) (np_std (concat a))) (concat a)"
  by (simp add: tuning_array_z_of_def Let_def map_concat)

text \<open>
  On the exact finite values of this model, the z-score of an array whose standard
  deviation is a finite number other than zero has mean 0 and standard deviation 1. This
  is a fact about the formula: the rounded arithmetic of numpy is not bound by it.
\<close>

lemma z_score_mean_std:
  assumes "np_std (concat a) = Fin r" and "r \<noteq> 0"
  shows "np_mean (concat (tuning_array_z_of a)) = Fin 0"
    and "np_std (concat (tuning_array_z_of a)) = Fin 1"
proof -
  have "isfinite (np_std (concat a))" using assms(1) by simp
  from np_std_finite [OF this]
  have ne0: "concat a \<noteq> []" and fin: "\<forall>x\<in>set (concat a). isfinite x"
    by blast+
  from all_finite_map_Fin [OF fin] obtain rs where rs: "concat a = map Fin rs"
    by blast
  have ne: "rs \<noteq> []" using ne0 unfolding rs by simp
  let ?m = "sum_list rs / real (length rs)"
  let ?s = "sqrt (variance rs)"
  let ?zs = "map (\<lambda>r. (r - ?m) / ?s) rs"
  have s: "np_std (concat a) = Fin ?s" by (simp add: rs np_std_Fin [OF ne])
  then have s0: "?s \<noteq> 0" using assms by simp
  have m: "np_mean (concat a) = Fin ?m" by (simp add: rs np_mean_Fin [OF ne])
  have z: "concat (tuning_array_z_of a) = map Fin ?zs"
    unfolding concat_tuning_array_z_of s m
    using s0 by (simp add: rs fl_sub_def)
  have zne: "?zs \<noteq> []" using ne by simp
  show "np_mean (concat (tuning_array_z_of a)) = Fin 0"
    unfolding z np_mean_Fin [OF zne] using z_score_real(1) [OF ne s0] by simp
  show "np_std (concat (tuning_array_z_of a)) = Fin 1"
    unfolding z np_std_Fin [OF zne] using z_score_real(2) [OF ne s0] by simp
qed

text \<open>
  A value that is not finite spreads: a NaN makes every sum that contains it NaN, and an
  infinity among the elements makes the mean that infinity or NaN, so that the deviation
  of some element from the mean is NaN, and with it the standard deviation.
\<close>

lemma foldl_add_NaN: "foldl fl_add NaN xs = NaN"
  by (induction xs) simp_all

lemma fl_add_NaN_right [simp]: "fl_add x NaN = NaN"
  by (cases x) simp_all

lemma fl_div_NaN_right [simp]: "fl_div x NaN = NaN"
  by (cases x) simp_all

lemma fl_sub_NaN_right [simp]: "fl_sub x NaN = NaN"
  by (simp add: fl_sub_def)

lemma foldl_add_NaN_mem: "NaN \<in> set xs \<Longrightarrow> foldl fl_add acc xs = NaN"
  by (induction xs arbitrary: acc) (auto simp: foldl_add_NaN)

lemma np_mean_NaN_mem: "NaN \<in> set xs \<Longrightarrow> np_mean xs = NaN"
  by (simp add: np_mean_def np_sum_def foldl_add_NaN_mem)

lemma fl_add_PInf: "fl_add x y = PInf \<Longrightarrow> x = PInf \<or> y = PInf"
  by (cases x; cases y) simp_all

lemma fl_add_NInf: "fl_add x y = NInf \<Longrightarrow> x = NInf \<or> y = NInf"
  by (cases x; cases y) simp_all

lemma foldl_add_PInf: "foldl fl_add acc xs = PInf \<Longrightarrow> acc = PInf \<or> PInf \<in> set xs"
proof (induction xs arbitrary: acc)
  case Nil
  then show ?case by simp
next
  case (Cons x xs)
  then have "fl_add acc x = PInf \<or> PInf \<in> set xs" by simp
  then show ?case using fl_add_PInf [of acc x] by auto
qed

lemma foldl_add_NInf: "foldl fl_add acc xs = NInf \<Longrightarrow> acc = NInf \<or> NInf \<in> set xs"
proof (induction xs arbitrary: acc)
  case Nil
  then show ?case by simp
next
  case (Cons x xs)
  then have "fl_add acc x = NInf \<or> NInf \<in> set xs" by simp
  then show ?case using fl_add_NInf [of acc x] by auto
qed

lemma np_mean_infinite:
  assumes "np_mean xs = PInf \<or> np_mean xs = NInf"
  shows "np_mean xs \<in> set xs"
proof -
  have ne: "xs \<noteq> []" using assms by (auto simp: np_mean_Nil)
  then have n: "0 < real (length xs)" by simp
  show ?thesis
  proof (cases "np_sum xs")
    case (Fin r)
    then show ?thesis using assms n by (simp add: np_mean_def)
  next
    case PInf
    then have "np_mean xs = PInf" using n by (simp add: np_mean_def inf_of_sign_def)
    moreover have "PInf \<in> set xs" using foldl_add_PInf [of "Fin 0" xs] PInf
      by (simp add: np_sum_def)
    ultimately show ?thesis by simp
  next
    case NInf
    then have "np_mean xs = NInf" using n by (simp add: np_mean_def inf_of_sign_def)
    moreover have "NInf \<in> set xs" using foldl_add_NInf [of "Fin 0" xs] NInf
      by (simp add: np_sum_def)
    ultimately show ?thesis by simp
  next
    case NaN
    then show ?thesis using assms by (simp add: np_mean_def)
  qed
qed

lemma deviation_NaN:
  assumes "x \<in> set xs" and "\<not> isfinite x"
  shows "\<exists>v\<in>set xs. fl_sub v (np_mean xs) = NaN"
proof (cases "np_mean xs")
  case (Fin r)
  then have "isfinite (np_mean xs)" by simp
  then show ?thesis using assms by (simp add: isfinite_np_mean)
next
  case PInf
  then have "PInf \<in> set xs" using np_mean_infinite [of xs] by simp
  then show ?thesis unfolding PInf by (rule bexI [rotated]) (simp add: fl_sub_def)
next
  case NInf
  then have "NInf \<in> set xs" using np_mean_infinite [of xs] by simp
  then show ?thesis unfolding NInf by (rule bexI [rotated]) (simp add: fl_sub_def)
next
  case NaN
  show ?thesis unfolding NaN using assms(1) by (rule bexI [rotated]) simp
qed

lemma np_std_not_finite:
  assumes "x \<in> set xs" and "\<not> isfinite x"
  shows "np_std xs = NaN"
proof -
  from deviation_NaN [OF assms] obtain v where v: "v \<in> set xs" "fl_sub v (np_mean xs) = NaN"
    by blast
  have "fl_mul (fl_sub v (np_mean xs)) (fl_sub v (np_mean xs)) = NaN"
    by (simp add: v(2))
  then have "NaN \<in> set (map (\<lambda>v. fl_mul v v) (map (\<lambda>v. fl_sub v (np_mean xs)) xs))"
    using v(1) by (force simp: image_iff)
  then have "np_mean (map (\<lambda>v. fl_mul v v) (map (\<lambda>v. fl_sub v (np_mean xs)) xs)) = NaN"
    by (rule np_mean_NaN_mem)
  then show ?thesis by (simp add: np_std_def Let_def)
qed

lemma z_score_not_finite:
  assumes "x \<in> set (concat a)" and "\<not> isfinite x"
  shows "np_std (concat a) = NaN"
    and "tuning_array_z_of a = map (map (\<lambda>x. NaN)) a"
    and "np_mean (concat (tuning_array_z_of a)) = NaN"
    and "np_std (concat (tuning_array_z_of a)) = NaN"
proof -
  show s: "np_std (concat a) = NaN" by (rule np_std_not_finite [OF assms])
  show z: "tuning_array_z_of a = map (map (\<lambda>x. NaN)) a"
    by (simp add: tuning_array_z_of_def Let_def s)
  have "concat (tuning_array_z_of a) = map (\<lambda>x. NaN) (concat a)"
    by (simp add: z map_concat)
  then have mem: "NaN \<in> set (concat (tuning_array_z_of a))"
    using assms(1) by (force simp: image_iff)
  show "np_mean (concat (tuning_array_z_of a)) = NaN"
    using mem by (rule np_mean_NaN_mem)
  show "np_std (concat (tuning_array_z_of a)) = NaN"
    using mem by (rule np_std_not_finite) simp
qed





subsection \<open>The inputs are not changed\<close>

text \<open>
  In memory, every cell writes only to arrays it has allocated itself: an assignment of
  a new array takes a fresh address, and the three stores of the notebook go through the
  names \<^verbatim>\<open>trial_response\<close>, \<^verbatim>\<open>tuning\<close> and \<^verbatim>\<open>tuning_array\<close>, which the same cell has just bound
  to a new array.
\<close>

lemma assign_view_fields [simp]:
  "heap (assign_view name p s) = heap s"
  "next_addr (assign_view name p s) = next_addr s"
  "globals (assign_view name p s) = (globals s)(name \<mapsto> p)"
  "a_dff_trace (assign_view name p s) = a_dff_trace s"
  "a_start (assign_view name p s) = a_start s"
  "a_end (assign_view name p s) = a_end s"
  "a_orientation (assign_view name p s) = a_orientation s"
  "a_temporal_frequency (assign_view name p s) = a_temporal_frequency s"
  "a_blank_sweep (assign_view name p s) = a_blank_sweep s"
  by (simp_all add: assign_view_def)

lemma assign_new_fields [simp]:
  "heap (assign_new name x s) = (heap s)(next_addr s \<mapsto> x)"
  "next_addr (assign_new name x s) = Suc (next_addr s)"
  "globals (assign_new name x s) = (globals s)(name \<mapsto> next_addr s)"
  "a_dff_trace (assign_new name x s) = a_dff_trace s"
  "a_start (assign_new name x s) = a_start s"
  "a_end (assign_new name x s) = a_end s"
  "a_orientation (assign_new name x s) = a_orientation s"
  "a_temporal_frequency (assign_new name x s) = a_temporal_frequency s"
  "a_blank_sweep (assign_new name x s) = a_blank_sweep s"
  by (simp_all add: assign_new_def)

lemma unchanged_below_refl: "unchanged_below b s s"
  by (simp add: unchanged_below_def)

lemma unchanged_below_trans:
  "unchanged_below b s s1 \<Longrightarrow> unchanged_below b s1 s2 \<Longrightarrow> unchanged_below b s s2"
  by (simp add: unchanged_below_def)

lemma assign_new_frame:
  "b \<le> next_addr s \<Longrightarrow> unchanged_below b s (assign_new name x s)"
  by (simp add: unchanged_below_def inputs_of_def)

lemma assign_view_frame: "unchanged_below b s (assign_view name p s)"
  by (simp add: unchanged_below_def inputs_of_def)

lemma store_float_frame:
  assumes "store_float name i v s = Inr s'" and "fresh_var b name s"
  shows "unchanged_below b s s' \<and> globals s' = globals s \<and> next_addr s' = next_addr s"
  using assms
  by (auto simp: store_float_def var_addr_def then_do_def lookup_def fresh_var_def
      unchanged_below_def inputs_of_def split: sum.splits option.splits)

lemma store_float2_frame:
  assumes "store_float2 name j i v s = Inr s'" and "fresh_var b name s"
  shows "unchanged_below b s s' \<and> globals s' = globals s \<and> next_addr s' = next_addr s"
  using assms
  by (auto simp: store_float2_def var_addr_def then_do_def lookup_def fresh_var_def
      unchanged_below_def inputs_of_def split: sum.splits option.splits)

lemma select_trials_frame:
  assumes "select_trials_mem m s = Inr (v, s')" and "b \<le> next_addr s"
  shows "unchanged_below b s s' \<and> globals s' = (globals s)(''trials'' \<mapsto> next_addr s) \<and>
         next_addr s' = Suc (next_addr s)"
proof -
  have "s' = assign_new ''trials'' (Bools m) s"
    using assms(1) by (auto simp: select_trials_mem_def Let_def then_do_def split: sum.splits)
  then show ?thesis using assign_new_frame [OF assms(2)] by simp
qed

lemma direction_average_frame:
  assumes "direction_average_mem d s = Inr (v, s')" and "b \<le> next_addr s"
  shows "unchanged_below b s s' \<and> globals s' = (globals s)(''trials'' \<mapsto> next_addr s) \<and>
         next_addr s' = Suc (next_addr s)"
  using assms
  by (auto simp: direction_average_mem_def then_do_def dest: select_trials_frame
      split: sum.splits)

lemma fresh_var_trials:
  assumes "fresh_var b name s" and "name \<noteq> ''trials''"
    and "globals s' = (globals s)(''trials'' \<mapsto> next_addr s)" and "next_addr s' = Suc (next_addr s)"
  shows "fresh_var b name s'"
  using assms by (auto simp: fresh_var_def)

lemma fresh_var_same:
  assumes "fresh_var b name s" and "globals s' = globals s" and "next_addr s' = next_addr s"
  shows "fresh_var b name s'"
  using assms by (simp add: fresh_var_def)


lemma trial_response_body_frame:
  assumes "trial_response_body_mem i s = Inr s'" and "fresh_var b ''trial_response'' s"
  shows "unchanged_below b s s' \<and> fresh_var b ''trial_response'' s'"
proof -
  from assms(1) obtain v where "store_float ''trial_response'' i v s = Inr s'"
    by (auto simp: trial_response_body_mem_def then_do_def split: sum.splits if_splits)
  from store_float_frame [OF this assms(2)] show ?thesis
    using assms(2) by (simp add: fresh_var_same)
qed

lemma trial_response_loop_frame:
  assumes "trial_response_loop_mem is s = Inr s'" and "fresh_var b ''trial_response'' s"
  shows "unchanged_below b s s'"
  using assms
proof (induction "is" arbitrary: s)
  case Nil
  then show ?case by (simp add: unchanged_below_refl)
next
  case (Cons i "is")
  from Cons.prems(1) obtain s1 where b: "trial_response_body_mem i s = Inr s1"
    and r: "trial_response_loop_mem is s1 = Inr s'"
    by (auto split: sum.splits)
  from trial_response_body_frame [OF b Cons.prems(2)]
  have "unchanged_below b s s1" and "fresh_var b ''trial_response'' s1" by simp_all
  then show ?case using Cons.IH [OF r] unchanged_below_trans by blast
qed

lemma trial_response_loop_globals:
  "trial_response_loop_mem is s = Inr s' \<Longrightarrow> globals s' = globals s"
proof (induction "is" arbitrary: s)
  case Nil
  then show ?case by simp
next
  case (Cons i "is")
  from Cons.prems obtain s1 where b: "trial_response_body_mem i s = Inr s1"
    and r: "trial_response_loop_mem is s1 = Inr s'"
    by (auto split: sum.splits)
  from b have "globals s1 = globals s"
    by (auto simp: trial_response_body_mem_def store_float_def then_do_def
        split: sum.splits if_splits)
  then show ?case using Cons.IH [OF r] by simp
qed

lemma fresh_var_assign_new:
  "b \<le> next_addr s \<Longrightarrow> fresh_var b name (assign_new name x s)"
  by (simp add: fresh_var_def)

lemma cell_37_frame:
  assumes "cell_37_mem s = Inr s'" and "b \<le> next_addr s"
  shows "unchanged_below b s s'"
proof -
  let ?s2 = "assign_view ''temporal_frequency'' (a_temporal_frequency s)
               (assign_view ''direction'' (a_orientation s) s)"
  from assms(1) obtain starts :: "int list" where
    r: "trial_response_loop_mem [0..<length starts]
          (assign_new ''trial_response'' (Floats (np_zeros (length starts))) ?s2) = Inr s'"
    by (auto simp: cell_37_mem_def Let_def then_do_def split: sum.splits)
  have n: "b \<le> next_addr ?s2" using assms(2) by simp
  have "unchanged_below b s ?s2"
    using assign_view_frame unchanged_below_trans by blast
  moreover have "unchanged_below b ?s2
      (assign_new ''trial_response'' (Floats (np_zeros (length starts))) ?s2)"
    by (rule assign_new_frame [OF n])
  moreover have "unchanged_below b
      (assign_new ''trial_response'' (Floats (np_zeros (length starts))) ?s2) s'"
    by (rule trial_response_loop_frame [OF r fresh_var_assign_new [OF n]])
  ultimately show ?thesis using unchanged_below_trans by blast
qed

lemma cell_45_frame:
  assumes "cell_45_mem s = Inr s'" and "b \<le> next_addr s"
  shows "unchanged_below b s s'"
proof -
  from assms(1) obtain v where "direction_average_mem (Fin 270) s = Inr (v, s')"
    by (auto simp: cell_45_mem_def then_do_def split: sum.splits)
  from direction_average_frame [OF this assms(2)] show ?thesis by simp
qed

lemma cell_47_frame:
  assumes "cell_47_mem s = Inr s'" and "b \<le> next_addr s"
  shows "unchanged_below b s s'"
proof -
  from assms(1) obtain x y where
    s': "s' = assign_new ''dirvals'' y (assign_new ''all_dir'' x s)"
    by (auto simp: cell_47_mem_def Let_def then_do_def split: sum.splits)
  have "b \<le> next_addr (assign_new ''all_dir'' x s)"
    using assms(2) by simp
  from assign_new_frame [OF assms(2)] assign_new_frame [OF this]
  show ?thesis unfolding s' using unchanged_below_trans by blast
qed

lemma tuning_body_frame:
  assumes "tuning_body_mem i d s = Inr s'" and "fresh_var b ''tuning'' s"
  shows "unchanged_below b s s' \<and> fresh_var b ''tuning'' s'"
proof -
  from assms(1) obtain v s1 where a: "direction_average_mem d s = Inr (v, s1)"
    and st: "store_float ''tuning'' i v s1 = Inr s'"
    by (auto simp: tuning_body_mem_def then_do_def split: sum.splits)
  have n: "b \<le> next_addr s" using assms(2) by (simp add: fresh_var_def)
  note f1 = direction_average_frame [OF a n]
  have fr: "fresh_var b ''tuning'' s1"
    using fresh_var_trials [OF assms(2)] f1 by simp
  note f2 = store_float_frame [OF st fr]
  have "fresh_var b ''tuning'' s'"
    using fresh_var_same [OF fr] f2 by simp
  then show ?thesis using f1 f2 unchanged_below_trans by blast
qed

lemma tuning_loop_frame:
  assumes "tuning_loop_mem it is s = Inr s'" and "fresh_var b ''tuning'' s"
  shows "unchanged_below b s s'"
  using assms
proof (induction "is" arbitrary: s)
  case Nil
  then show ?case by (simp add: unchanged_below_refl)
next
  case (Cons i "is")
  show ?case
  proof (cases "\<exists>dv. read_floats s it = Inr dv \<and> i < length dv")
    case True
    then obtain dv s1 where b: "tuning_body_mem i (dv ! i) s = Inr s1"
      and r: "tuning_loop_mem it is s1 = Inr s'"
      using Cons.prems(1) by (auto split: sum.splits)
    from tuning_body_frame [OF b Cons.prems(2)]
    have "unchanged_below b s s1" and "fresh_var b ''tuning'' s1" by simp_all
    then show ?thesis using Cons.IH [OF r] unchanged_below_trans by blast
  next
    case False
    then have "s' = s" using Cons.prems(1) by (auto split: sum.splits if_splits)
    then show ?thesis by (simp add: unchanged_below_refl)
  qed
qed

lemma cell_52_frame:
  assumes "cell_52_mem g s = Inr s'" and "b \<le> next_addr s"
  shows "unchanged_below b s s'"
proof -
  let ?s1 = "assign_new ''tuning'' (Floats (np_empty g 8)) s"
  from assms(1) obtain it "is" where r: "tuning_loop_mem it is ?s1 = Inr s'"
    by (auto simp: cell_52_mem_def Let_def then_do_def split: sum.splits)
  from assign_new_frame [OF assms(2)]
    tuning_loop_frame [OF r fresh_var_assign_new [OF assms(2)]]
  show ?thesis using unchanged_below_trans by blast
qed

lemma tuning_array_body_frame:
  assumes "tuning_array_body_mem i tf j d s = Inr s'" and "fresh_var b ''tuning_array'' s"
  shows "unchanged_below b s s' \<and> fresh_var b ''tuning_array'' s'"
proof -
  from assms(1) obtain m v s1 where a: "select_trials_mem m s = Inr (v, s1)"
    and st: "store_float2 ''tuning_array'' j i v s1 = Inr s'"
    by (auto simp: tuning_array_body_mem_def then_do_def split: sum.splits)
  have n: "b \<le> next_addr s" using assms(2) by (simp add: fresh_var_def)
  note f1 = select_trials_frame [OF a n]
  have fr: "fresh_var b ''tuning_array'' s1"
    using fresh_var_trials [OF assms(2)] f1 by simp
  note f2 = store_float2_frame [OF st fr]
  have "fresh_var b ''tuning_array'' s'"
    using fresh_var_same [OF fr] f2 by simp
  then show ?thesis using f1 f2 unchanged_below_trans by blast
qed

lemma tuning_array_inner_frame:
  assumes "tuning_array_inner_mem i tf it js s = Inr s'" and "fresh_var b ''tuning_array'' s"
  shows "unchanged_below b s s' \<and> fresh_var b ''tuning_array'' s'"
  using assms
proof (induction js arbitrary: s)
  case Nil
  then show ?case by (simp add: unchanged_below_refl)
next
  case (Cons j js)
  show ?case
  proof (cases "\<exists>dv. read_floats s it = Inr dv \<and> j < length dv")
    case True
    then obtain dv s1 where b: "tuning_array_body_mem i tf j (dv ! j) s = Inr s1"
      and r: "tuning_array_inner_mem i tf it js s1 = Inr s'"
      using Cons.prems(1) by (auto split: sum.splits)
    from tuning_array_body_frame [OF b Cons.prems(2)]
    have "unchanged_below b s s1" and f: "fresh_var b ''tuning_array'' s1" by simp_all
    then show ?thesis using Cons.IH [OF r f] unchanged_below_trans by blast
  next
    case False
    then have "s' = s" using Cons.prems(1) by (auto split: sum.splits if_splits)
    then show ?thesis using Cons.prems(2) by (simp add: unchanged_below_refl)
  qed
qed

lemma tuning_array_inner_start_frame:
  assumes "tuning_array_inner_start i tf s = Inr s'" and "fresh_var b ''tuning_array'' s"
  shows "unchanged_below b s s' \<and> fresh_var b ''tuning_array'' s'"
proof -
  from assms(1) obtain it js where "tuning_array_inner_mem i tf it js s = Inr s'"
    by (auto simp: tuning_array_inner_start_def then_do_def split: sum.splits)
  from tuning_array_inner_frame [OF this assms(2)] show ?thesis .
qed

lemma tuning_array_outer_frame:
  assumes "tuning_array_outer_mem it is s = Inr s'" and "fresh_var b ''tuning_array'' s"
  shows "unchanged_below b s s'"
  using assms
proof (induction "is" arbitrary: s)
  case Nil
  then show ?case by (simp add: unchanged_below_refl)
next
  case (Cons i "is")
  show ?case
  proof (cases "\<exists>tfv. read_floats s it = Inr tfv \<and> i < length tfv")
    case True
    then obtain tfv s1 where b: "tuning_array_inner_start i (tfv ! i) s = Inr s1"
      and r: "tuning_array_outer_mem it is s1 = Inr s'"
      using Cons.prems(1) by (auto split: sum.splits)
    from tuning_array_inner_start_frame [OF b Cons.prems(2)]
    have "unchanged_below b s s1" and f: "fresh_var b ''tuning_array'' s1" by simp_all
    then show ?thesis using Cons.IH [OF r f] unchanged_below_trans by blast
  next
    case False
    then have "s' = s" using Cons.prems(1) by (auto split: sum.splits if_splits)
    then show ?thesis by (simp add: unchanged_below_refl)
  qed
qed

lemma cell_71_frame:
  assumes "cell_71_mem g s = Inr s'" and "b \<le> next_addr s"
  shows "unchanged_below b s s'"
proof -
  let ?s1 = "assign_new ''tuning_array'' (Floats2 (np_empty2 g 8 5)) s"
  from assms(1) obtain it "is" where r: "tuning_array_outer_mem it is ?s1 = Inr s'"
    by (auto simp: cell_71_mem_def Let_def then_do_def split: sum.splits)
  from assign_new_frame [OF assms(2)]
    tuning_array_outer_frame [OF r fresh_var_assign_new [OF assms(2)]]
  show ?thesis using unchanged_below_trans by blast
qed

lemma cell_80_frame:
  assumes "cell_80_mem s = Inr s'" and "b \<le> next_addr s"
  shows "unchanged_below b s s'"
proof -
  from assms(1) obtain x where "s' = assign_new ''tuning_array_z'' x s"
    by (auto simp: cell_80_mem_def then_do_def split: sum.splits)
  then show ?thesis using assign_new_frame [OF assms(2)] by simp
qed

lemma cell_frame:
  assumes "c \<in> set (aggregation_cells_mem g g2)" and "c s = Inr s'" and "b \<le> next_addr s"
  shows "unchanged_below b s s'"
  using assms cell_37_frame cell_45_frame cell_47_frame cell_52_frame cell_71_frame cell_80_frame
  by (auto simp: aggregation_cells_mem_def)

lemma run_cells_frame:
  assumes "set cs \<subseteq> set (aggregation_cells_mem g g2)" and "run_cells_mem cs s = Inr s'"
    and "b \<le> next_addr s"
  shows "unchanged_below b s s'"
  using assms
proof (induction cs arbitrary: s)
  case Nil
  then show ?case by (simp add: unchanged_below_refl)
next
  case (Cons c cs)
  from Cons.prems(2) obtain s1 where c: "c s = Inr s1" and r: "run_cells_mem cs s1 = Inr s'"
    by (auto split: sum.splits)
  have "c \<in> set (aggregation_cells_mem g g2)" using Cons.prems(1) by simp
  from cell_frame [OF this c Cons.prems(3)] have f: "unchanged_below b s s1" .
  then have "b \<le> next_addr s1" using Cons.prems(3) by (simp add: unchanged_below_def)
  from Cons.IH [OF _ r this] Cons.prems(1) have "unchanged_below b s1 s'" by simp
  with f show ?case using unchanged_below_trans by blast
qed

text \<open>
  A program over this memory can change its inputs. After cell 37 the name \<^verbatim>\<open>direction\<close>
  stands for the column \<^verbatim>\<open>orientation\<close> itself, and a store through it, which no cell of
  the notebook makes, changes the column of the table.
\<close>

lemma direction_is_view:
  assumes "cell_37_mem s = Inr s'"
  shows "globals s' ''direction'' = Some (a_orientation s)"
proof -
  let ?s2 = "assign_view ''temporal_frequency'' (a_temporal_frequency s)
               (assign_view ''direction'' (a_orientation s) s)"
  from assms obtain starts :: "int list" where
    r: "trial_response_loop_mem [0..<length starts]
          (assign_new ''trial_response'' (Floats (np_zeros (length starts))) ?s2) = Inr s'"
    by (auto simp: cell_37_mem_def Let_def then_do_def split: sum.splits)
  have "globals s' = globals (assign_new ''trial_response'' (Floats (np_zeros (length starts))) ?s2)"
    by (rule trial_response_loop_globals [OF r])
  then show ?thesis by simp
qed

lemma store_through_view:
  assumes "globals s ''direction'' = Some (a_orientation s)"
    and "heap s (a_orientation s) = Some (Floats xs)" and "i < length xs"
  shows "\<exists>s'. store_float ''direction'' i v s = Inr s' \<and>
              heap s' (a_orientation s') = Some (Floats (xs[i := v]))"
  using assms by (simp add: store_float_def var_addr_def read_floats_def np_set_def)

text \<open>
  C6. Whatever computing cells run, in whatever order and from whatever state in which
  the trace and the columns of the stimulus table are at allocated addresses, when they
  finish the trace and every column of the table are at the address where they were and
  hold what they held; indeed no array that existed before the run has changed.
\<close>

theorem aggregation_keeps_inputs:
  assumes "set cs \<subseteq> set (aggregation_cells_mem g g2)"
    and "run_cells_mem cs s = Inr s'"
    and "\<forall>p\<in>set (inputs_of s). p < next_addr s"
  shows "inputs_of s' = inputs_of s \<and>
         heap s' (a_dff_trace s') = heap s (a_dff_trace s) \<and>
         heap s' (a_start s') = heap s (a_start s) \<and>
         heap s' (a_end s') = heap s (a_end s) \<and>
         heap s' (a_orientation s') = heap s (a_orientation s) \<and>
         heap s' (a_temporal_frequency s') = heap s (a_temporal_frequency s) \<and>
         heap s' (a_blank_sweep s') = heap s (a_blank_sweep s) \<and>
         (\<forall>p<next_addr s. heap s' p = heap s p)"
proof -
  have "unchanged_below (next_addr s) s s'"
    by (rule run_cells_frame [OF assms(1,2)]) simp
  then have same: "inputs_of s' = inputs_of s" and below: "\<forall>p<next_addr s. heap s' p = heap s p"
    by (simp_all add: unchanged_below_def)
  from same have "a_dff_trace s' = a_dff_trace s" "a_start s' = a_start s" "a_end s' = a_end s"
    "a_orientation s' = a_orientation s" "a_temporal_frequency s' = a_temporal_frequency s"
    "a_blank_sweep s' = a_blank_sweep s"
    by (simp_all add: inputs_of_def)
  moreover have "a_dff_trace s < next_addr s" "a_start s < next_addr s" "a_end s < next_addr s"
    "a_orientation s < next_addr s" "a_temporal_frequency s < next_addr s"
    "a_blank_sweep s < next_addr s"
    using assms(3) by (simp_all add: inputs_of_def)
  ultimately show ?thesis using same below by simp
qed

text \<open>
  The run of all the cells on the example data in memory: it finishes, with the arrays
  that the functions above compute at the new addresses 7 to 17.
\<close>

lemmas mem_defs = cell_37_mem_def cell_45_mem_def cell_47_mem_def cell_52_mem_def
  cell_71_mem_def cell_80_mem_def assign_view_def assign_new_def read_ints_def
      read_floats_def read_bools_def read_floats2_def trial_response_body_mem_def
      store_float_def store_float2_def var_addr_def np_set_def np_set2_def np_zeros_def
      select_trials_mem_def direction_average_mem_def tuning_body_mem_def
      tuning_array_body_mem_def tuning_array_inner_start_def aggregation_cells_mem_def

lemma ex_tuning_array_z:
  "tuning_array_z_of
     [[Fin (9 / 2), NaN, NaN, NaN, NaN], [Fin (3 / 2), NaN, NaN, NaN, NaN],
      [NaN, NaN, NaN, NaN, NaN], [NaN, NaN, NaN, NaN, NaN], [NaN, NaN, NaN, NaN, NaN],
      [NaN, NaN, NaN, NaN, NaN], [NaN, NaN, NaN, NaN, NaN], [NaN, NaN, NaN, NaN, NaN]] =
   replicate 8 (replicate 5 NaN)"
proof -
  have "NaN \<in> set (concat
     [[Fin (9 / 2), NaN, NaN, NaN, NaN], [Fin (3 / 2), NaN, NaN, NaN, NaN],
      [NaN, NaN, NaN, NaN, NaN], [NaN, NaN, NaN, NaN, NaN], [NaN, NaN, NaN, NaN, NaN],
      [NaN, NaN, NaN, NaN, NaN], [NaN, NaN, NaN, NaN, NaN], [NaN, NaN, NaN, NaN, NaN]])"
    by simp
  from z_score_not_finite(2) [OF this] show ?thesis by (simp add: eval_nat_numeral)
qed

lemma ex_run_mem:
  "\<exists>s'. run_cells_mem (aggregation_cells_mem nan_memory nan_memory2) ex_notebook = Inr s' \<and>
     globals s' ''direction'' = Some 3 \<and>
     globals s' ''trial_response'' = Some 7 \<and>
     heap s' 7 = Some (Floats [Fin 3, Fin 12, Fin (3 / 2), Fin 6]) \<and>
     globals s' ''dirvals'' = Some 10 \<and>
     heap s' 10 = Some (Floats [Fin 0, Fin 270]) \<and>
     globals s' ''tuning'' = Some 11 \<and>
     heap s' 11 = Some (Floats [Fin (9 / 2), Fin (3 / 2), NaN, NaN, NaN, NaN, NaN, NaN]) \<and>
     globals s' ''tuning_array'' = Some 14 \<and>
     heap s' 14 = Some (Floats2 ([Fin (9 / 2), NaN, NaN, NaN, NaN] #
          [Fin (3 / 2), NaN, NaN, NaN, NaN] # replicate 6 (replicate 5 NaN))) \<and>
     globals s' ''tuning_array_z'' = Some 17 \<and>
     heap s' 17 = Some (Floats2 (replicate 8 (replicate 5 NaN))) \<and>
     next_addr s' = 18"
  by (simp add: mem_defs ex_notebook_def load_notebook_def ex_table_def ex_row_def ex_trace_def
      py_slice_def slice_bound_def np_mean_def np_sum_def upt_rec Let_def np_eq_def np_and_def
      bool_index_def np_unique_def finite_values_def np_empty_def np_empty2_def
      nan_memory_def nan_memory2_def ex_tuning_array_z eval_nat_numeral)

text \<open>
  Without a binding of \<^verbatim>\<open>tfvals\<close>, as the notebook ships, the run in memory ends at cell 71
  as the run of the functions does.
\<close>

lemma ex_run_mem_as_shipped:
  "run_cells_mem (aggregation_cells_mem nan_memory nan_memory2)
     (load_notebook ex_trace ex_table) = Inl (NameError ''tfvals'')"
  by (simp add: mem_defs ex_notebook_def load_notebook_def ex_table_def ex_row_def ex_trace_def
      py_slice_def slice_bound_def np_mean_def np_sum_def upt_rec Let_def np_eq_def np_and_def
      bool_index_def np_unique_def finite_values_def np_empty_def np_empty2_def
      nan_memory_def nan_memory2_def eval_nat_numeral)

theorem aggregation_keeps_inputs_witness:
  "\<exists>s'. run_cells_mem (aggregation_cells_mem nan_memory nan_memory2) ex_notebook = Inr s' \<and>
        globals s' ''direction'' = Some 3 \<and>
        heap s' 0 = Some (Floats [Fin 1, Fin 2, Fin 4, Fin 8, Fin 16]) \<and>
        heap s' 1 = Some (Ints [1, 3, 0, 2]) \<and>
        heap s' 2 = Some (Ints [3, 5, 2, 4]) \<and>
        heap s' 3 = Some (Floats [Fin 0, NaN, Fin 270, Fin 0]) \<and>
        heap s' 4 = Some (Floats [Fin 1, NaN, Fin 1, Fin 1]) \<and>
        heap s' 5 = Some (Floats [Fin 0, Fin 1, Fin 0, Fin 0]) \<and>
        heap s' 7 = Some (Floats [Fin 3, Fin 12, Fin (3 / 2), Fin 6])"
proof -
  from ex_run_mem obtain s' where
    r: "run_cells_mem (aggregation_cells_mem nan_memory nan_memory2) ex_notebook = Inr s'"
    and d: "globals s' ''direction'' = Some 3"
    and t: "heap s' 7 = Some (Floats [Fin 3, Fin 12, Fin (3 / 2), Fin 6])"
    by blast
  have sub: "set (aggregation_cells_mem nan_memory nan_memory2) \<subseteq>
             set (aggregation_cells_mem nan_memory nan_memory2)"
    by simp
  have alloc: "\<forall>p\<in>set (inputs_of ex_notebook). p < next_addr ex_notebook"
    by (simp add: inputs_of_def ex_notebook_def load_notebook_def)
  from aggregation_keeps_inputs [OF sub r alloc]
  have below: "\<forall>p<next_addr ex_notebook. heap s' p = heap ex_notebook p" by blast
  have "next_addr ex_notebook = 7"
    by (simp add: ex_notebook_def load_notebook_def)
  with below have "\<forall>p<7. heap s' p = heap ex_notebook p"
    by simp
  then have "heap s' 0 = heap ex_notebook 0" "heap s' 1 = heap ex_notebook 1"
    "heap s' 2 = heap ex_notebook 2" "heap s' 3 = heap ex_notebook 3"
    "heap s' 4 = heap ex_notebook 4" "heap s' 5 = heap ex_notebook 5"
    by simp_all
  then have "heap s' 0 = Some (Floats [Fin 1, Fin 2, Fin 4, Fin 8, Fin 16])"
    "heap s' 1 = Some (Ints [1, 3, 0, 2])" "heap s' 2 = Some (Ints [3, 5, 2, 4])"
    "heap s' 3 = Some (Floats [Fin 0, NaN, Fin 270, Fin 0])"
    "heap s' 4 = Some (Floats [Fin 1, NaN, Fin 1, Fin 1])"
    "heap s' 5 = Some (Floats [Fin 0, Fin 1, Fin 0, Fin 0])"
    by (simp_all add: ex_notebook_def load_notebook_def ex_table_def ex_row_def ex_trace_def)
  with r d t show ?thesis by blast
qed

subsection \<open>The run in memory and the run of the functions\<close>

text \<open>
  The cells in memory compute what the functions of the cells compute: from a state
  of the memory that the notebook can be in, each cell raises the same error as its
  function or leaves the arrays that the function returns, at the names that the
  function binds.
\<close>

lemma is_floats_read: "is_floats s p \<Longrightarrow> read_floats s p = Inr (column_floats s p)"
  by (auto simp: is_floats_def read_floats_def column_floats_def split: option.splits array.splits)

lemma is_ints_read: "is_ints s p \<Longrightarrow> read_ints s p = Inr (column_ints s p)"
  by (auto simp: is_ints_def read_ints_def column_ints_def split: option.splits array.splits)

lemma floats_var_cases:
  assumes "floats_var b s name"
  obtains "globals s name = None" "floats_of s name = None"
  | p xs where "globals s name = Some p" "p < b" "heap s p = Some (Floats xs)"
      "floats_of s name = Some xs"
  using assms
  by (auto simp: floats_var_def floats_of_def is_floats_def split: option.splits array.splits)

lemma floats2_var_cases:
  assumes "floats2_var b s name"
  obtains "globals s name = None" "floats2_of s name = None"
  | p xs where "globals s name = Some p" "p < b" "heap s p = Some (Floats2 xs)"
      "floats2_of s name = Some xs"
  using assms
  by (auto simp: floats2_var_def floats2_of_def is_floats2_def split: option.splits array.splits)

lemma floats_of_unchanged:
  assumes "unchanged_below b s s'" and "floats_var b s name" and "globals s' name = globals s name"
  shows "floats_of s' name = floats_of s name \<and> floats_var b s' name"
  using assms
  by (auto simp: unchanged_below_def floats_var_def floats_of_def is_floats_def
      split: option.splits)

lemma floats2_of_unchanged:
  assumes "unchanged_below b s s'" and "floats2_var b s name" and "globals s' name = globals s name"
  shows "floats2_of s' name = floats2_of s name \<and> floats2_var b s' name"
  using assms
  by (auto simp: unchanged_below_def floats2_var_def floats2_of_def is_floats2_def
      split: option.splits)

lemma inputs_unchanged:
  assumes "unchanged_below b s s'" and "inputs_ok b s"
  shows "inputs_ok b s' \<and> stim_table_of s' = stim_table_of s \<and>
         column_floats s' (a_dff_trace s') = column_floats s (a_dff_trace s)"
  using assms
  by (simp add: unchanged_below_def inputs_ok_def inputs_of_def stim_table_of_def
      column_floats_def column_ints_def is_floats_def is_ints_def)

lemma floats_var_mono: "floats_var b s name \<Longrightarrow> b \<le> c \<Longrightarrow> floats_var c s name"
  by (auto simp: floats_var_def split: option.splits)

lemma floats2_var_mono: "floats2_var b s name \<Longrightarrow> b \<le> c \<Longrightarrow> floats2_var c s name"
  by (auto simp: floats2_var_def split: option.splits)

lemma inputs_ok_mono: "inputs_ok b s \<Longrightarrow> b \<le> c \<Longrightarrow> inputs_ok c s"
  by (auto simp: inputs_ok_def)


lemma stim_table_of_nth:
  assumes "inputs_ok b s" and "i < length (stim_table_of s)"
  shows "start (stim_table_of s ! i) = column_ints s (a_start s) ! i"
    and "end_frame (stim_table_of s ! i) = column_ints s (a_end s) ! i"
  using assms by (simp_all add: stim_table_of_def)

lemma length_stim_table_of: "length (stim_table_of s) = length (column_ints s (a_start s))"
  by (simp add: stim_table_of_def)

lemma trial_response_body_sim:
  assumes ok: "inputs_ok b s"
    and p: "globals s ''trial_response'' = Some p" "b \<le> p" "heap s p = Some (Floats a)"
    and i: "i < length (stim_table_of s)" "i < length a"
  shows "trial_response_body_mem i s =
     Inr (s\<lparr>heap := (heap s)(p \<mapsto> Floats (a[i :=
            np_mean (py_slice (column_floats s (a_dff_trace s))
              (start (stim_table_of s ! i)) (end_frame (stim_table_of s ! i)))]))\<rparr>)"
proof -
  have r: "read_floats s (a_dff_trace s) = Inr (column_floats s (a_dff_trace s))"
    "read_ints s (a_start s) = Inr (column_ints s (a_start s))"
    "read_ints s (a_end s) = Inr (column_ints s (a_end s))"
    using ok by (simp_all add: inputs_ok_def is_floats_read is_ints_read)
  have l: "i < length (column_ints s (a_start s))" "i < length (column_ints s (a_end s))"
    using ok i(1) by (simp_all add: inputs_ok_def length_stim_table_of)
  have rp: "read_floats s p = Inr a" using p(3) by (simp add: read_floats_def)
  show ?thesis
    using p(1) i(2) l
    by (simp add: trial_response_body_mem_def r rp store_float_def var_addr_def
        np_set_def stim_table_of_nth [OF ok i(1)])
qed

lemma heap_update_frame:
  assumes "b \<le> p"
  shows "unchanged_below b s (s\<lparr>heap := (heap s)(p \<mapsto> x)\<rparr>)"
  using assms by (simp add: unchanged_below_def inputs_of_def)

lemma trial_response_loop_sim:
  assumes "inputs_ok b s"
    and "globals s ''trial_response'' = Some p" "b \<le> p" "heap s p = Some (Floats a)"
    and "\<forall>i\<in>set is. i < length (stim_table_of s) \<and> i < length a"
  shows "trial_response_loop_mem is s =
     Inr (s\<lparr>heap := (heap s)(p \<mapsto> Floats (trial_response_loop
            (column_floats s (a_dff_trace s)) (stim_table_of s) is a))\<rparr>)"
  using assms
proof (induction "is" arbitrary: s a)
  case Nil
  then have "(heap s)(p \<mapsto> Floats a) = heap s" by (simp add: fun_upd_idem)
  then show ?case by simp
next
  case (Cons i "is")
  let ?v = "np_mean (py_slice (column_floats s (a_dff_trace s))
              (start (stim_table_of s ! i)) (end_frame (stim_table_of s ! i)))"
  let ?s1 = "s\<lparr>heap := (heap s)(p \<mapsto> Floats (a[i := ?v]))\<rparr>"
  have i: "i < length (stim_table_of s)" "i < length a" using Cons.prems(5) by simp_all
  have b: "trial_response_body_mem i s = Inr ?s1"
    by (rule trial_response_body_sim [OF Cons.prems(1-4) i])
  have f: "unchanged_below b s ?s1" by (rule heap_update_frame [OF Cons.prems(3)])
  note u = inputs_unchanged [OF f Cons.prems(1)]
  let ?r = "trial_response_loop (column_floats s (a_dff_trace s)) (stim_table_of s) is
              (a[i := ?v])"
  have "trial_response_loop_mem is ?s1 =
     Inr (?s1\<lparr>heap := (heap ?s1)(p \<mapsto> Floats (trial_response_loop
            (column_floats ?s1 (a_dff_trace ?s1)) (stim_table_of ?s1) is (a[i := ?v])))\<rparr>)"
    using Cons.prems u by (intro Cons.IH) simp_all
  also have "column_floats ?s1 (a_dff_trace ?s1) = column_floats s (a_dff_trace s)"
    using u by simp
  also have "stim_table_of ?s1 = stim_table_of s"
    using u by simp
  also have "?s1\<lparr>heap := (heap ?s1)(p \<mapsto> Floats ?r)\<rparr> = s\<lparr>heap := (heap s)(p \<mapsto> Floats ?r)\<rparr>"
    by simp
  finally have "trial_response_loop_mem is ?s1 = Inr (s\<lparr>heap := (heap s)(p \<mapsto> Floats ?r)\<rparr>)" .
  moreover have "trial_response_loop_mem (i # is) s = trial_response_loop_mem is ?s1"
    by (simp only: trial_response_loop_mem.simps b sum.case)
  moreover have "trial_response_loop (column_floats s (a_dff_trace s)) (stim_table_of s)
                   (i # is) a = ?r"
    by simp
  ultimately show ?case by (simp only:)
qed


lemma columns_of_stim_table:
  assumes "inputs_ok b s"
  shows "direction_of (stim_table_of s) = column_floats s (a_orientation s)"
    and "temporal_frequency_of (stim_table_of s) = column_floats s (a_temporal_frequency s)"
proof -
  have l: "length (column_floats s (a_orientation s)) = length (column_ints s (a_start s))"
    "length (column_floats s (a_temporal_frequency s)) = length (column_ints s (a_start s))"
    using assms by (simp_all add: inputs_ok_def)
  show "direction_of (stim_table_of s) = column_floats s (a_orientation s)"
    unfolding direction_of_def stim_table_of_def
    by (rule nth_equalityI) (simp_all add: l del: upt.simps)
  show "temporal_frequency_of (stim_table_of s) = column_floats s (a_temporal_frequency s)"
    unfolding temporal_frequency_of_def stim_table_of_def
    by (rule nth_equalityI) (simp_all add: l del: upt.simps)
qed

lemma cell_37_mem_result:
  assumes "inputs_ok (next_addr s) s"
  shows "cell_37_mem s =
     Inr (s\<lparr>heap := (heap s)(next_addr s \<mapsto>
              Floats (trial_response_of (column_floats s (a_dff_trace s)) (stim_table_of s))),
            next_addr := Suc (next_addr s),
            globals := (globals s)(''direction'' \<mapsto> a_orientation s,
              ''temporal_frequency'' \<mapsto> a_temporal_frequency s,
              ''trial_response'' \<mapsto> next_addr s)\<rparr>)"
proof -
  let ?b = "next_addr s"
  let ?n = "length (column_ints s (a_start s))"
  let ?s2 = "assign_view ''temporal_frequency'' (a_temporal_frequency s)
               (assign_view ''direction'' (a_orientation s) s)"
  let ?s3 = "assign_new ''trial_response'' (Floats (np_zeros ?n)) ?s2"
  have f: "unchanged_below ?b s ?s3"
    by (simp add: unchanged_below_def inputs_of_def)
  note u = inputs_unchanged [OF f assms]
  have r: "read_ints ?s2 (a_start s) = Inr (column_ints s (a_start s))"
    using assms by (simp add: inputs_ok_def is_ints_def read_ints_def column_ints_def
        split: option.splits array.splits)
  have loop: "trial_response_loop_mem [0..<?n] ?s3 =
     Inr (?s3\<lparr>heap := (heap ?s3)(?b \<mapsto> Floats (trial_response_loop
            (column_floats ?s3 (a_dff_trace ?s3)) (stim_table_of ?s3) [0..<?n] (np_zeros ?n)))\<rparr>)"
    using u by (intro trial_response_loop_sim [where b = ?b])
      (simp_all add: length_stim_table_of np_zeros_def)
  have "cell_37_mem s = trial_response_loop_mem [0..<?n] ?s3"
    by (simp add: cell_37_mem_def Let_def r)
  also note loop
  also have "trial_response_loop (column_floats ?s3 (a_dff_trace ?s3)) (stim_table_of ?s3)
        [0..<?n] (np_zeros ?n) =
      trial_response_of (column_floats s (a_dff_trace s)) (stim_table_of s)"
    using u by (simp add: trial_response_of_def length_stim_table_of)
  finally have "cell_37_mem s =
      Inr (?s3\<lparr>heap := (heap ?s3)(?b \<mapsto> Floats (trial_response_of
             (column_floats s (a_dff_trace s)) (stim_table_of s)))\<rparr>)" .
  moreover have "?s3\<lparr>heap := (heap ?s3)(?b \<mapsto> Floats (trial_response_of
             (column_floats s (a_dff_trace s)) (stim_table_of s)))\<rparr> =
      s\<lparr>heap := (heap s)(next_addr s \<mapsto>
              Floats (trial_response_of (column_floats s (a_dff_trace s)) (stim_table_of s))),
            next_addr := Suc (next_addr s),
            globals := (globals s)(''direction'' \<mapsto> a_orientation s,
              ''temporal_frequency'' \<mapsto> a_temporal_frequency s,
              ''trial_response'' \<mapsto> next_addr s)\<rparr>"
    by (rule notebook.equality) (simp_all add: assign_new_def assign_view_def)
  ultimately show ?thesis by (simp only:)
qed


lemma well_formedD:
  assumes "well_formed s"
  shows "inputs_ok (next_addr s) s"
    and "floats_var (next_addr s) s ''direction''"
    and "floats_var (next_addr s) s ''temporal_frequency''"
    and "floats_var (next_addr s) s ''trial_response''"
    and "floats_var (next_addr s) s ''all_dir''"
    and "floats_var (next_addr s) s ''dirvals''"
    and "floats_var (next_addr s) s ''tfvals''"
    and "floats_var (next_addr s) s ''tuning''"
    and "floats2_var (next_addr s) s ''tuning_array''"
    and "floats2_var (next_addr s) s ''tuning_array_z''"
  using assms by (simp_all add: well_formed_def vars_ok_def float_names_def float2_names_def)

lemma well_formedI:
  assumes "inputs_ok (next_addr s) s"
    and "floats_var (next_addr s) s ''direction''"
    and "floats_var (next_addr s) s ''temporal_frequency''"
    and "floats_var (next_addr s) s ''trial_response''"
    and "floats_var (next_addr s) s ''all_dir''"
    and "floats_var (next_addr s) s ''dirvals''"
    and "floats_var (next_addr s) s ''tfvals''"
    and "floats_var (next_addr s) s ''tuning''"
    and "floats2_var (next_addr s) s ''tuning_array''"
    and "floats2_var (next_addr s) s ''tuning_array_z''"
  shows "well_formed s"
  using assms by (simp add: well_formed_def vars_ok_def float_names_def float2_names_def)

text \<open>What a name stands for after a run that changed nothing below \<open>b\<close>.\<close>

lemma kept_floats:
  assumes "unchanged_below b s s'" and "floats_var b s name"
    and "globals s' name = globals s name" and "b \<le> next_addr s'"
  shows "floats_of s' name = floats_of s name" and "floats_var (next_addr s') s' name"
  using floats_of_unchanged [OF assms(1-3)] floats_var_mono [OF _ assms(4)] by simp_all

lemma kept_floats2:
  assumes "unchanged_below b s s'" and "floats2_var b s name"
    and "globals s' name = globals s name" and "b \<le> next_addr s'"
  shows "floats2_of s' name = floats2_of s name" and "floats2_var (next_addr s') s' name"
  using floats2_of_unchanged [OF assms(1-3)] floats2_var_mono [OF _ assms(4)] by simp_all

lemma kept_inputs:
  assumes "unchanged_below b s s'" and "inputs_ok b s" and "b \<le> next_addr s'"
  shows "inputs_ok (next_addr s') s'" and "stim_table_of s' = stim_table_of s"
    and "column_floats s' (a_dff_trace s') = column_floats s (a_dff_trace s)"
  using inputs_unchanged [OF assms(1,2)] inputs_ok_mono [OF _ assms(3)] by simp_all

lemma new_floats:
  assumes "globals s' name = Some p" and "heap s' p = Some (Floats xs)" and "p < next_addr s'"
  shows "floats_of s' name = Some xs" and "floats_var (next_addr s') s' name"
  using assms by (simp_all add: floats_of_def floats_var_def is_floats_def)

lemma new_floats2:
  assumes "globals s' name = Some p" and "heap s' p = Some (Floats2 xs)" and "p < next_addr s'"
  shows "floats2_of s' name = Some xs" and "floats2_var (next_addr s') s' name"
  using assms by (simp_all add: floats2_of_def floats2_var_def is_floats2_def)

lemma cell_37_simulates:
  assumes "well_formed s"
  shows "simulates cell_37_mem cell_37 s"
proof -
  let ?b = "next_addr s"
  let ?T = "trial_response_of (column_floats s (a_dff_trace s)) (stim_table_of s)"
  define S where "S = s\<lparr>heap := (heap s)(?b \<mapsto> Floats ?T),
            next_addr := Suc ?b,
            globals := (globals s)(''direction'' \<mapsto> a_orientation s,
              ''temporal_frequency'' \<mapsto> a_temporal_frequency s,
              ''trial_response'' \<mapsto> ?b)\<rparr>"
  note wf = well_formedD [OF assms]
  have run: "cell_37_mem s = Inr S"
    unfolding S_def by (rule cell_37_mem_result [OF wf(1)])
  have f: "unchanged_below ?b s S" by (simp add: unchanged_below_def inputs_of_def S_def)
  have n: "?b \<le> next_addr S" by (simp add: S_def)
  note inp = kept_inputs [OF f wf(1) n]
  have ao: "a_orientation s < ?b" "a_temporal_frequency s < ?b"
    "is_floats s (a_orientation s)" "is_floats s (a_temporal_frequency s)"
    using wf(1) by (simp_all add: inputs_ok_def inputs_of_def)
  have d: "floats_of S ''direction'' = Some (direction_of (stim_table_of s))"
    "floats_var (next_addr S) S ''direction''"
    using ao
    by (auto simp: S_def floats_of_def floats_var_def is_floats_def column_floats_def
        columns_of_stim_table [OF wf(1)] split: option.splits array.splits)
  have t: "floats_of S ''temporal_frequency'' = Some (temporal_frequency_of (stim_table_of s))"
    "floats_var (next_addr S) S ''temporal_frequency''"
    using ao
    by (auto simp: S_def floats_of_def floats_var_def is_floats_def column_floats_def
        columns_of_stim_table [OF wf(1)] split: option.splits array.splits)
  have r: "floats_of S ''trial_response'' = Some ?T"
    "floats_var (next_addr S) S ''trial_response''"
    by (simp_all add: S_def floats_of_def floats_var_def is_floats_def)
  have g: "globals S ''all_dir'' = globals s ''all_dir''"
    "globals S ''dirvals'' = globals s ''dirvals''"
    "globals S ''tfvals'' = globals s ''tfvals''"
    "globals S ''tuning'' = globals s ''tuning''"
    "globals S ''tuning_array'' = globals s ''tuning_array''"
    "globals S ''tuning_array_z'' = globals s ''tuning_array_z''"
    by (simp_all add: S_def)
  note k1 = kept_floats [OF f wf(5) g(1) n] note k2 = kept_floats [OF f wf(6) g(2) n]
  note k3 = kept_floats [OF f wf(7) g(3) n] note k4 = kept_floats [OF f wf(8) g(4) n]
  note k5 = kept_floats2 [OF f wf(9) g(5) n] note k6 = kept_floats2 [OF f wf(10) g(6) n]
  have "cell_37 (nb_state_of s) = Inr (nb_state_of S)"
    unfolding cell_37_def
    by (simp add: nb_state_of_def [of S] inp d r t k1 k2 k3 k4 k5 k6)
      (simp add: nb_state_of_def)
  moreover have "well_formed S"
    by (rule well_formedI) (simp_all add: inp d t r k1 k2 k3 k4 k5 k6)
  ultimately show ?thesis by (simp add: simulates_def run)
qed


lemma select_trials_sim:
  assumes "floats_var b s ''trial_response''" and "b \<le> next_addr s"
  shows "select_trials_mem m s =
     (case then_do (lookup ''trial_response'' (floats_of s ''trial_response'')) (\<lambda>resp.
           then_do (bool_index resp m) (\<lambda>sel. Inr (np_mean sel))) of
        Inl e \<Rightarrow> Inl e
      | Inr v \<Rightarrow> Inr (v, assign_new ''trials'' (Bools m) s))"
  using assms(1)
proof (cases rule: floats_var_cases)
  case 1
  then show ?thesis
    by (simp add: select_trials_mem_def Let_def var_addr_def)
next
  case (2 p xs)
  then have "p \<noteq> next_addr s" using assms(2) by simp
  then show ?thesis
    using 2
    by (simp add: select_trials_mem_def Let_def var_addr_def read_floats_def read_bools_def
        then_do_def split: sum.splits)
qed

lemma direction_average_sim:
  assumes "floats_var b s ''direction''" and "floats_var b s ''trial_response''"
    and "b \<le> next_addr s"
  shows "case direction_average (floats_of s ''direction'') (floats_of s ''trial_response'') d of
           Inl e \<Rightarrow> direction_average_mem d s = Inl e
         | Inr v \<Rightarrow> \<exists>m. direction_average_mem d s = Inr (v, assign_new ''trials'' (Bools m) s)"
  using assms(1)
proof (cases rule: floats_var_cases)
  case 1
  then show ?thesis
    by (simp add: direction_average_mem_def direction_average_def var_addr_def)
next
  case (2 p xs)
  then show ?thesis
    by (auto simp: direction_average_mem_def direction_average_def var_addr_def read_floats_def
        select_trials_sim [OF assms(2,3)] then_do_def Let_def split: sum.splits)
qed

text \<open>A state after some new arrays were bound to names that the functions do not keep.\<close>

lemma simulates_kept:
  assumes wf: "well_formed s"
    and f: "unchanged_below (next_addr s) s s'" and n: "next_addr s \<le> next_addr s'"
    and g: "\<And>name. name \<noteq> ''trials'' \<Longrightarrow> globals s' name = globals s name"
  shows "nb_state_of s' = nb_state_of s" and "well_formed s'"
proof -
  note w = well_formedD [OF wf]
  note inp = kept_inputs [OF f w(1) n]
  note k1 = kept_floats [OF f w(2) g n] note k2 = kept_floats [OF f w(3) g n]
  note k3 = kept_floats [OF f w(4) g n] note k4 = kept_floats [OF f w(5) g n]
  note k5 = kept_floats [OF f w(6) g n] note k6 = kept_floats [OF f w(7) g n]
  note k7 = kept_floats [OF f w(8) g n]
  note k8 = kept_floats2 [OF f w(9) g n] note k9 = kept_floats2 [OF f w(10) g n]
  show "nb_state_of s' = nb_state_of s"
    by (simp add: nb_state_of_def inp k1 k2 k3 k4 k5 k6 k7 k8 k9)
  show "well_formed s'"
    by (rule well_formedI) (simp_all add: inp k1 k2 k3 k4 k5 k6 k7 k8 k9)
qed

lemma cell_45_simulates:
  assumes "well_formed s"
  shows "simulates cell_45_mem cell_45 s"
proof -
  note w = well_formedD [OF assms]
  note sim = direction_average_sim [OF w(2) w(4) order_refl, of "Fin 270"]
  show ?thesis
  proof (cases "direction_average (floats_of s ''direction'') (floats_of s ''trial_response'')
                  (Fin 270)")
    case (Inl e)
    then show ?thesis using sim
      by (simp add: simulates_def cell_45_mem_def cell_45_def nb_state_of_def)
  next
    case (Inr v)
    with sim obtain m where
      r: "direction_average_mem (Fin 270) s = Inr (v, assign_new ''trials'' (Bools m) s)"
      by auto
    let ?S = "assign_new ''trials'' (Bools m) s"
    have "unchanged_below (next_addr s) s ?S" by (rule assign_new_frame) simp
    from simulates_kept [OF assms this]
    have "nb_state_of ?S = nb_state_of s" "well_formed ?S" by simp_all
    then show ?thesis using Inr r
      by (simp add: simulates_def cell_45_mem_def cell_45_def nb_state_of_def [of s])
  qed
qed


lemma cell_47_simulates:
  assumes "well_formed s"
  shows "simulates cell_47_mem cell_47 s"
proof -
  note w = well_formedD [OF assms]
  from w(2) show ?thesis
  proof (cases rule: floats_var_cases)
    case 1
    then show ?thesis
      by (simp add: simulates_def cell_47_mem_def cell_47_def var_addr_def nb_state_of_def)
  next
    case (2 p dir)
    let ?b = "next_addr s"
    define S where "S = assign_new ''dirvals'' (Floats (filter isfinite (np_unique dir)))
                          (assign_new ''all_dir'' (Floats (np_unique dir)) s)"
    have run: "cell_47_mem s = Inr S"
      using 2 by (simp add: cell_47_mem_def var_addr_def read_floats_def Let_def S_def)
    have f: "unchanged_below ?b s S"
      by (simp add: unchanged_below_def inputs_of_def S_def)
    have n: "?b \<le> next_addr S" by (simp add: S_def)
    note inp = kept_inputs [OF f w(1) n]
    have g: "globals S ''direction'' = globals s ''direction''"
      "globals S ''temporal_frequency'' = globals s ''temporal_frequency''"
      "globals S ''trial_response'' = globals s ''trial_response''"
      "globals S ''tfvals'' = globals s ''tfvals''"
      "globals S ''tuning'' = globals s ''tuning''"
      "globals S ''tuning_array'' = globals s ''tuning_array''"
      "globals S ''tuning_array_z'' = globals s ''tuning_array_z''"
      by (simp_all add: S_def)
    note k1 = kept_floats [OF f w(2) g(1) n] note k2 = kept_floats [OF f w(3) g(2) n]
    note k3 = kept_floats [OF f w(4) g(3) n] note k4 = kept_floats [OF f w(7) g(4) n]
    note k5 = kept_floats [OF f w(8) g(5) n]
    note k6 = kept_floats2 [OF f w(9) g(6) n] note k7 = kept_floats2 [OF f w(10) g(7) n]
    note a = new_floats [of S "''all_dir''" ?b "np_unique dir"]
    note d = new_floats [of S "''dirvals''" "Suc ?b" "filter isfinite (np_unique dir)"]
    have a': "floats_of S ''all_dir'' = Some (np_unique dir)"
      "floats_var (next_addr S) S ''all_dir''"
      by (rule a; simp add: S_def)+
    have d': "floats_of S ''dirvals'' = Some (filter isfinite (np_unique dir))"
      "floats_var (next_addr S) S ''dirvals''"
      by (rule d; simp add: S_def)+
    have "cell_47 (nb_state_of s) = Inr (nb_state_of S)"
      unfolding cell_47_def
      by (simp add: nb_state_of_def [of S] inp k1 k2 k3 k4 k5 k6 k7 a' d')
        (simp add: nb_state_of_def 2 dirvals_of_def)
    moreover have "well_formed S"
      by (rule well_formedI) (simp_all add: inp k1 k2 k3 k4 k5 k6 k7 a' d')
    ultimately show ?thesis by (simp add: simulates_def run)
  qed
qed

lemma cell_80_simulates:
  assumes "well_formed s"
  shows "simulates cell_80_mem cell_80 s"
proof -
  note w = well_formedD [OF assms]
  from w(9) show ?thesis
  proof (cases rule: floats2_var_cases)
    case 1
    then show ?thesis
      by (simp add: simulates_def cell_80_mem_def cell_80_def var_addr_def nb_state_of_def)
  next
    case (2 p a)
    let ?b = "next_addr s"
    define S where "S = assign_new ''tuning_array_z'' (Floats2 (tuning_array_z_of a)) s"
    have run: "cell_80_mem s = Inr S"
      using 2 by (simp add: cell_80_mem_def var_addr_def read_floats2_def S_def)
    have f: "unchanged_below ?b s S"
      by (simp add: unchanged_below_def inputs_of_def S_def)
    have n: "?b \<le> next_addr S" by (simp add: S_def)
    note inp = kept_inputs [OF f w(1) n]
    have g: "globals S ''direction'' = globals s ''direction''"
      "globals S ''temporal_frequency'' = globals s ''temporal_frequency''"
      "globals S ''trial_response'' = globals s ''trial_response''"
      "globals S ''all_dir'' = globals s ''all_dir''"
      "globals S ''dirvals'' = globals s ''dirvals''"
      "globals S ''tfvals'' = globals s ''tfvals''"
      "globals S ''tuning'' = globals s ''tuning''"
      "globals S ''tuning_array'' = globals s ''tuning_array''"
      by (simp_all add: S_def)
    note k1 = kept_floats [OF f w(2) g(1) n] note k2 = kept_floats [OF f w(3) g(2) n]
    note k3 = kept_floats [OF f w(4) g(3) n] note k4 = kept_floats [OF f w(5) g(4) n]
    note k5 = kept_floats [OF f w(6) g(5) n] note k6 = kept_floats [OF f w(7) g(6) n]
    note k7 = kept_floats [OF f w(8) g(7) n]
    note k8 = kept_floats2 [OF f w(9) g(8) n]
    have z: "floats2_of S ''tuning_array_z'' = Some (tuning_array_z_of a)"
      "floats2_var (next_addr S) S ''tuning_array_z''"
      by (rule new_floats2 [of S _ ?b]; simp add: S_def)+
    have "cell_80 (nb_state_of s) = Inr (nb_state_of S)"
      unfolding cell_80_def
      by (simp add: nb_state_of_def [of S] inp k1 k2 k3 k4 k5 k6 k7 k8 z)
        (simp add: nb_state_of_def 2)
    moreover have "well_formed S"
      by (rule well_formedI) (simp_all add: inp k1 k2 k3 k4 k5 k6 k7 k8 z)
    ultimately show ?thesis by (simp add: simulates_def run)
  qed
qed


lemma after_store_facts:
  assumes "b \<le> tp" and "tp < next_addr s"
  shows "next_addr (after_store m tp x s) = Suc (next_addr s)"
    and "heap (after_store m tp x s) tp = Some x"
    and "\<And>name. name \<noteq> ''trials'' \<Longrightarrow> globals (after_store m tp x s) name = globals s name"
    and "unchanged_below b s (after_store m tp x s)"
  using assms by (simp_all add: after_store_def unchanged_below_def inputs_of_def)

lemma tuning_body_as_average:
  "tuning_body D R i d t = then_do (direction_average D R d) (\<lambda>v. np_set t i v)"
  by (simp add: tuning_body_def direction_average_def then_do_def Let_def split: sum.splits)

lemma tuning_body_sim:
  assumes "floats_var b s ''direction''" and "floats_var b s ''trial_response''"
    and "globals s ''tuning'' = Some tp" and "b \<le> tp" and "tp < next_addr s"
    and "heap s tp = Some (Floats t)"
  shows "case tuning_body (floats_of s ''direction'') (floats_of s ''trial_response'') i d t of
           Inl e \<Rightarrow> tuning_body_mem i d s = Inl e
         | Inr t' \<Rightarrow> \<exists>m. tuning_body_mem i d s = Inr (after_store m tp (Floats t') s)"
proof -
  have n: "b \<le> next_addr s" using assms(4,5) by simp
  note sim = direction_average_sim [OF assms(1,2) n, of d]
  show ?thesis
  proof (cases "direction_average (floats_of s ''direction'') (floats_of s ''trial_response'') d")
    case (Inl e)
    then show ?thesis using sim
      by (simp add: tuning_body_as_average tuning_body_mem_def)
  next
    case (Inr v)
    with sim obtain m where
      r: "direction_average_mem d s = Inr (v, assign_new ''trials'' (Bools m) s)"
      by auto
    have st: "store_float ''tuning'' i v (assign_new ''trials'' (Bools m) s) =
        (case np_set t i v of Inl e \<Rightarrow> Inl e
         | Inr t' \<Rightarrow> Inr (after_store m tp (Floats t') s))"
      using assms(3,5,6)
      by (simp add: store_float_def var_addr_def read_floats_def after_store_def then_do_def
          split: sum.splits)
    show ?thesis
      by (cases "np_set t i v")
        (auto simp: tuning_body_as_average tuning_body_mem_def Inr r st)
  qed
qed

lemma tuning_loop_sim:
  assumes "floats_var b s ''direction''" and "floats_var b s ''trial_response''"
    and "floats_of s ''direction'' = D" and "floats_of s ''trial_response'' = R"
    and "heap s it = Some (Floats dv)" and "it < b"
    and "globals s ''tuning'' = Some tp" and "b \<le> tp" and "tp < next_addr s"
    and "heap s tp = Some (Floats t)"
    and "\<forall>i\<in>set is. i < length dv"
  shows "case tuning_loop D R (map (\<lambda>i. (i, dv ! i)) is) t of
           Inl e \<Rightarrow> tuning_loop_mem it is s = Inl e
         | Inr t' \<Rightarrow>
             \<exists>s'. tuning_loop_mem it is s = Inr s' \<and> heap s' tp = Some (Floats t') \<and>
                  tp < next_addr s' \<and>
                  (\<forall>name. name \<noteq> ''trials'' \<longrightarrow> globals s' name = globals s name)"
  using assms
proof (induction "is" arbitrary: s t)
  case Nil
  then show ?case by simp
next
  case (Cons i "is")
  have rd: "read_floats s it = Inr dv" using Cons.prems(5) by (simp add: read_floats_def)
  have i: "i < length dv" using Cons.prems(11) by simp
  note body = tuning_body_sim [OF Cons.prems(1,2,7,8,9,10), of i "dv ! i"]
  show ?case
  proof (cases "tuning_body D R i (dv ! i) t")
    case (Inl e)
    then show ?thesis using body rd i Cons.prems(3,4) by simp
  next
    case (Inr t1)
    with body Cons.prems(3,4) obtain m where
      b: "tuning_body_mem i (dv ! i) s = Inr (after_store m tp (Floats t1) s)"
      by auto
    let ?s1 = "after_store m tp (Floats t1) s"
    note a = after_store_facts [OF Cons.prems(8,9), where m = m and x = "Floats t1"]
    have k1: "floats_of ?s1 ''direction'' = D" "floats_var b ?s1 ''direction''"
      using floats_of_unchanged [OF a(4) Cons.prems(1)] a(3) Cons.prems(3) by simp_all
    have k2: "floats_of ?s1 ''trial_response'' = R" "floats_var b ?s1 ''trial_response''"
      using floats_of_unchanged [OF a(4) Cons.prems(2)] a(3) Cons.prems(4) by simp_all
    have it: "heap ?s1 it = Some (Floats dv)"
      using a(4) Cons.prems(5,6) by (simp add: unchanged_below_def)
    have tp: "globals ?s1 ''tuning'' = Some tp" "tp < next_addr ?s1"
      using a(1,3) Cons.prems(7,9) by simp_all
    have rest: "\<forall>i\<in>set is. i < length dv" using Cons.prems(11) by simp
    note IH = Cons.IH [OF k1(2) k2(2) k1(1) k2(1) it Cons.prems(6) tp(1) Cons.prems(8) tp(2)
        a(2) rest]
    have step: "tuning_loop_mem it (i # is) s = tuning_loop_mem it is ?s1"
      using rd i b by simp
    have pure: "tuning_loop D R (map (\<lambda>i. (i, dv ! i)) (i # is)) t =
                tuning_loop D R (map (\<lambda>i. (i, dv ! i)) is) t1"
      using Inr by simp
    show ?thesis
      unfolding step pure using IH a(3)
      by (auto split: sum.splits)
  qed
qed


lemma enumerate_list_nth: "enumerate_list xs = map (\<lambda>i. (i, xs ! i)) [0..<length xs]"
  unfolding enumerate_list_def
  by (rule nth_equalityI) (simp_all del: upt.simps)

lemma cell_52_simulates:
  assumes "well_formed s"
  shows "simulates (cell_52_mem g) (cell_52 g) s"
proof -
  note w = well_formedD [OF assms]
  let ?b = "next_addr s"
  let ?s1 = "assign_new ''tuning'' (Floats (np_empty g 8)) s"
  have f1: "unchanged_below ?b s ?s1" by (rule assign_new_frame) simp
  from w(6) show ?thesis
  proof (cases rule: floats_var_cases)
    case 1
    then show ?thesis
      by (simp add: simulates_def cell_52_mem_def cell_52_def var_addr_def nb_state_of_def
          tuning_of_def Let_def)
  next
    case (2 it dv)
    let ?D = "floats_of s ''direction''"
    let ?R = "floats_of s ''trial_response''"
    have k1: "floats_of ?s1 ''direction'' = ?D" "floats_var ?b ?s1 ''direction''"
      using floats_of_unchanged [OF f1 w(2)] by simp_all
    have k2: "floats_of ?s1 ''trial_response'' = ?R" "floats_var ?b ?s1 ''trial_response''"
      using floats_of_unchanged [OF f1 w(4)] by simp_all
    have it: "heap ?s1 it = Some (Floats dv)" using 2 by simp
    have rd: "var_addr ?s1 ''dirvals'' = Inr it" "read_floats ?s1 it = Inr dv"
      using 2 by (simp_all add: var_addr_def read_floats_def)
    have run: "cell_52_mem g s = tuning_loop_mem it [0..<length dv] ?s1"
      by (simp add: cell_52_mem_def Let_def rd)
    have pure: "tuning_of g (floats_of s ''dirvals'') ?D ?R =
                tuning_loop ?D ?R (map (\<lambda>i. (i, dv ! i)) [0..<length dv]) (np_empty g 8)"
      by (simp add: tuning_of_def 2 enumerate_list_nth)
    have sim: "case tuning_loop ?D ?R (map (\<lambda>i. (i, dv ! i)) [0..<length dv]) (np_empty g 8) of
           Inl e \<Rightarrow> tuning_loop_mem it [0..<length dv] ?s1 = Inl e
         | Inr t' \<Rightarrow>
             \<exists>s'. tuning_loop_mem it [0..<length dv] ?s1 = Inr s' \<and>
                  heap s' ?b = Some (Floats t') \<and> ?b < next_addr s' \<and>
                  (\<forall>name. name \<noteq> ''trials'' \<longrightarrow> globals s' name = globals ?s1 name)"
      by (rule tuning_loop_sim [OF k1(2) k2(2) k1(1) k2(1) it 2(2)]) simp_all
    show ?thesis
    proof (cases "tuning_loop ?D ?R (map (\<lambda>i. (i, dv ! i)) [0..<length dv]) (np_empty g 8)")
      case (Inl e)
      then show ?thesis using sim
        by (simp add: simulates_def run cell_52_def nb_state_of_def [of s] pure)
    next
      case (Inr t')
      with sim obtain S where r: "tuning_loop_mem it [0..<length dv] ?s1 = Inr S"
        and tn: "heap S ?b = Some (Floats t')" and n': "?b < next_addr S"
        and gl: "\<forall>name. name \<noteq> ''trials'' \<longrightarrow> globals S name = globals ?s1 name"
        by auto
      have "unchanged_below ?b ?s1 S"
        by (rule tuning_loop_frame [OF r]) (simp add: fresh_var_def)
      with f1 have f: "unchanged_below ?b s S" by (rule unchanged_below_trans)
      have n: "?b \<le> next_addr S" using n' by simp
      note inp = kept_inputs [OF f w(1) n]
      have g: "globals S ''direction'' = globals s ''direction''"
        "globals S ''temporal_frequency'' = globals s ''temporal_frequency''"
        "globals S ''trial_response'' = globals s ''trial_response''"
        "globals S ''all_dir'' = globals s ''all_dir''"
        "globals S ''dirvals'' = globals s ''dirvals''"
        "globals S ''tfvals'' = globals s ''tfvals''"
        "globals S ''tuning_array'' = globals s ''tuning_array''"
        "globals S ''tuning_array_z'' = globals s ''tuning_array_z''"
        "globals S ''tuning'' = Some ?b"
        using gl by simp_all
      note k1 = kept_floats [OF f w(2) g(1) n] note k2 = kept_floats [OF f w(3) g(2) n]
      note k3 = kept_floats [OF f w(4) g(3) n] note k4 = kept_floats [OF f w(5) g(4) n]
      note k5 = kept_floats [OF f w(6) g(5) n] note k6 = kept_floats [OF f w(7) g(6) n]
      note k7 = kept_floats2 [OF f w(9) g(7) n] note k8 = kept_floats2 [OF f w(10) g(8) n]
      note t = new_floats [OF g(9) tn n']
      have "cell_52 g (nb_state_of s) = Inr (nb_state_of S)"
        unfolding cell_52_def
        by (simp add: nb_state_of_def [of S] inp k1 k2 k3 k4 k5 k6 k7 k8 t)
          (simp add: nb_state_of_def pure Inr)
      moreover have "well_formed S"
        by (rule well_formedI) (simp_all add: inp k1 k2 k3 k4 k5 k6 k7 k8 t)
      ultimately show ?thesis by (simp add: simulates_def run r)
    qed
  qed
qed


lemma tuning_array_body_sim:
  assumes "floats_var b s ''temporal_frequency''" and "floats_var b s ''direction''"
    and "floats_var b s ''trial_response''"
    and "globals s ''tuning_array'' = Some tp" and "b \<le> tp" and "tp < next_addr s"
    and "heap s tp = Some (Floats2 a)"
  shows "case tuning_array_body (floats_of s ''temporal_frequency'') (floats_of s ''direction'')
                (floats_of s ''trial_response'') i tf j d a of
           Inl e \<Rightarrow> tuning_array_body_mem i tf j d s = Inl e
         | Inr a' \<Rightarrow> \<exists>m. tuning_array_body_mem i tf j d s = Inr (after_store m tp (Floats2 a') s)"
proof -
  have n: "b \<le> next_addr s" using assms(5,6) by simp
  have st: "store_float2 ''tuning_array'' j i v (assign_new ''trials'' (Bools m) s) =
        (case np_set2 a j i v of Inl e \<Rightarrow> Inl e
         | Inr a' \<Rightarrow> Inr (after_store m tp (Floats2 a') s))" for v m
    using assms(4,6,7)
    by (simp add: store_float2_def var_addr_def read_floats2_def after_store_def then_do_def
        split: sum.splits)
  from assms(1) show ?thesis
  proof (cases rule: floats_var_cases)
    case 1
    then show ?thesis
      by (simp add: tuning_array_body_def tuning_array_body_mem_def var_addr_def)
  next
    case tf: (2 p tfa)
    from assms(2) show ?thesis
    proof (cases rule: floats_var_cases)
      case 1
      then show ?thesis using tf
        by (simp add: tuning_array_body_def tuning_array_body_mem_def var_addr_def
            read_floats_def)
    next
      case dir: (2 q dir)
      show ?thesis
        using tf dir
        by (auto simp: tuning_array_body_def tuning_array_body_mem_def var_addr_def
            read_floats_def select_trials_sim [OF assms(3) n] st then_do_def
            split: sum.splits)
    qed
  qed
qed

lemma tuning_array_inner_sim:
  assumes "floats_var b s ''temporal_frequency''" and "floats_var b s ''direction''"
    and "floats_var b s ''trial_response''"
    and "floats_of s ''temporal_frequency'' = TF" and "floats_of s ''direction'' = D"
    and "floats_of s ''trial_response'' = R"
    and "heap s it = Some (Floats dv)" and "it < b"
    and "globals s ''tuning_array'' = Some tp" and "b \<le> tp" and "tp < next_addr s"
    and "heap s tp = Some (Floats2 a)"
    and "\<forall>j\<in>set js. j < length dv"
  shows "case tuning_array_inner TF D R i tf (map (\<lambda>j. (j, dv ! j)) js) a of
           Inl e \<Rightarrow> tuning_array_inner_mem i tf it js s = Inl e
         | Inr a' \<Rightarrow>
             \<exists>s'. tuning_array_inner_mem i tf it js s = Inr s' \<and>
                  heap s' tp = Some (Floats2 a') \<and> tp < next_addr s' \<and>
                  (\<forall>name. name \<noteq> ''trials'' \<longrightarrow> globals s' name = globals s name)"
  using assms
proof (induction js arbitrary: s a)
  case Nil
  then show ?case by simp
next
  case (Cons j js)
  have rd: "read_floats s it = Inr dv" using Cons.prems(7) by (simp add: read_floats_def)
  have j: "j < length dv" using Cons.prems(13) by simp
  note body = tuning_array_body_sim [OF Cons.prems(1,2,3,9,10,11,12), of i tf j "dv ! j"]
  show ?case
  proof (cases "tuning_array_body TF D R i tf j (dv ! j) a")
    case (Inl e)
    then show ?thesis using body rd j Cons.prems(4,5,6) by simp
  next
    case (Inr a1)
    with body Cons.prems(4,5,6) obtain m where
      b: "tuning_array_body_mem i tf j (dv ! j) s = Inr (after_store m tp (Floats2 a1) s)"
      by auto
    let ?s1 = "after_store m tp (Floats2 a1) s"
    note a = after_store_facts [OF Cons.prems(10,11), where m = m and x = "Floats2 a1"]
    have k0: "floats_of ?s1 ''temporal_frequency'' = TF"
      "floats_var b ?s1 ''temporal_frequency''"
      using floats_of_unchanged [OF a(4) Cons.prems(1)] a(3) Cons.prems(4) by simp_all
    have k1: "floats_of ?s1 ''direction'' = D" "floats_var b ?s1 ''direction''"
      using floats_of_unchanged [OF a(4) Cons.prems(2)] a(3) Cons.prems(5) by simp_all
    have k2: "floats_of ?s1 ''trial_response'' = R" "floats_var b ?s1 ''trial_response''"
      using floats_of_unchanged [OF a(4) Cons.prems(3)] a(3) Cons.prems(6) by simp_all
    have it: "heap ?s1 it = Some (Floats dv)"
      using a(4) Cons.prems(7,8) by (simp add: unchanged_below_def)
    have tp: "globals ?s1 ''tuning_array'' = Some tp" "tp < next_addr ?s1"
      using a(1,3) Cons.prems(9,11) by simp_all
    have rest: "\<forall>j\<in>set js. j < length dv" using Cons.prems(13) by simp
    note IH = Cons.IH [OF k0(2) k1(2) k2(2) k0(1) k1(1) k2(1) it Cons.prems(8) tp(1)
        Cons.prems(10) tp(2) a(2) rest]
    have step: "tuning_array_inner_mem i tf it (j # js) s = tuning_array_inner_mem i tf it js ?s1"
      using rd j b by simp
    have pure: "tuning_array_inner TF D R i tf (map (\<lambda>j. (j, dv ! j)) (j # js)) a =
                tuning_array_inner TF D R i tf (map (\<lambda>j. (j, dv ! j)) js) a1"
      using Inr by simp
    show ?thesis
      unfolding step pure using IH a(3)
      by (auto split: sum.splits)
  qed
qed


lemma tuning_array_inner_start_sim:
  assumes "floats_var b s ''dirvals''" and "floats_var b s ''temporal_frequency''"
    and "floats_var b s ''direction''" and "floats_var b s ''trial_response''"
    and "globals s ''tuning_array'' = Some tp" and "b \<le> tp" and "tp < next_addr s"
    and "heap s tp = Some (Floats2 a)"
  shows "case (case lookup ''dirvals'' (floats_of s ''dirvals'') of
                 Inl e \<Rightarrow> Inl e
               | Inr dv \<Rightarrow>
                   tuning_array_inner (floats_of s ''temporal_frequency'')
                     (floats_of s ''direction'') (floats_of s ''trial_response'') i tf
                     (enumerate_list dv) a) of
           Inl e \<Rightarrow> tuning_array_inner_start i tf s = Inl e
         | Inr a' \<Rightarrow>
             \<exists>s'. tuning_array_inner_start i tf s = Inr s' \<and>
                  heap s' tp = Some (Floats2 a') \<and> tp < next_addr s' \<and>
                  (\<forall>name. name \<noteq> ''trials'' \<longrightarrow> globals s' name = globals s name)"
  using assms(1)
proof (cases rule: floats_var_cases)
  case 1
  then show ?thesis by (simp add: tuning_array_inner_start_def var_addr_def)
next
  case (2 it dv)
  have run: "tuning_array_inner_start i tf s =
             tuning_array_inner_mem i tf it [0..<length dv] s"
    using 2 by (simp add: tuning_array_inner_start_def var_addr_def read_floats_def)
  have "case tuning_array_inner (floats_of s ''temporal_frequency'')
               (floats_of s ''direction'') (floats_of s ''trial_response'') i tf
               (map (\<lambda>j. (j, dv ! j)) [0..<length dv]) a of
           Inl e \<Rightarrow> tuning_array_inner_mem i tf it [0..<length dv] s = Inl e
         | Inr a' \<Rightarrow>
             \<exists>s'. tuning_array_inner_mem i tf it [0..<length dv] s = Inr s' \<and>
                  heap s' tp = Some (Floats2 a') \<and> tp < next_addr s' \<and>
                  (\<forall>name. name \<noteq> ''trials'' \<longrightarrow> globals s' name = globals s name)"
    by (rule tuning_array_inner_sim [OF assms(2,3,4) refl refl refl 2(3,2) assms(5-8)]) simp
  then show ?thesis unfolding run by (simp add: 2 enumerate_list_nth)
qed

lemma tuning_array_outer_sim:
  assumes "floats_var b s ''dirvals''" and "floats_var b s ''temporal_frequency''"
    and "floats_var b s ''direction''" and "floats_var b s ''trial_response''"
    and "floats_of s ''dirvals'' = DV" and "floats_of s ''temporal_frequency'' = TF"
    and "floats_of s ''direction'' = D" and "floats_of s ''trial_response'' = R"
    and "heap s it = Some (Floats tfv)" and "it < b"
    and "globals s ''tuning_array'' = Some tp" and "b \<le> tp" and "tp < next_addr s"
    and "heap s tp = Some (Floats2 a)"
    and "\<forall>i\<in>set is. i < length tfv"
  shows "case tuning_array_outer DV TF D R (map (\<lambda>i. (i, tfv ! i)) is) a of
           Inl e \<Rightarrow> tuning_array_outer_mem it is s = Inl e
         | Inr a' \<Rightarrow>
             \<exists>s'. tuning_array_outer_mem it is s = Inr s' \<and>
                  heap s' tp = Some (Floats2 a') \<and> tp < next_addr s' \<and>
                  (\<forall>name. name \<noteq> ''trials'' \<longrightarrow> globals s' name = globals s name)"
  using assms
proof (induction "is" arbitrary: s a)
  case Nil
  then show ?case by simp
next
  case (Cons i "is")
  let ?step = "case lookup ''dirvals'' DV of
                 Inl e \<Rightarrow> Inl e
               | Inr dv \<Rightarrow> tuning_array_inner TF D R i (tfv ! i) (enumerate_list dv) a"
  have rd: "read_floats s it = Inr tfv" using Cons.prems(9) by (simp add: read_floats_def)
  have i: "i < length tfv" using Cons.prems(15) by simp
  note inner = tuning_array_inner_start_sim [OF Cons.prems(1,2,3,4,11,12,13,14),
      of i "tfv ! i", unfolded Cons.prems(5,6,7,8)]
  have unroll: "tuning_array_outer DV TF D R (map (\<lambda>i. (i, tfv ! i)) (i # is)) a =
      (case ?step of
         Inl e \<Rightarrow> Inl e
       | Inr a1 \<Rightarrow> tuning_array_outer DV TF D R (map (\<lambda>i. (i, tfv ! i)) is) a1)"
    by (cases "lookup ''dirvals'' DV") simp_all
  show ?case
  proof (cases ?step)
    case (Inl e)
    then have "tuning_array_inner_start i (tfv ! i) s = Inl e" using inner by simp
    moreover have "tuning_array_outer DV TF D R (map (\<lambda>i. (i, tfv ! i)) (i # is)) a = Inl e"
      unfolding unroll using Inl by simp
    ultimately show ?thesis using rd i by simp
  next
    case (Inr a1)
    with inner obtain s1 where b: "tuning_array_inner_start i (tfv ! i) s = Inr s1"
      and h1: "heap s1 tp = Some (Floats2 a1)" and n1: "tp < next_addr s1"
      and g1: "\<forall>name. name \<noteq> ''trials'' \<longrightarrow> globals s1 name = globals s name"
      by auto
    have fr: "fresh_var b ''tuning_array'' s"
      using Cons.prems(11,12,13) by (simp add: fresh_var_def)
    from tuning_array_inner_start_frame [OF b fr] have f: "unchanged_below b s s1" by simp
    have k0: "floats_of s1 ''dirvals'' = DV" "floats_var b s1 ''dirvals''"
      using floats_of_unchanged [OF f Cons.prems(1)] g1 Cons.prems(5) by simp_all
    have k1: "floats_of s1 ''temporal_frequency'' = TF" "floats_var b s1 ''temporal_frequency''"
      using floats_of_unchanged [OF f Cons.prems(2)] g1 Cons.prems(6) by simp_all
    have k2: "floats_of s1 ''direction'' = D" "floats_var b s1 ''direction''"
      using floats_of_unchanged [OF f Cons.prems(3)] g1 Cons.prems(7) by simp_all
    have k3: "floats_of s1 ''trial_response'' = R" "floats_var b s1 ''trial_response''"
      using floats_of_unchanged [OF f Cons.prems(4)] g1 Cons.prems(8) by simp_all
    have it: "heap s1 it = Some (Floats tfv)"
      using f Cons.prems(9,10) by (simp add: unchanged_below_def)
    have tp: "globals s1 ''tuning_array'' = Some tp"
      using g1 Cons.prems(11) by simp
    have rest: "\<forall>i\<in>set is. i < length tfv" using Cons.prems(15) by simp
    note IH = Cons.IH [OF k0(2) k1(2) k2(2) k3(2) k0(1) k1(1) k2(1) k3(1) it Cons.prems(10) tp
        Cons.prems(12) n1 h1 rest]
    have step: "tuning_array_outer_mem it (i # is) s = tuning_array_outer_mem it is s1"
      using rd i b by simp
    have pure: "tuning_array_outer DV TF D R (map (\<lambda>i. (i, tfv ! i)) (i # is)) a =
                tuning_array_outer DV TF D R (map (\<lambda>i. (i, tfv ! i)) is) a1"
      unfolding unroll using Inr by simp
    show ?thesis
      unfolding step pure using IH g1
      by (auto split: sum.splits)
  qed
qed

lemma cell_71_simulates:
  assumes "well_formed s"
  shows "simulates (cell_71_mem g) (cell_71 g) s"
proof -
  note w = well_formedD [OF assms]
  let ?b = "next_addr s"
  let ?s1 = "assign_new ''tuning_array'' (Floats2 (np_empty2 g 8 5)) s"
  have f1: "unchanged_below ?b s ?s1" by (rule assign_new_frame) simp
  from w(7) show ?thesis
  proof (cases rule: floats_var_cases)
    case 1
    then show ?thesis
      by (simp add: simulates_def cell_71_mem_def cell_71_def var_addr_def nb_state_of_def
          tuning_array_of_def Let_def)
  next
    case (2 it tfv)
    let ?DV = "floats_of s ''dirvals''"
    let ?TF = "floats_of s ''temporal_frequency''"
    let ?D = "floats_of s ''direction''"
    let ?R = "floats_of s ''trial_response''"
    have k0: "floats_of ?s1 ''dirvals'' = ?DV" "floats_var ?b ?s1 ''dirvals''"
      using floats_of_unchanged [OF f1 w(6)] by simp_all
    have k1: "floats_of ?s1 ''temporal_frequency'' = ?TF" "floats_var ?b ?s1 ''temporal_frequency''"
      using floats_of_unchanged [OF f1 w(3)] by simp_all
    have k2: "floats_of ?s1 ''direction'' = ?D" "floats_var ?b ?s1 ''direction''"
      using floats_of_unchanged [OF f1 w(2)] by simp_all
    have k3: "floats_of ?s1 ''trial_response'' = ?R" "floats_var ?b ?s1 ''trial_response''"
      using floats_of_unchanged [OF f1 w(4)] by simp_all
    have it: "heap ?s1 it = Some (Floats tfv)" using 2 by simp
    have rd: "var_addr ?s1 ''tfvals'' = Inr it" "read_floats ?s1 it = Inr tfv"
      using 2 by (simp_all add: var_addr_def read_floats_def)
    have run: "cell_71_mem g s = tuning_array_outer_mem it [0..<length tfv] ?s1"
      by (simp add: cell_71_mem_def Let_def rd)
    let ?pure = "tuning_array_outer ?DV ?TF ?D ?R (map (\<lambda>i. (i, tfv ! i)) [0..<length tfv])
                   (np_empty2 g 8 5)"
    have pure: "tuning_array_of g (floats_of s ''tfvals'') ?DV ?TF ?D ?R = ?pure"
      by (simp add: tuning_array_of_def 2 enumerate_list_nth)
    have sim: "case ?pure of
           Inl e \<Rightarrow> tuning_array_outer_mem it [0..<length tfv] ?s1 = Inl e
         | Inr a' \<Rightarrow>
             \<exists>s'. tuning_array_outer_mem it [0..<length tfv] ?s1 = Inr s' \<and>
                  heap s' ?b = Some (Floats2 a') \<and> ?b < next_addr s' \<and>
                  (\<forall>name. name \<noteq> ''trials'' \<longrightarrow> globals s' name = globals ?s1 name)"
      by (rule tuning_array_outer_sim [OF k0(2) k1(2) k2(2) k3(2) k0(1) k1(1) k2(1) k3(1) it 2(2)])
        simp_all
    show ?thesis
    proof (cases ?pure)
      case (Inl e)
      then show ?thesis using sim
        by (simp add: simulates_def run cell_71_def nb_state_of_def [of s] pure)
    next
      case (Inr a')
      with sim obtain S where r: "tuning_array_outer_mem it [0..<length tfv] ?s1 = Inr S"
        and tn: "heap S ?b = Some (Floats2 a')" and n': "?b < next_addr S"
        and gl: "\<forall>name. name \<noteq> ''trials'' \<longrightarrow> globals S name = globals ?s1 name"
        by auto
      have "unchanged_below ?b ?s1 S"
        by (rule tuning_array_outer_frame [OF r]) (simp add: fresh_var_def)
      with f1 have f: "unchanged_below ?b s S" by (rule unchanged_below_trans)
      have n: "?b \<le> next_addr S" using n' by simp
      note inp = kept_inputs [OF f w(1) n]
      have g: "globals S ''direction'' = globals s ''direction''"
        "globals S ''temporal_frequency'' = globals s ''temporal_frequency''"
        "globals S ''trial_response'' = globals s ''trial_response''"
        "globals S ''all_dir'' = globals s ''all_dir''"
        "globals S ''dirvals'' = globals s ''dirvals''"
        "globals S ''tfvals'' = globals s ''tfvals''"
        "globals S ''tuning'' = globals s ''tuning''"
        "globals S ''tuning_array_z'' = globals s ''tuning_array_z''"
        "globals S ''tuning_array'' = Some ?b"
        using gl by simp_all
      note k1 = kept_floats [OF f w(2) g(1) n] note k2 = kept_floats [OF f w(3) g(2) n]
      note k3 = kept_floats [OF f w(4) g(3) n] note k4 = kept_floats [OF f w(5) g(4) n]
      note k5 = kept_floats [OF f w(6) g(5) n] note k6 = kept_floats [OF f w(7) g(6) n]
      note k7 = kept_floats [OF f w(8) g(7) n] note k8 = kept_floats2 [OF f w(10) g(8) n]
      note t = new_floats2 [OF g(9) tn n']
      have "cell_71 g (nb_state_of s) = Inr (nb_state_of S)"
        unfolding cell_71_def
        by (simp add: nb_state_of_def [of S] inp k1 k2 k3 k4 k5 k6 k7 k8 t)
          (simp add: nb_state_of_def pure Inr)
      moreover have "well_formed S"
        by (rule well_formedI) (simp_all add: inp k1 k2 k3 k4 k5 k6 k7 k8 t)
      ultimately show ?thesis by (simp add: simulates_def run r)
    qed
  qed
qed

lemma cell_simulates:
  assumes "(c_mem, c) \<in> set (cell_pairs g g2)" and "well_formed s"
  shows "simulates c_mem c s"
  using assms cell_37_simulates cell_45_simulates cell_47_simulates cell_52_simulates
    cell_71_simulates cell_80_simulates
  by (auto simp: cell_pairs_def aggregation_cells_mem_def aggregation_cells_def)

lemma run_simulates:
  assumes "set ps \<subseteq> set (cell_pairs g g2)" and "well_formed s"
  shows "case run_cells_mem (map fst ps) s of
           Inl e \<Rightarrow> run_cells (map snd ps) (nb_state_of s) = Inl e
         | Inr s' \<Rightarrow> run_cells (map snd ps) (nb_state_of s) = Inr (nb_state_of s') \<and>
                     well_formed s'"
  using assms
proof (induction ps arbitrary: s)
  case Nil
  then show ?case by simp
next
  case (Cons p ps)
  obtain c_mem c where p: "p = (c_mem, c)" by (cases p)
  have "(c_mem, c) \<in> set (cell_pairs g g2)" using Cons.prems(1) p by simp
  from cell_simulates [OF this Cons.prems(2)] have sim: "simulates c_mem c s" .
  show ?case
  proof (cases "c_mem s")
    case (Inl e)
    then show ?thesis using sim by (simp add: simulates_def p)
  next
    case (Inr s1)
    then have c: "c (nb_state_of s) = Inr (nb_state_of s1)" and wf: "well_formed s1"
      using sim by (simp_all add: simulates_def)
    have "set ps \<subseteq> set (cell_pairs g g2)" using Cons.prems(1) by simp
    have m: "run_cells_mem (map fst (p # ps)) s = run_cells_mem (map fst ps) s1"
      by (simp add: p Inr)
    have r: "run_cells (map snd (p # ps)) (nb_state_of s) =
             run_cells (map snd ps) (nb_state_of s1)"
      by (simp add: p c)
    from Cons.IH [OF \<open>set ps \<subseteq> set (cell_pairs g g2)\<close> wf] show ?thesis unfolding m r .
  qed
qed

lemma aggregation_run_simulates:
  assumes "well_formed s"
  shows "case run_cells_mem (aggregation_cells_mem g g2) s of
           Inl e \<Rightarrow> run_cells (aggregation_cells g g2) (nb_state_of s) = Inl e
         | Inr s' \<Rightarrow> run_cells (aggregation_cells g g2) (nb_state_of s) = Inr (nb_state_of s') \<and>
                     well_formed s'"
proof -
  have l: "length (aggregation_cells_mem g g2) = length (aggregation_cells g g2)"
    by (simp add: aggregation_cells_mem_def aggregation_cells_def)
  have m: "map fst (cell_pairs g g2) = aggregation_cells_mem g g2"
    "map snd (cell_pairs g g2) = aggregation_cells g g2"
    by (simp_all add: cell_pairs_def l)
  from run_simulates [OF subset_refl assms, of g g2] show ?thesis unfolding m .
qed

text \<open>
  The memory after loading stands for the initial state of the functions, so that the
  run in memory from there is the run of the functions.
\<close>

lemma stim_table_of_load: "stim_table_of (load_notebook dff_trace stim_table) = stim_table"
  unfolding stim_table_of_def
  by (rule nth_equalityI)
    (simp_all add: load_notebook_def column_ints_def column_floats_def del: upt.simps)

lemma well_formed_load: "well_formed (load_notebook dff_trace stim_table)"
  by (simp add: well_formed_def inputs_ok_def vars_ok_def float_names_def float2_names_def
      floats_var_def floats2_var_def inputs_of_def is_floats_def is_ints_def column_ints_def
      column_floats_def load_notebook_def)

lemma nb_state_of_load:
  "nb_state_of (load_notebook dff_trace stim_table) = init_state dff_trace stim_table"
  by (simp add: nb_state_of_def init_state_def stim_table_of_load)
    (simp add: load_notebook_def column_floats_def floats_of_def floats2_of_def)

lemma well_formed_tfvals:
  assumes "well_formed s"
  shows "well_formed (assign_new ''tfvals'' (Floats tfv) s)"
    and "nb_state_of (assign_new ''tfvals'' (Floats tfv) s) = (nb_state_of s)\<lparr>g_tfvals := Some tfv\<rparr>"
proof -
  note w = well_formedD [OF assms]
  let ?b = "next_addr s"
  define S where "S = assign_new ''tfvals'' (Floats tfv) s"
  have f: "unchanged_below ?b s S" unfolding S_def by (rule assign_new_frame) simp
  have n: "?b \<le> next_addr S" by (simp add: S_def)
  note inp = kept_inputs [OF f w(1) n]
  have g: "globals S ''direction'' = globals s ''direction''"
    "globals S ''temporal_frequency'' = globals s ''temporal_frequency''"
    "globals S ''trial_response'' = globals s ''trial_response''"
    "globals S ''all_dir'' = globals s ''all_dir''"
    "globals S ''dirvals'' = globals s ''dirvals''"
    "globals S ''tuning'' = globals s ''tuning''"
    "globals S ''tuning_array'' = globals s ''tuning_array''"
    "globals S ''tuning_array_z'' = globals s ''tuning_array_z''"
    by (simp_all add: S_def)
  note k1 = kept_floats [OF f w(2) g(1) n] note k2 = kept_floats [OF f w(3) g(2) n]
  note k3 = kept_floats [OF f w(4) g(3) n] note k4 = kept_floats [OF f w(5) g(4) n]
  note k5 = kept_floats [OF f w(6) g(5) n] note k6 = kept_floats [OF f w(8) g(6) n]
  note k7 = kept_floats2 [OF f w(9) g(7) n] note k8 = kept_floats2 [OF f w(10) g(8) n]
  have t: "floats_of S ''tfvals'' = Some tfv" "floats_var (next_addr S) S ''tfvals''"
    by (rule new_floats [of S _ ?b]; simp add: S_def)+
  show "well_formed (assign_new ''tfvals'' (Floats tfv) s)"
    unfolding S_def [symmetric]
    by (rule well_formedI) (simp_all add: inp k1 k2 k3 k4 k5 k6 k7 k8 t)
  show "nb_state_of (assign_new ''tfvals'' (Floats tfv) s) = (nb_state_of s)\<lparr>g_tfvals := Some tfv\<rparr>"
    unfolding S_def [symmetric]
    by (simp add: nb_state_of_def [of S] inp k1 k2 k3 k4 k5 k6 k7 k8 t)
      (simp add: nb_state_of_def)
qed

lemma nb_state_of_ex_notebook: "well_formed ex_notebook" "nb_state_of ex_notebook = ex_state"
  by (simp_all add: ex_notebook_def well_formed_tfvals well_formed_load nb_state_of_load
      ex_state_def)

lemma loaded_run_simulates:
  "case run_cells_mem (aggregation_cells_mem g g2) (load_notebook dff_trace stim_table) of
     Inl e \<Rightarrow> run_cells (aggregation_cells g g2) (init_state dff_trace stim_table) = Inl e
   | Inr s' \<Rightarrow>
       run_cells (aggregation_cells g g2) (init_state dff_trace stim_table) =
         Inr (nb_state_of s') \<and> well_formed s'"
  using aggregation_run_simulates [OF well_formed_load, of g g2 dff_trace stim_table]
  unfolding nb_state_of_load .

end
